theory Spec2Isabelle
  imports Complex_Main
begin

section \<open>Data model (src/types/index.ts, src/constants/index.ts)\<close>

text \<open>
  The keys of \<open>LOGO_POSITIONS\<close> and \<open>LOGO_SIZES\<close>. JavaScript numbers are modelled as
  ideal reals, strings as character lists. A field name that clashes with a HOL constant or
  an Isar keyword carries a suffix (\<open>size\<close> is \<open>sizeL\<close>, \<open>id\<close> is \<open>idP\<close>, \<open>text\<close> is
  \<open>textE\<close>). The three fields that \<open>TitlePage\<close> and \<open>EndPage\<close> share are the common
  record \<open>Page\<close> that both extend.
\<close>

datatype LogoPosition =
  top_left | top_center | top_right
  | center_left | center | center_right
  | bottom_left | bottom_center | bottom_right

datatype LogoSize = SizeS | SizeM | SizeL | SizeXL

record Logo =
  src :: string
  assetKey :: string
  position :: LogoPosition
  sizeL :: LogoSize

record Page =
  backgroundImage :: string
  backgroundImageAssetKey :: string
  logo :: "Logo option"

record TitlePage = Page +
  header :: string
  subHeader :: string

record Panel =
  idP :: string
  image :: string
  imageAssetKey :: string
  script :: string

record EndPage = Page +
  textE :: string
  showText :: bool
  mirrorTitlePage :: bool

record ProjectState =
  projectTitle :: string
  titlePage :: TitlePage
  panels :: "Panel list"
  endPage :: EndPage
  logoSizesLinked :: bool
  isLoading :: bool


section \<open>Page assembly of the PDF export (src/lib/pdf-service.ts)\<close>

definition PDF_WIDTH :: real where "PDF_WIDTH = 1024"
definition PDF_HEIGHT :: real where "PDF_HEIGHT = 768"
definition PAGE_MARGIN :: real where "PAGE_MARGIN = 40"

text \<open>\<open>Array.prototype.slice(s, e)\<close> for indices that are not negative.\<close>

definition slice :: "'a list \<Rightarrow> nat \<Rightarrow> nat \<Rightarrow> 'a list" where
  "slice xs s e = take (e - s) (drop s xs)"

text \<open>
  The loop of \<open>exportToPdf\<close> that fills \<open>panelChunks\<close>:
  \<^verbatim>\<open>for (let i = 0; i < state.panels.length; i += 6) panelChunks.push(state.panels.slice(i, i + 6))\<close>.
\<close>

function panelChunksLoop :: "'a list \<Rightarrow> nat \<Rightarrow> 'a list list \<Rightarrow> 'a list list" where
  "panelChunksLoop ps i panelChunks =
     (if i < length ps
      then panelChunksLoop ps (i + 6) (panelChunks @ [slice ps i (i + 6)])
      else panelChunks)"
  by pat_completeness auto
termination
  by (relation "measure (\<lambda>(ps, i, panelChunks). length ps - i)") auto

declare panelChunksLoop.simps [simp del]

definition panelChunks :: "'a list \<Rightarrow> 'a list list" where
  "panelChunks ps = panelChunksLoop ps 0 []"

text \<open>
  One call of \<open>drawPanelTemplate\<close> as \<open>drawPanelPage\<close> issues it: the panel, its index in
  the whole storyboard, and the bounding box of its grid cell.
\<close>

record panel_cell =
  cellPanel :: Panel
  cellIndex :: nat
  cellX :: real
  cellY :: real
  cellWidth :: real
  cellHeight :: real

definition cols :: nat where "cols = 3"
definition rows :: nat where "rows = 2"
definition colGap :: real where "colGap = 20"
definition rowGap :: real where "rowGap = 20"
definition contentWidth :: real where "contentWidth = PDF_WIDTH - PAGE_MARGIN * 2"
definition contentHeight :: real where "contentHeight = PDF_HEIGHT - PAGE_MARGIN * 2"
definition panelWidth :: real where
  "panelWidth = (contentWidth - (real cols - 1) * colGap) / real cols"
definition panelHeight :: real where
  "panelHeight = (contentHeight - (real rows - 1) * rowGap) / real rows"

definition drawPanelPage :: "Panel list \<Rightarrow> nat \<Rightarrow> panel_cell list" where
  "drawPanelPage ps chunkIndex =
     map (\<lambda>i.
        let panel = ps ! i;
            col = i mod cols;
            row = i div cols;
            x = PAGE_MARGIN + real col * (panelWidth + colGap);
            y = PAGE_MARGIN + real row * (panelHeight + rowGap)
        in \<lparr> cellPanel = panel, cellIndex = chunkIndex * 6 + i,
             cellX = x, cellY = y, cellWidth = panelWidth, cellHeight = panelHeight \<rparr>)
       [0 ..< length ps]"

text \<open>
  The configuration the end page is drawn from. A \<open>LogoPosition\<close> is never the empty
  string, so \<open>state.endPage.logo?.position || 'bottom-center'\<close> takes the default exactly
  when the end page has no logo.
\<close>

definition endPageConfig :: "ProjectState \<Rightarrow> EndPage" where
  "endPageConfig state =
     (if mirrorTitlePage (endPage state)
      then (endPage state)
             \<lparr> backgroundImage := backgroundImage (titlePage state),
               logo := (case logo (titlePage state) of
                          Some titleLogo \<Rightarrow>
                            Some (titleLogo \<lparr> position :=
                                    (case logo (endPage state) of
                                       Some endLogo \<Rightarrow> position endLogo
                                     | None \<Rightarrow> bottom_center) \<rparr>)
                        | None \<Rightarrow> None) \<rparr>
      else endPage state)"

text \<open>
  The page creation sequence of \<open>exportToPdf\<close> (lines 182-240), as the arguments of its
  drawing calls: the title page, one page for each chunk, the end page. A drawing call can
  throw (an image that cannot be loaded or embedded, for instance), and so can the
  registration of the fonts before the first page; which calls complete is a matter of the
  environment: \<open>draws x n page\<close> says that the drawing of \<open>page\<close> as page number \<open>n\<close> of
  the document (from 0) completes.
\<close>

datatype page_drawn =
  TitlePageDrawn TitlePage
  | PanelPageDrawn "panel_cell list"
  | EndPageDrawn EndPage

record export_env =
  fontsRegister :: bool
  draws :: "nat \<Rightarrow> page_drawn \<Rightarrow> bool"

text \<open>
  The errors that \<open>exportToPdf\<close> rethrows with the step they come from
  (\<open>Failed at Title Page step\<close>, \<open>Failed at Panel Page n step\<close>, \<open>Failed at End Page step\<close>),
  and the error of \<open>registerFonts\<close>. Each ends in the outer \<open>catch\<close>, which logs it: no
  later page is drawn and no file is written.
\<close>

datatype export_error =
  FontsError
  | TitlePageError
  | PanelPageError nat
  | EndPageError

text \<open>
  The loop over \<open>panelChunks\<close> (lines 214-223), from chunk index \<open>i\<close> on: the pages drawn,
  or the error of the first page whose drawing throws.
\<close>

fun drawPanelPages ::
  "(nat \<Rightarrow> page_drawn \<Rightarrow> bool) \<Rightarrow> Panel list list \<Rightarrow> nat
    \<Rightarrow> export_error + page_drawn list" where
  "drawPanelPages drawn [] i = Inr []"
| "drawPanelPages drawn (chunk # chunks) i =
     (if drawn (Suc i) (PanelPageDrawn (drawPanelPage chunk i))
      then (case drawPanelPages drawn chunks (Suc i) of
              Inl err \<Rightarrow> Inl err
            | Inr pages \<Rightarrow> Inr (PanelPageDrawn (drawPanelPage chunk i) # pages))
      else Inl (PanelPageError (Suc i)))"

text \<open>
  The pages of the document that is handed to the save step, or the error that ended the
  export before it.
\<close>

definition exportPages :: "export_env \<Rightarrow> ProjectState \<Rightarrow> export_error + page_drawn list" where
  "exportPages x state =
     (if \<not> fontsRegister x then Inl FontsError
      else if \<not> draws x 0 (TitlePageDrawn (titlePage state)) then Inl TitlePageError
      else (case drawPanelPages (draws x) (panelChunks (panels state)) 0 of
              Inl err \<Rightarrow> Inl err
            | Inr panelPages \<Rightarrow>
                if draws x (Suc (length panelPages)) (EndPageDrawn (endPageConfig state))
                then Inr (TitlePageDrawn (titlePage state) # panelPages
                          @ [EndPageDrawn (endPageConfig state)])
                else Inl EndPageError))"


section \<open>Chunking of the panel sequence\<close>

lemma panelChunksLoop_acc:
  "panelChunksLoop ps i acc = acc @ panelChunksLoop ps i []"
proof (induction "length ps - i" arbitrary: i acc rule: less_induct)
  case less
  show ?case
  proof (cases "i < length ps")
    case True
    then have smaller: "length ps - (i + 6) < length ps - i" by simp
    have "panelChunksLoop ps i acc = panelChunksLoop ps (i + 6) (acc @ [slice ps i (i + 6)])"
      using True by (simp add: panelChunksLoop.simps [of ps i acc])
    also have "\<dots> = (acc @ [slice ps i (i + 6)]) @ panelChunksLoop ps (i + 6) []"
      using less [OF smaller] .
    also have "\<dots> = acc @ panelChunksLoop ps (i + 6) [slice ps i (i + 6)]"
      using less [OF smaller, of "[slice ps i (i + 6)]"] by simp
    finally show ?thesis
      using True by (simp add: panelChunksLoop.simps [of ps i "[]"])
  next
    case False
    then show ?thesis by (simp add: panelChunksLoop.simps)
  qed
qed

lemma panelChunksLoop_step:
  "i < length ps \<Longrightarrow>
   panelChunksLoop ps i [] = take 6 (drop i ps) # panelChunksLoop ps (i + 6) []"
  using panelChunksLoop_acc [of ps "i + 6" "[slice ps i (i + 6)]"]
  by (simp add: panelChunksLoop.simps [of ps i "[]"] slice_def)

lemma panelChunksLoop_done:
  "\<not> i < length ps \<Longrightarrow> panelChunksLoop ps i [] = []"
  by (simp add: panelChunksLoop.simps)

lemma concat_panelChunksLoop:
  "concat (panelChunksLoop ps i []) = drop i ps"
proof (induction "length ps - i" arbitrary: i rule: less_induct)
  case less
  show ?case
  proof (cases "i < length ps")
    case True
    then have smaller: "length ps - (i + 6) < length ps - i" by simp
    have "concat (panelChunksLoop ps i []) = take 6 (drop i ps) @ drop (i + 6) ps"
      using less [OF smaller] True by (simp add: panelChunksLoop_step)
    also have "\<dots> = take 6 (drop i ps) @ drop 6 (drop i ps)"
      by (simp add: add.commute)
    also have "\<dots> = drop i ps"
      by (rule append_take_drop_id)
    finally show ?thesis .
  next
    case False
    then show ?thesis by (simp add: panelChunksLoop_done)
  qed
qed

lemma chunk_count_step:
  fixes n i :: nat
  assumes "i < n"
  shows "Suc ((n - (i + 6) + 5) div 6) = (n - i + 5) div 6"
proof (cases "i + 6 \<le> n")
  case True
  then have "n - i + 5 = (n - (i + 6) + 5) + 6" by simp
  then have "(n - i + 5) div 6 = ((n - (i + 6) + 5) + 6) div 6" by (rule arg_cong)
  also have "\<dots> = Suc ((n - (i + 6) + 5) div 6)" by (simp only: div_add_self2)
  finally show ?thesis by (rule sym)
next
  case False
  with assms have "6 * 1 \<le> n - i + 5" and "n - i + 5 < 6 * Suc 1" by simp_all
  then have "(n - i + 5) div 6 = 1" by (rule div_nat_eqI)
  with False show ?thesis by simp
qed

lemma length_panelChunksLoop:
  "length (panelChunksLoop ps i []) = (length ps - i + 5) div 6"
proof (induction "length ps - i" arbitrary: i rule: less_induct)
  case less
  show ?case
  proof (cases "i < length ps")
    case True
    then have smaller: "length ps - (i + 6) < length ps - i" by simp
    have "length (panelChunksLoop ps i []) = Suc ((length ps - (i + 6) + 5) div 6)"
      using less [OF smaller] True by (simp only: panelChunksLoop_step list.size length_Cons)
    also have "\<dots> = (length ps - i + 5) div 6"
      using True by (rule chunk_count_step)
    finally show ?thesis .
  next
    case False
    then show ?thesis by (simp add: panelChunksLoop_done)
  qed
qed

lemma nth_panelChunksLoop:
  "k < length (panelChunksLoop ps i []) \<Longrightarrow>
   panelChunksLoop ps i [] ! k = take 6 (drop (i + 6 * k) ps)"
proof (induction k arbitrary: i)
  case 0
  then have "i < length ps"
    by (cases "i < length ps") (simp_all add: panelChunksLoop_done)
  then show ?case by (simp add: panelChunksLoop_step)
next
  case (Suc k)
  then have lt: "i < length ps"
    by (cases "i < length ps") (simp_all add: panelChunksLoop_done)
  with Suc.prems have "k < length (panelChunksLoop ps (i + 6) [])"
    by (simp add: panelChunksLoop_step)
  from Suc.IH [OF this] lt show ?case
    by (simp add: panelChunksLoop_step add.assoc)
qed

lemma length_panelChunks: "length (panelChunks ps) = (length ps + 5) div 6"
  by (simp add: panelChunks_def length_panelChunksLoop)

lemma nth_panelChunks:
  "k < length (panelChunks ps) \<Longrightarrow> panelChunks ps ! k = take 6 (drop (6 * k) ps)"
  using nth_panelChunksLoop [of k ps 0] by (simp add: panelChunks_def)

lemma chunk_index_bound:
  "k < length (panelChunks ps) \<longleftrightarrow> 6 * k < length ps"
proof -
  have "Suc k \<le> (length ps + 5) div 6 \<longleftrightarrow> Suc k * 6 \<le> length ps + 5"
    by (rule less_eq_div_iff_mult_less_eq) simp
  then have "k < (length ps + 5) div 6 \<longleftrightarrow> 6 * k < length ps"
    unfolding Suc_le_eq [symmetric] by (simp add: mult.commute)
  then show ?thesis by (simp only: length_panelChunks)
qed

lemma length_nth_panelChunks:
  "k < length (panelChunks ps) \<Longrightarrow>
   length (panelChunks ps ! k) =
     (if Suc k < length (panelChunks ps) then 6 else length ps - 6 * k)"
  using chunk_index_bound [of k ps] chunk_index_bound [of "Suc k" ps]
  by (simp add: nth_panelChunks min_def) linarith

lemma panelChunks_13:
  "length ps = 13 \<Longrightarrow> map length (panelChunks ps) = [6, 6, 1]"
  by (simp add: panelChunks_def panelChunksLoop_step panelChunksLoop_done)

lemma drawPanelPage_cell:
  "i < length c \<Longrightarrow>
   drawPanelPage c k ! i =
     \<lparr> cellPanel = c ! i, cellIndex = k * 6 + i,
       cellX = PAGE_MARGIN + real (i mod 3) * (panelWidth + colGap),
       cellY = PAGE_MARGIN + real (i div 3) * (panelHeight + rowGap),
       cellWidth = panelWidth, cellHeight = panelHeight \<rparr>"
  by (simp add: drawPanelPage_def cols_def Let_def)

lemma concat_panelChunks: "concat (panelChunks ps) = ps"
  by (simp add: panelChunks_def concat_panelChunksLoop)

lemma length_drawPanelPage: "length (drawPanelPage c k) = length c"
  by (simp add: drawPanelPage_def)

text \<open>The panel loop completes exactly when every page draws, and then has drawn them all.\<close>

lemma drawPanelPages_pages:
  "drawPanelPages drawn cs i = Inr pages \<Longrightarrow>
   length pages = length cs
   \<and> (\<forall>k < length cs. pages ! k = PanelPageDrawn (drawPanelPage (cs ! k) (i + k)))"
proof (induction cs arbitrary: i pages)
  case Nil
  then show ?case by simp
next
  case (Cons c cs)
  from Cons.prems obtain rest where
    rest: "drawPanelPages drawn cs (Suc i) = Inr rest"
    and pages: "pages = PanelPageDrawn (drawPanelPage c i) # rest"
    by (auto split: if_splits sum.splits)
  from Cons.IH [OF rest] have len: "length rest = length cs"
    and nth: "\<And>k. k < length cs \<Longrightarrow>
                rest ! k = PanelPageDrawn (drawPanelPage (cs ! k) (Suc i + k))"
    by simp_all
  show ?case
  proof (intro conjI allI impI)
    show "length pages = length (c # cs)"
      by (simp add: pages len)
    fix k assume "k < length (c # cs)"
    then show "pages ! k = PanelPageDrawn (drawPanelPage ((c # cs) ! k) (i + k))"
      by (cases k) (simp_all add: pages nth)
  qed
qed

lemma drawPanelPages_completes:
  "(\<exists>pages. drawPanelPages drawn cs i = Inr pages)
     \<longleftrightarrow> (\<forall>k < length cs.
            drawn (Suc (i + k)) (PanelPageDrawn (drawPanelPage (cs ! k) (i + k))))"
proof (induction cs arbitrary: i)
  case Nil
  show ?case by simp
next
  case (Cons c cs)
  have split: "(\<forall>k < length (c # cs). P k) \<longleftrightarrow> P 0 \<and> (\<forall>k < length cs. P (Suc k))" for P
    by (auto simp add: less_Suc_eq_0_disj)
  show ?case
    unfolding split using Cons.IH [of "Suc i"]
    by (auto split: sum.splits)
qed

lemma exportPages_pages:
  assumes "exportPages x s = Inr pages"
  shows "length pages = length (panelChunks (panels s)) + 2
   \<and> pages ! 0 = TitlePageDrawn (titlePage s)
   \<and> (\<forall>k < length (panelChunks (panels s)).
         pages ! Suc k = PanelPageDrawn (drawPanelPage (panelChunks (panels s) ! k) k))
   \<and> last pages = EndPageDrawn (endPageConfig s)"
proof -
  from assms obtain panelPages where
    loop: "drawPanelPages (draws x) (panelChunks (panels s)) 0 = Inr panelPages"
    and pages: "pages = TitlePageDrawn (titlePage s) # panelPages
                          @ [EndPageDrawn (endPageConfig s)]"
    by (auto simp add: exportPages_def split: if_splits sum.splits)
  from drawPanelPages_pages [OF loop]
  have len: "length panelPages = length (panelChunks (panels s))"
    and nth: "\<And>k. k < length (panelChunks (panels s)) \<Longrightarrow>
                panelPages ! k = PanelPageDrawn (drawPanelPage (panelChunks (panels s) ! k) k)"
    by simp_all
  show ?thesis
    by (simp add: pages len nth nth_append)
qed

lemma exportPages_completes:
  "(\<exists>pages. exportPages x s = Inr pages)
     \<longleftrightarrow> fontsRegister x
         \<and> draws x 0 (TitlePageDrawn (titlePage s))
         \<and> (\<forall>k < length (panelChunks (panels s)).
               draws x (Suc k) (PanelPageDrawn (drawPanelPage (panelChunks (panels s) ! k) k)))
         \<and> draws x (Suc (length (panelChunks (panels s)))) (EndPageDrawn (endPageConfig s))"
proof (cases "drawPanelPages (draws x) (panelChunks (panels s)) 0")
  case (Inl err)
  then show ?thesis
    using drawPanelPages_completes [of "draws x" "panelChunks (panels s)" 0]
    by (auto simp add: exportPages_def)
next
  case (Inr panelPages)
  from drawPanelPages_pages [OF Inr]
  have len: "length panelPages = length (panelChunks (panels s))"
    by simp
  from Inr show ?thesis
    using drawPanelPages_completes [of "draws x" "panelChunks (panels s)" 0]
    by (auto simp add: exportPages_def len)
qed

lemma chunk_cell:
  assumes k: "k < length (panelChunks ps)" and i: "i < length (panelChunks ps ! k)"
  shows "drawPanelPage (panelChunks ps ! k) k ! i =
     \<lparr> cellPanel = ps ! (6 * k + i), cellIndex = 6 * k + i,
       cellX = PAGE_MARGIN + real (i mod 3) * (panelWidth + colGap),
       cellY = PAGE_MARGIN + real (i div 3) * (panelHeight + rowGap),
       cellWidth = panelWidth, cellHeight = panelHeight \<rparr>"
proof -
  have "panelChunks ps ! k ! i = ps ! (6 * k + i)"
    using i chunk_index_bound [of k ps] k by (simp add: nth_panelChunks [OF k])
  then show ?thesis
    using drawPanelPage_cell [OF i, of k] by (simp add: mult.commute)
qed

lemma chunk_length_bounds:
  assumes k: "k < length (panelChunks ps)"
  shows "0 < length (panelChunks ps ! k) \<and> length (panelChunks ps ! k) \<le> 6"
  using chunk_index_bound [of k ps] k by (simp add: nth_panelChunks)

text \<open>
  Claim C5. An export completes exactly when the fonts register and every page draws; an
  export in which a drawing throws ends with the error of that step and hands no document
  to the save step. The panel pages of a completed export are the panel sequence cut, in
  source order, into groups of six: the document has the title page, one page for each
  chunk and the end page; concatenating the chunks gives the sequence back, chunk \<open>k\<close> is the six
  panels from position \<open>6 * k\<close> (fewer on the last page, never none), every page but the last
  holds exactly six, and panel \<open>i\<close> of a page is drawn in column \<open>i mod 3\<close> of row
  \<open>i div 3\<close> (three columns, two rows, row-major) under its index in the whole storyboard;
  cells past the last panel of a short page are not drawn. Thirteen panels give three panel
  pages of 6, 6 and 1 panels.
\<close>

theorem panel_pages_chunked_by_six:
  "concat (panelChunks (panels s)) = panels s
   \<and> length (panelChunks (panels s)) = (length (panels s) + 5) div 6
   \<and> ((\<exists>pages. exportPages x s = Inr pages)
        \<longleftrightarrow> fontsRegister x
            \<and> draws x 0 (TitlePageDrawn (titlePage s))
            \<and> (\<forall>k < length (panelChunks (panels s)).
                  draws x (Suc k)
                    (PanelPageDrawn (drawPanelPage (panelChunks (panels s) ! k) k)))
            \<and> draws x (Suc (length (panelChunks (panels s))))
                  (EndPageDrawn (endPageConfig s)))
   \<and> (\<forall>pages. exportPages x s = Inr pages \<longrightarrow>
         length pages = length (panelChunks (panels s)) + 2
         \<and> (\<forall>k < length (panelChunks (panels s)).
               pages ! Suc k = PanelPageDrawn (drawPanelPage (panelChunks (panels s) ! k) k)))
   \<and> (\<forall>k < length (panelChunks (panels s)).
         panelChunks (panels s) ! k = take 6 (drop (6 * k) (panels s))
       \<and> length (panelChunks (panels s) ! k) =
           (if Suc k < length (panelChunks (panels s)) then 6 else length (panels s) - 6 * k)
       \<and> 0 < length (panelChunks (panels s) ! k)
       \<and> length (panelChunks (panels s) ! k) \<le> 6
       \<and> length (drawPanelPage (panelChunks (panels s) ! k) k) = length (panelChunks (panels s) ! k)
       \<and> (\<forall>i < length (panelChunks (panels s) ! k).
             i div 3 < 2
           \<and> drawPanelPage (panelChunks (panels s) ! k) k ! i =
               \<lparr> cellPanel = panels s ! (6 * k + i), cellIndex = 6 * k + i,
                 cellX = PAGE_MARGIN + real (i mod 3) * (panelWidth + colGap),
                 cellY = PAGE_MARGIN + real (i div 3) * (panelHeight + rowGap),
                 cellWidth = panelWidth, cellHeight = panelHeight \<rparr>))
   \<and> (length (panels s) = 13 \<longrightarrow> map length (panelChunks (panels s)) = [6, 6, 1])"
proof (intro conjI allI impI)
  show "concat (panelChunks (panels s)) = panels s" by (rule concat_panelChunks)
  show "length (panelChunks (panels s)) = (length (panels s) + 5) div 6"
    by (rule length_panelChunks)
  show "(\<exists>pages. exportPages x s = Inr pages)
        \<longleftrightarrow> fontsRegister x
            \<and> draws x 0 (TitlePageDrawn (titlePage s))
            \<and> (\<forall>k < length (panelChunks (panels s)).
                  draws x (Suc k)
                    (PanelPageDrawn (drawPanelPage (panelChunks (panels s) ! k) k)))
            \<and> draws x (Suc (length (panelChunks (panels s))))
                  (EndPageDrawn (endPageConfig s))"
    by (rule exportPages_completes)
  show "map length (panelChunks (panels s)) = [6, 6, 1]" if "length (panels s) = 13"
    using that by (rule panelChunks_13)
next
  fix k assume k: "k < length (panelChunks (panels s))"
  show "panelChunks (panels s) ! k = take 6 (drop (6 * k) (panels s))"
    using k by (rule nth_panelChunks)
  show "length (panelChunks (panels s) ! k) =
           (if Suc k < length (panelChunks (panels s)) then 6 else length (panels s) - 6 * k)"
    using k by (rule length_nth_panelChunks)
  show "0 < length (panelChunks (panels s) ! k)"
    using chunk_length_bounds [OF k] by simp
  show le6: "length (panelChunks (panels s) ! k) \<le> 6"
    using chunk_length_bounds [OF k] by simp
  show "length (drawPanelPage (panelChunks (panels s) ! k) k) = length (panelChunks (panels s) ! k)"
    by (rule length_drawPanelPage)
  fix i assume i: "i < length (panelChunks (panels s) ! k)"
  show "i div 3 < 2" using i le6 by simp
  show "drawPanelPage (panelChunks (panels s) ! k) k ! i =
               \<lparr> cellPanel = panels s ! (6 * k + i), cellIndex = 6 * k + i,
                 cellX = PAGE_MARGIN + real (i mod 3) * (panelWidth + colGap),
                 cellY = PAGE_MARGIN + real (i div 3) * (panelHeight + rowGap),
                 cellWidth = panelWidth, cellHeight = panelHeight \<rparr>"
    using k i by (rule chunk_cell)
next
  fix pages assume completed: "exportPages x s = Inr pages"
  show "length pages = length (panelChunks (panels s)) + 2"
    using exportPages_pages [OF completed] by simp
  fix k assume "k < length (panelChunks (panels s))"
  then show "pages ! Suc k = PanelPageDrawn (drawPanelPage (panelChunks (panels s) ! k) k)"
    using exportPages_pages [OF completed] by simp
qed

text \<open>
  A storyboard of thirteen empty panels, and an environment in which the fonts register and
  every page draws.
\<close>

definition everyPageDraws :: export_env where
  "everyPageDraws = \<lparr> fontsRegister = True, draws = (\<lambda>n page. True) \<rparr>"


definition blankPanel :: "nat \<Rightarrow> Panel" where
  "blankPanel n = \<lparr> idP = replicate n (CHR ''p''), image = [], imageAssetKey = [], script = [] \<rparr>"

definition storyboard13 :: ProjectState where
  "storyboard13 =
     \<lparr> projectTitle = ''My Story Project'',
       titlePage = \<lparr> backgroundImage = ''/images/default_BG.png'',
                     backgroundImageAssetKey = ''default-background'',
                     logo = None, header = ''Client Name'', subHeader = ''Storyboard'' \<rparr>,
       panels = map blankPanel [0 ..< 13],
       endPage = \<lparr> backgroundImage = ''/images/default_BG.png'',
                   backgroundImageAssetKey = ''default-background'',
                   logo = None, textE = ''The End'', showText = True,
                   mirrorTitlePage = False \<rparr>,
       logoSizesLinked = True, isLoading = False \<rparr>"

theorem panel_pages_chunked_by_six_witness:
  "length (panels storyboard13) = 13
   \<and> map length (panelChunks (panels storyboard13)) = [6, 6, 1]
   \<and> (\<exists>pages. exportPages everyPageDraws storyboard13 = Inr pages \<and> length pages = 5)
   \<and> panelChunks (panels storyboard13) ! 2 = [blankPanel 12]
   \<and> cellIndex (drawPanelPage (panelChunks (panels storyboard13) ! 2) 2 ! 0) = 12"
proof -
  have len: "length (panels storyboard13) = 13"
    by (simp add: storyboard13_def)
  note t = panel_pages_chunked_by_six [of storyboard13 everyPageDraws]
  from t len have lens: "map length (panelChunks (panels storyboard13)) = [6, 6, 1]"
    by blast
  then have "length (map length (panelChunks (panels storyboard13))) = 3"
    by simp
  then have n: "length (panelChunks (panels storyboard13)) = 3"
    by simp
  then have k: "2 < length (panelChunks (panels storyboard13))"
    by simp
  have "fontsRegister everyPageDraws \<and> (\<forall>n page. draws everyPageDraws n page)"
    by (simp add: everyPageDraws_def)
  with t obtain pages where completed: "exportPages everyPageDraws storyboard13 = Inr pages"
    by blast
  with t n have "length pages = 5"
    by simp
  with completed have pages: "\<exists>pages. exportPages everyPageDraws storyboard13 = Inr pages
      \<and> length pages = 5"
    by blast
  from t k have c2: "panelChunks (panels storyboard13) ! 2 = take 6 (drop (6 * 2) (panels storyboard13))"
    by blast
  have "take 6 (drop (6 * 2) (panels storyboard13)) = [blankPanel 12]"
    by (simp add: storyboard13_def upt_rec [of 12] upt_rec [of 13] drop_map take_map)
  with c2 have chunk: "panelChunks (panels storyboard13) ! 2 = [blankPanel 12]"
    by simp
  then have i: "0 < length (panelChunks (panels storyboard13) ! 2)"
    by simp
  from t k i have "cellIndex (drawPanelPage (panelChunks (panels storyboard13) ! 2) 2 ! 0) = 6 * 2 + 0"
    by (metis panel_cell.select_convs(2))
  with len lens pages chunk show ?thesis by simp
qed

text \<open>Scenario C: mirroring is on, the title page has a logo, the end page has none.\<close>

definition scenarioC :: ProjectState where
  "scenarioC =
     \<lparr> projectTitle = ''My Story Project'',
       titlePage = \<lparr> backgroundImage = ''blob:title-bg'',
                     backgroundImageAssetKey = ''a1.png'',
                     logo = Some \<lparr> src = ''blob:title-logo'', assetKey = ''b2.png'',
                                   position = top_left, sizeL = SizeL \<rparr>,
                     header = ''Client Name'', subHeader = ''Storyboard'' \<rparr>,
       panels = [],
       endPage = \<lparr> backgroundImage = ''blob:end-bg'',
                   backgroundImageAssetKey = ''c3.jpg'',
                   logo = None, textE = ''The End'', showText = True,
                   mirrorTitlePage = True \<rparr>,
       logoSizesLinked = True, isLoading = False \<rparr>"

text \<open>
  Claim C6. With \<open>mirrorTitlePage\<close> set, the end page, which is the last page of every
  export that completes (as every export does in which the fonts register and no drawing
  throws; an export in which an earlier drawing throws never draws it), is drawn from a
  derived configuration: the background is the title page's, the logo is the title page's logo
  (its image source and asset key) placed at the position of the end page's own logo, or at
  \<open>bottom-center\<close> when the end page has no logo; when the title page has no logo the
  derived end page has none. The other fields of the end page are kept.
\<close>

theorem mirrored_end_page_config:
  assumes "mirrorTitlePage (endPage s)"
  shows "(\<forall>pages. exportPages x s = Inr pages \<longrightarrow>
            last pages = EndPageDrawn (endPageConfig s))
   \<and> (fontsRegister x \<and> (\<forall>n page. draws x n page)
        \<longrightarrow> (\<exists>pages. exportPages x s = Inr pages))
   \<and> backgroundImage (endPageConfig s) = backgroundImage (titlePage s)
   \<and> (logo (titlePage s) = None \<longrightarrow> logo (endPageConfig s) = None)
   \<and> (\<forall>titleLogo. logo (titlePage s) = Some titleLogo \<longrightarrow>
         (\<exists>derived. logo (endPageConfig s) = Some derived
            \<and> src derived = src titleLogo
            \<and> assetKey derived = assetKey titleLogo
            \<and> position derived =
                (case logo (endPage s) of
                   Some endLogo \<Rightarrow> position endLogo
                 | None \<Rightarrow> bottom_center)))
   \<and> backgroundImageAssetKey (endPageConfig s) = backgroundImageAssetKey (endPage s)
   \<and> textE (endPageConfig s) = textE (endPage s)
   \<and> showText (endPageConfig s) = showText (endPage s)
   \<and> mirrorTitlePage (endPageConfig s) = mirrorTitlePage (endPage s)"
proof -
  have "\<forall>pages. exportPages x s = Inr pages \<longrightarrow>
            last pages = EndPageDrawn (endPageConfig s)"
    using exportPages_pages by blast
  moreover have "fontsRegister x \<and> (\<forall>n page. draws x n page)
        \<longrightarrow> (\<exists>pages. exportPages x s = Inr pages)"
    using exportPages_completes [of x s] by blast
  moreover have "backgroundImage (endPageConfig s) = backgroundImage (titlePage s)"
    using assms by (simp add: endPageConfig_def)
  moreover have "logo (titlePage s) = None \<longrightarrow> logo (endPageConfig s) = None"
    using assms by (simp add: endPageConfig_def)
  moreover have "\<forall>titleLogo. logo (titlePage s) = Some titleLogo \<longrightarrow>
         (\<exists>derived. logo (endPageConfig s) = Some derived
            \<and> src derived = src titleLogo
            \<and> assetKey derived = assetKey titleLogo
            \<and> position derived =
                (case logo (endPage s) of
                   Some endLogo \<Rightarrow> position endLogo
                 | None \<Rightarrow> bottom_center))"
    using assms by (simp add: endPageConfig_def)
  moreover have "backgroundImageAssetKey (endPageConfig s) = backgroundImageAssetKey (endPage s)"
    and "textE (endPageConfig s) = textE (endPage s)"
    and "showText (endPageConfig s) = showText (endPage s)"
    and "mirrorTitlePage (endPageConfig s) = mirrorTitlePage (endPage s)"
    using assms by (simp_all add: endPageConfig_def)
  ultimately show ?thesis by blast
qed

theorem mirrored_end_page_config_witness:
  "mirrorTitlePage (endPage scenarioC)
   \<and> logo (endPage scenarioC) = None
   \<and> map_sum id last (exportPages everyPageDraws scenarioC)
       = Inr (EndPageDrawn (endPageConfig scenarioC))
   \<and> backgroundImage (endPageConfig scenarioC) = ''blob:title-bg''
   \<and> logo (endPageConfig scenarioC) =
       Some \<lparr> src = ''blob:title-logo'', assetKey = ''b2.png'',
              position = bottom_center, sizeL = SizeL \<rparr>"
proof -
  have m: "mirrorTitlePage (endPage scenarioC)"
    by (simp add: scenarioC_def)
  have cfg: "logo (endPageConfig scenarioC) =
       Some \<lparr> src = ''blob:title-logo'', assetKey = ''b2.png'',
              position = bottom_center, sizeL = SizeL \<rparr>"
    by (simp add: scenarioC_def endPageConfig_def)
  have "logo (endPage scenarioC) = None"
    by (simp add: scenarioC_def)
  moreover have "backgroundImage (titlePage scenarioC) = ''blob:title-bg''"
    by (simp add: scenarioC_def)
  moreover have completed: "exportPages everyPageDraws scenarioC
      = Inr [TitlePageDrawn (titlePage scenarioC), EndPageDrawn (endPageConfig scenarioC)]"
    by (simp add: exportPages_def everyPageDraws_def scenarioC_def panelChunks_def
        panelChunksLoop_done)
  moreover from mirrored_end_page_config [OF m, of everyPageDraws] completed
  have "last [TitlePageDrawn (titlePage scenarioC), EndPageDrawn (endPageConfig scenarioC)]
      = EndPageDrawn (endPageConfig scenarioC)
    \<and> backgroundImage (endPageConfig scenarioC) = backgroundImage (titlePage scenarioC)"
    by blast
  ultimately show ?thesis
    using m cfg by simp
qed

section \<open>Image fitting (src/lib/pdf-service.ts, src/lib/panel-template.ts)\<close>

text \<open>The rectangle handed to \<open>pdf.addImage\<close>: top-left corner and drawn size.\<close>

record image_fit =
  drawX :: real
  drawY :: real
  drawWidth :: real
  drawHeight :: real

text \<open>
  The background fit of \<open>drawTitlePage\<close> (lines 38-52) and, with the same text, of
  \<open>drawEndPage\<close> (lines 109-123), for an image of the given natural size: the page is the
  target box.
\<close>

definition coverFit :: "real \<Rightarrow> real \<Rightarrow> image_fit" where
  "coverFit naturalWidth naturalHeight =
     (let pageRatio = PDF_WIDTH / PDF_HEIGHT;
          imgRatio = naturalWidth / naturalHeight
      in if imgRatio > pageRatio
         then (let drawHeight = PDF_HEIGHT;
                   drawWidth = drawHeight * imgRatio
               in \<lparr> drawX = (PDF_WIDTH - drawWidth) / 2, drawY = 0,
                    drawWidth = drawWidth, drawHeight = drawHeight \<rparr>)
         else (let drawWidth = PDF_WIDTH;
                   drawHeight = drawWidth / imgRatio
               in \<lparr> drawX = 0, drawY = (PDF_HEIGHT - drawHeight) / 2,
                    drawWidth = drawWidth, drawHeight = drawHeight \<rparr>))"

text \<open>
  The geometry of \<open>drawPanelTemplate\<close> for a panel whose bounding box has its corner at
  \<open>(x, y)\<close> and the given width, and the fit of the panel image into the 16:9 container
  (lines 67-82).
\<close>

definition PADDING :: real where "PADDING = 10"
definition CONTENT_X :: "real \<Rightarrow> real" where "CONTENT_X x = x + PADDING"
definition CONTENT_Y :: "real \<Rightarrow> real" where "CONTENT_Y y = y + PADDING"
definition CONTENT_WIDTH :: "real \<Rightarrow> real" where "CONTENT_WIDTH width = width - 2 * PADDING"
definition IMG_CONTAINER_Y :: "real \<Rightarrow> real" where "IMG_CONTAINER_Y y = CONTENT_Y y + 25"
definition IMG_CONTAINER_WIDTH :: "real \<Rightarrow> real" where
  "IMG_CONTAINER_WIDTH width = CONTENT_WIDTH width"
definition IMG_CONTAINER_HEIGHT :: "real \<Rightarrow> real" where
  "IMG_CONTAINER_HEIGHT width = IMG_CONTAINER_WIDTH width * (9 / 16)"

definition containFit :: "real \<Rightarrow> real \<Rightarrow> real \<Rightarrow> real \<Rightarrow> real \<Rightarrow> image_fit" where
  "containFit x y width naturalWidth naturalHeight =
     (let imgRatio = naturalWidth / naturalHeight;
          containerRatio = IMG_CONTAINER_WIDTH width / IMG_CONTAINER_HEIGHT width
      in if imgRatio > containerRatio
         then (let drawWidth = IMG_CONTAINER_WIDTH width;
                   drawHeight = drawWidth / imgRatio
               in \<lparr> drawX = CONTENT_X x,
                    drawY = IMG_CONTAINER_Y y + (IMG_CONTAINER_HEIGHT width - drawHeight) / 2,
                    drawWidth = drawWidth, drawHeight = drawHeight \<rparr>)
         else (let drawHeight = IMG_CONTAINER_HEIGHT width;
                   drawWidth = drawHeight * imgRatio
               in \<lparr> drawX = CONTENT_X x + (IMG_CONTAINER_WIDTH width - drawWidth) / 2,
                    drawY = IMG_CONTAINER_Y y,
                    drawWidth = drawWidth, drawHeight = drawHeight \<rparr>))"

lemma coverFit_ratio_cases:
  "coverFit naturalWidth naturalHeight =
     (if naturalWidth / naturalHeight > 1024 / 768
      then \<lparr> drawX = (1024 - 768 * (naturalWidth / naturalHeight)) / 2, drawY = 0,
             drawWidth = 768 * (naturalWidth / naturalHeight), drawHeight = 768 \<rparr>
      else \<lparr> drawX = 0, drawY = (768 - 1024 / (naturalWidth / naturalHeight)) / 2,
             drawWidth = 1024, drawHeight = 1024 / (naturalWidth / naturalHeight) \<rparr>)"
  by (simp add: coverFit_def Let_def PDF_WIDTH_def PDF_HEIGHT_def)

lemma coverFit_fills:
  assumes "0 < naturalWidth" and "0 < naturalHeight"
  shows "PDF_WIDTH \<le> drawWidth (coverFit naturalWidth naturalHeight)"
    and "PDF_HEIGHT \<le> drawHeight (coverFit naturalWidth naturalHeight)"
    and "drawWidth (coverFit naturalWidth naturalHeight) = PDF_WIDTH
         \<or> drawHeight (coverFit naturalWidth naturalHeight) = PDF_HEIGHT"
    and "drawWidth (coverFit naturalWidth naturalHeight)
           / drawHeight (coverFit naturalWidth naturalHeight) = naturalWidth / naturalHeight"
    and "drawX (coverFit naturalWidth naturalHeight)
           + drawWidth (coverFit naturalWidth naturalHeight) / 2 = PDF_WIDTH / 2"
    and "drawY (coverFit naturalWidth naturalHeight)
           + drawHeight (coverFit naturalWidth naturalHeight) / 2 = PDF_HEIGHT / 2"
proof -
  define r where "r = naturalWidth / naturalHeight"
  have r: "0 < r" using assms by (simp add: r_def)
  have fit: "coverFit naturalWidth naturalHeight =
     (if r > 1024 / 768
      then \<lparr> drawX = (1024 - 768 * r) / 2, drawY = 0, drawWidth = 768 * r, drawHeight = 768 \<rparr>
      else \<lparr> drawX = 0, drawY = (768 - 1024 / r) / 2, drawWidth = 1024, drawHeight = 1024 / r \<rparr>)"
    unfolding r_def by (rule coverFit_ratio_cases)
  show "PDF_WIDTH \<le> drawWidth (coverFit naturalWidth naturalHeight)"
    using r by (simp add: fit PDF_WIDTH_def)
  show "PDF_HEIGHT \<le> drawHeight (coverFit naturalWidth naturalHeight)"
    using r by (simp add: fit PDF_HEIGHT_def field_simps)
  show "drawWidth (coverFit naturalWidth naturalHeight) = PDF_WIDTH
         \<or> drawHeight (coverFit naturalWidth naturalHeight) = PDF_HEIGHT"
    by (simp add: fit PDF_WIDTH_def PDF_HEIGHT_def)
  show "drawWidth (coverFit naturalWidth naturalHeight)
           / drawHeight (coverFit naturalWidth naturalHeight) = naturalWidth / naturalHeight"
    using r by (simp add: fit r_def [symmetric])
  show "drawX (coverFit naturalWidth naturalHeight)
           + drawWidth (coverFit naturalWidth naturalHeight) / 2 = PDF_WIDTH / 2"
    by (simp add: fit PDF_WIDTH_def diff_divide_distrib)
  show "drawY (coverFit naturalWidth naturalHeight)
           + drawHeight (coverFit naturalWidth naturalHeight) / 2 = PDF_HEIGHT / 2"
    by (simp add: fit PDF_HEIGHT_def diff_divide_distrib)
qed

lemma containFit_ratio_cases:
  assumes "0 < IMG_CONTAINER_WIDTH width"
  shows "containFit x y width naturalWidth naturalHeight =
     (if naturalWidth / naturalHeight > 16 / 9
      then \<lparr> drawX = CONTENT_X x,
             drawY = IMG_CONTAINER_Y y
                + (IMG_CONTAINER_HEIGHT width
                    - IMG_CONTAINER_WIDTH width / (naturalWidth / naturalHeight)) / 2,
             drawWidth = IMG_CONTAINER_WIDTH width,
             drawHeight = IMG_CONTAINER_WIDTH width / (naturalWidth / naturalHeight) \<rparr>
      else \<lparr> drawX = CONTENT_X x
                + (IMG_CONTAINER_WIDTH width
                    - IMG_CONTAINER_HEIGHT width * (naturalWidth / naturalHeight)) / 2,
             drawY = IMG_CONTAINER_Y y,
             drawWidth = IMG_CONTAINER_HEIGHT width * (naturalWidth / naturalHeight),
             drawHeight = IMG_CONTAINER_HEIGHT width \<rparr>)"
proof -
  have ratio: "IMG_CONTAINER_WIDTH width / IMG_CONTAINER_HEIGHT width = 16 / 9"
    using assms by (simp add: IMG_CONTAINER_HEIGHT_def)
  show ?thesis
    unfolding containFit_def Let_def ratio by (rule refl)
qed

lemma containFit_fits:
  assumes "0 < naturalWidth" and "0 < naturalHeight" and "0 < IMG_CONTAINER_WIDTH width"
  shows "drawWidth (containFit x y width naturalWidth naturalHeight) \<le> IMG_CONTAINER_WIDTH width"
    and "drawHeight (containFit x y width naturalWidth naturalHeight) \<le> IMG_CONTAINER_HEIGHT width"
    and "drawWidth (containFit x y width naturalWidth naturalHeight) = IMG_CONTAINER_WIDTH width
         \<or> drawHeight (containFit x y width naturalWidth naturalHeight) = IMG_CONTAINER_HEIGHT width"
    and "drawWidth (containFit x y width naturalWidth naturalHeight)
           / drawHeight (containFit x y width naturalWidth naturalHeight)
         = naturalWidth / naturalHeight"
    and "drawX (containFit x y width naturalWidth naturalHeight)
           + drawWidth (containFit x y width naturalWidth naturalHeight) / 2
         = CONTENT_X x + IMG_CONTAINER_WIDTH width / 2"
    and "drawY (containFit x y width naturalWidth naturalHeight)
           + drawHeight (containFit x y width naturalWidth naturalHeight) / 2
         = IMG_CONTAINER_Y y + IMG_CONTAINER_HEIGHT width / 2"
proof -
  define r where "r = naturalWidth / naturalHeight"
  define w where "w = IMG_CONTAINER_WIDTH width"
  have r: "0 < r" using assms by (simp add: r_def)
  have w: "0 < w" using assms by (simp add: w_def)
  have h: "IMG_CONTAINER_HEIGHT width = w * (9 / 16)"
    by (simp add: IMG_CONTAINER_HEIGHT_def w_def)
  have fit: "containFit x y width naturalWidth naturalHeight =
     (if r > 16 / 9
      then \<lparr> drawX = CONTENT_X x,
             drawY = IMG_CONTAINER_Y y + (w * (9 / 16) - w / r) / 2,
             drawWidth = w, drawHeight = w / r \<rparr>
      else \<lparr> drawX = CONTENT_X x + (w - w * (9 / 16) * r) / 2,
             drawY = IMG_CONTAINER_Y y,
             drawWidth = w * (9 / 16) * r, drawHeight = w * (9 / 16) \<rparr>)"
    using containFit_ratio_cases [OF assms(3), of x y naturalWidth naturalHeight]
    unfolding r_def [symmetric] h w_def [symmetric] .
  show "drawWidth (containFit x y width naturalWidth naturalHeight) \<le> IMG_CONTAINER_WIDTH width"
  proof (cases "r > 16 / 9")
    case True
    then show ?thesis by (simp add: fit w_def [symmetric])
  next
    case False
    then have "r * 9 \<le> 16" by simp
    then have "w * (r * 9) \<le> w * 16" using w by (simp only: mult_le_cancel_left_pos)
    then show ?thesis using False by (simp add: fit w_def [symmetric])
  qed
  show "drawHeight (containFit x y width naturalWidth naturalHeight) \<le> IMG_CONTAINER_HEIGHT width"
  proof (cases "r > 16 / 9")
    case True
    then have "16 < r * 9" by simp
    then have "w * 16 \<le> w * (r * 9)" using w by simp
    then have "w / r \<le> w * 9 / 16" using r by (simp add: field_simps)
    then show ?thesis using True by (simp add: fit h)
  next
    case False
    then show ?thesis by (simp add: fit h)
  qed
  show "drawWidth (containFit x y width naturalWidth naturalHeight) = IMG_CONTAINER_WIDTH width
         \<or> drawHeight (containFit x y width naturalWidth naturalHeight) = IMG_CONTAINER_HEIGHT width"
    by (simp add: fit h w_def [symmetric])
  show "drawWidth (containFit x y width naturalWidth naturalHeight)
           / drawHeight (containFit x y width naturalWidth naturalHeight)
         = naturalWidth / naturalHeight"
    using r w by (simp add: fit r_def [symmetric])
  show "drawX (containFit x y width naturalWidth naturalHeight)
           + drawWidth (containFit x y width naturalWidth naturalHeight) / 2
         = CONTENT_X x + IMG_CONTAINER_WIDTH width / 2"
    by (simp add: fit w_def [symmetric] diff_divide_distrib)
  show "drawY (containFit x y width naturalWidth naturalHeight)
           + drawHeight (containFit x y width naturalWidth naturalHeight) / 2
         = IMG_CONTAINER_Y y + IMG_CONTAINER_HEIGHT width / 2"
    by (simp add: fit h diff_divide_distrib)
qed

text \<open>
  Claim C9. For an image of positive natural size, the cover fit onto the page draws the image
  at least as wide and as high as the page (it fills the page and only overflows it), and the
  contain fit into the 16:9 image container of a panel (of positive width) draws it at most as
  wide and as high as the container; each keeps the aspect ratio of the image, matches the box
  on one axis and is centred on both.
\<close>

theorem fit_invariants:
  assumes "0 < naturalWidth" and "0 < naturalHeight" and "2 * PADDING < width"
  shows "PDF_WIDTH \<le> drawWidth (coverFit naturalWidth naturalHeight)
   \<and> PDF_HEIGHT \<le> drawHeight (coverFit naturalWidth naturalHeight)
   \<and> (drawWidth (coverFit naturalWidth naturalHeight) = PDF_WIDTH
        \<or> drawHeight (coverFit naturalWidth naturalHeight) = PDF_HEIGHT)
   \<and> drawWidth (coverFit naturalWidth naturalHeight)
        / drawHeight (coverFit naturalWidth naturalHeight) = naturalWidth / naturalHeight
   \<and> drawX (coverFit naturalWidth naturalHeight)
        + drawWidth (coverFit naturalWidth naturalHeight) / 2 = PDF_WIDTH / 2
   \<and> drawY (coverFit naturalWidth naturalHeight)
        + drawHeight (coverFit naturalWidth naturalHeight) / 2 = PDF_HEIGHT / 2
   \<and> drawWidth (containFit x y width naturalWidth naturalHeight) \<le> IMG_CONTAINER_WIDTH width
   \<and> drawHeight (containFit x y width naturalWidth naturalHeight) \<le> IMG_CONTAINER_HEIGHT width
   \<and> (drawWidth (containFit x y width naturalWidth naturalHeight) = IMG_CONTAINER_WIDTH width
        \<or> drawHeight (containFit x y width naturalWidth naturalHeight)
            = IMG_CONTAINER_HEIGHT width)
   \<and> drawWidth (containFit x y width naturalWidth naturalHeight)
        / drawHeight (containFit x y width naturalWidth naturalHeight)
       = naturalWidth / naturalHeight
   \<and> drawX (containFit x y width naturalWidth naturalHeight)
        + drawWidth (containFit x y width naturalWidth naturalHeight) / 2
       = CONTENT_X x + IMG_CONTAINER_WIDTH width / 2
   \<and> drawY (containFit x y width naturalWidth naturalHeight)
        + drawHeight (containFit x y width naturalWidth naturalHeight) / 2
       = IMG_CONTAINER_Y y + IMG_CONTAINER_HEIGHT width / 2"
proof -
  have box: "0 < IMG_CONTAINER_WIDTH width"
    using assms(3) by (simp add: IMG_CONTAINER_WIDTH_def CONTENT_WIDTH_def)
  note cover = coverFit_fills [OF assms(1) assms(2)]
  note contain = containFit_fits [OF assms(1) assms(2) box, of x y]
  show ?thesis
    by (intro conjI cover contain)
qed

theorem fit_invariants_witness:
  "(0::real) < 1000 \<and> 2 * PADDING < panelWidth
   \<and> coverFit 1000 1000
       = \<lparr> drawX = 0, drawY = - 128, drawWidth = 1024, drawHeight = 1024 \<rparr>
   \<and> PDF_HEIGHT \<le> drawHeight (coverFit 1000 1000)
   \<and> IMG_CONTAINER_WIDTH panelWidth = 844 / 3
   \<and> drawWidth (containFit 40 40 panelWidth 1000 1000) = 633 / 4
   \<and> drawWidth (containFit 40 40 panelWidth 1000 1000) \<le> IMG_CONTAINER_WIDTH panelWidth
   \<and> drawHeight (containFit 40 40 panelWidth 1000 1000) \<le> IMG_CONTAINER_HEIGHT panelWidth"
proof -
  have pos: "(0::real) < 1000" by simp
  have wide: "2 * PADDING < panelWidth"
    by (simp add: PADDING_def panelWidth_def contentWidth_def PDF_WIDTH_def PAGE_MARGIN_def
        cols_def colGap_def)
  have cover: "coverFit 1000 1000
       = \<lparr> drawX = 0, drawY = - 128, drawWidth = 1024, drawHeight = 1024 \<rparr>"
    by (simp add: coverFit_def Let_def PDF_WIDTH_def PDF_HEIGHT_def)
  have w: "IMG_CONTAINER_WIDTH panelWidth = 844 / 3"
    by (simp add: IMG_CONTAINER_WIDTH_def CONTENT_WIDTH_def PADDING_def panelWidth_def
        contentWidth_def PDF_WIDTH_def PAGE_MARGIN_def cols_def colGap_def)
  have contain: "drawWidth (containFit 40 40 panelWidth 1000 1000) = 633 / 4"
    by (simp add: containFit_def Let_def IMG_CONTAINER_HEIGHT_def w)
  show ?thesis
    using fit_invariants [OF pos pos wide, of 40 40] pos wide cover w contain by simp
qed

section \<open>Script text layout (src/lib/panel-template.ts)\<close>

subsection \<open>String operations of JavaScript\<close>

text \<open>
  \<open>String.prototype.split\<close> with a separator of one character, and
  \<open>Array.prototype.join\<close>. The empty string splits into one empty piece.
\<close>

fun split_on :: "char \<Rightarrow> string \<Rightarrow> string list" where
  "split_on sep [] = [[]]"
| "split_on sep (c # cs) =
     (if c = sep then [] # split_on sep cs
      else (case split_on sep cs of
              piece # pieces \<Rightarrow> (c # piece) # pieces
            | [] \<Rightarrow> [[c]]))"

fun join_with :: "string \<Rightarrow> string list \<Rightarrow> string" where
  "join_with sep [] = []"
| "join_with sep [piece] = piece"
| "join_with sep (piece # pieces) = piece @ sep @ join_with sep pieces"

definition newline :: char where "newline = CHR 0x0A"

text \<open>Line 131: \<open>panel.script.split('\n').slice(0, 6).join('\n')\<close>.\<close>

definition scriptText :: "string \<Rightarrow> string" where
  "scriptText panelScript = join_with [newline] (slice (split_on newline panelScript) 0 6)"

text \<open>
  Line 148: \<open>scriptText.split(/(\[[\s\S]*?\])/g).filter(Boolean)\<close>. A match starts at an
  opening bracket that has a closing bracket somewhere after it and ends, lazily, at the
  first such closing bracket; \<open>findClose\<close> looks for it and returns the text before it and
  the text after it. The split alternates the text between matches and the matches
  themselves (the capture group).
\<close>

fun findClose :: "string \<Rightarrow> (string \<times> string) option" where
  "findClose [] = None"
| "findClose (c # cs) =
     (if c = CHR '']'' then Some ([], cs)
      else (case findClose cs of
              None \<Rightarrow> None
            | Some (body, rest) \<Rightarrow> Some (c # body, rest)))"

lemma findClose_shorter:
  "findClose cs = Some (body, rest) \<Longrightarrow> length rest < length cs"
  by (induction cs arbitrary: body) (auto split: if_splits option.splits)

function splitBrackets :: "string \<Rightarrow> string \<Rightarrow> string list" where
  "splitBrackets plain [] = [plain]"
| "splitBrackets plain (c # cs) =
     (if c = CHR ''[''
      then (case findClose cs of
              Some (body, rest) \<Rightarrow>
                plain # (CHR ''['' # body @ '']'') # splitBrackets [] rest
            | None \<Rightarrow> splitBrackets (plain @ [c]) cs)
      else splitBrackets (plain @ [c]) cs)"
  by pat_completeness auto
termination
  by (relation "measure (\<lambda>(plain, cs). length cs)")
     (auto dest: findClose_shorter)

definition scriptParts :: "string \<Rightarrow> string list" where
  "scriptParts txt = filter (\<lambda>part. part \<noteq> []) (splitBrackets [] txt)"

definition isAction :: "string \<Rightarrow> bool" where
  "isAction part \<longleftrightarrow>
     (case part of c # _ \<Rightarrow> c = CHR ''['' | [] \<Rightarrow> False)
     \<and> part \<noteq> [] \<and> last part = CHR '']''"

text \<open>\<open>isAction ? part.slice(1, -1) : part\<close>.\<close>

definition textToProcess :: "string \<Rightarrow> string" where
  "textToProcess part = (if isAction part then butlast (tl part) else part)"

subsection \<open>Colours (src/config/theme.ts, \<open>hexToRgb\<close> of the PDF helpers)\<close>

definition theme_colors_accent :: string where "theme_colors_accent = ''#4F46E5''"
definition theme_colors_text :: string where "theme_colors_text = ''#1E293B''"
definition theme_fontSize_pdf_script :: real where "theme_fontSize_pdf_script = 13"

definition hexDigit :: "char \<Rightarrow> nat option" where
  "hexDigit c =
     (let n = (of_char c :: nat)
      in if 48 \<le> n \<and> n \<le> 57 then Some (n - 48)
         else if 97 \<le> n \<and> n \<le> 102 then Some (n - 87)
         else if 65 \<le> n \<and> n \<le> 70 then Some (n - 55)
         else None)"

text \<open>
  \<open>/^#?([a-f\d]{2})([a-f\d]{2})([a-f\d]{2})$/i.exec(hex)\<close> and the three \<open>parseInt(_, 16)\<close>:
  an optional \<open>#\<close>, then exactly six hexadecimal digits; \<open>null\<close> is \<open>None\<close>.
\<close>

definition hexToRgb :: "string \<Rightarrow> (nat \<times> nat \<times> nat) option" where
  "hexToRgb hex =
     (case map hexDigit (case hex of c # cs \<Rightarrow> if c = CHR ''#'' then cs else hex | [] \<Rightarrow> [])
      of [Some r1, Some r2, Some g1, Some g2, Some b1, Some b2] \<Rightarrow>
           Some (16 * r1 + r2, 16 * g1 + g2, 16 * b1 + b2)
       | _ \<Rightarrow> None)"

subsection \<open>The rich text loop of \<open>drawPanelTemplate\<close> (lines 127-194)\<close>

definition SCRIPT_AREA_Y :: "real \<Rightarrow> real \<Rightarrow> real" where
  "SCRIPT_AREA_Y y width = IMG_CONTAINER_Y y + IMG_CONTAINER_HEIGHT width + 12"
definition SCRIPT_BOX_Y :: "real \<Rightarrow> real \<Rightarrow> real" where
  "SCRIPT_BOX_Y y width = SCRIPT_AREA_Y y width + 4"
definition SCRIPT_BOX_HEIGHT :: "real \<Rightarrow> real \<Rightarrow> real \<Rightarrow> real" where
  "SCRIPT_BOX_HEIGHT y width height = y + height - PADDING - SCRIPT_BOX_Y y width"
definition SCRIPT_BOX_PADDING_X :: real where "SCRIPT_BOX_PADDING_X = 10"
definition SCRIPT_BOX_PADDING_Y :: real where "SCRIPT_BOX_PADDING_Y = 10"
definition SCRIPT_TEXT_MAX_WIDTH :: "real \<Rightarrow> real" where
  "SCRIPT_TEXT_MAX_WIDTH width = CONTENT_WIDTH width - (2 * SCRIPT_BOX_PADDING_X)"
definition LINE_HEIGHT :: real where "LINE_HEIGHT = 14"

text \<open>One call \<open>pdf.text(str, x, y)\<close>, with the font style and colour set when it is made.\<close>

record text_op =
  opText :: string
  opX :: real
  opY :: real
  opBold :: bool
  opColor :: "nat \<times> nat \<times> nat"

text \<open>The mutable variables of the loop and the text drawn so far.\<close>

record layout_state =
  cursorX :: real
  cursorY :: real
  drawn :: "text_op list"

text \<open>
  The three bounds the loop compares the cursor with:
  \<open>lineStart\<close> is \<open>CONTENT_X + SCRIPT_BOX_PADDING_X\<close>,
  \<open>lineEnd\<close> is \<open>CONTENT_X + SCRIPT_TEXT_MAX_WIDTH + SCRIPT_BOX_PADDING_X\<close>,
  \<open>yLimit\<close> is \<open>SCRIPT_BOX_Y + SCRIPT_BOX_HEIGHT - SCRIPT_BOX_PADDING_Y\<close>.
\<close>

record script_box =
  lineStart :: real
  lineEnd :: real
  yLimit :: real

definition scriptBox :: "real \<Rightarrow> real \<Rightarrow> real \<Rightarrow> real \<Rightarrow> script_box" where
  "scriptBox x y width height =
     \<lparr> lineStart = CONTENT_X x + SCRIPT_BOX_PADDING_X,
       lineEnd = CONTENT_X x + SCRIPT_TEXT_MAX_WIDTH width + SCRIPT_BOX_PADDING_X,
       yLimit = SCRIPT_BOX_Y y width + SCRIPT_BOX_HEIGHT y width height - SCRIPT_BOX_PADDING_Y \<rparr>"

definition checkYBounds :: "script_box \<Rightarrow> layout_state \<Rightarrow> bool" where
  "checkYBounds box st \<longleftrightarrow> cursorY st \<le> yLimit box"

definition newLine :: "script_box \<Rightarrow> layout_state \<Rightarrow> layout_state" where
  "newLine box st = st \<lparr> cursorY := cursorY st + LINE_HEIGHT, cursorX := lineStart box \<rparr>"

definition pdf_text ::
  "bool \<Rightarrow> nat \<times> nat \<times> nat \<Rightarrow> string \<Rightarrow> layout_state \<Rightarrow> layout_state" where
  "pdf_text bold color str st =
     st \<lparr> drawn := drawn st @ [\<lparr> opText = str, opX = cursorX st, opY = cursorY st,
                                 opBold = bold, opColor = color \<rparr>] \<rparr>"

text \<open>
  The loop over the words of a line (lines 168-187). \<open>getTextWidth\<close> is the text measure of
  the PDF library under the font set for the part (bold for an action, normal otherwise).
  A \<open>break\<close> returns the state reached.
\<close>

fun wordsLoop ::
  "(bool \<Rightarrow> string \<Rightarrow> real) \<Rightarrow> script_box \<Rightarrow> bool \<Rightarrow> nat \<times> nat \<times> nat
    \<Rightarrow> string list \<Rightarrow> layout_state \<Rightarrow> layout_state" where
  "wordsLoop getTextWidth box bold color [] st = st"
| "wordsLoop getTextWidth box bold color (word # ws) st =
     (if \<not> checkYBounds box st then st
      else
        let wordWithSpace = (if cursorX st = lineStart box then word else CHR '' '' # word);
            wordWidth = getTextWidth bold wordWithSpace
        in if cursorX st > lineStart box \<and> cursorX st + wordWidth > lineEnd box
           then (let st1 = newLine box st
                 in if \<not> checkYBounds box st1 then st1
                    else
                      let st2 = pdf_text bold color word st1;
                          st3 = st2 \<lparr> cursorX := cursorX st2 + getTextWidth bold word \<rparr>
                      in wordsLoop getTextWidth box bold color ws st3)
           else (let st1 = pdf_text bold color wordWithSpace st;
                     st2 = st1 \<lparr> cursorX := cursorX st1 + wordWidth \<rparr>
                 in wordsLoop getTextWidth box bold color ws st2))"

text \<open>The loop over the lines of a part (lines 162-193).\<close>

fun linesLoop ::
  "(bool \<Rightarrow> string \<Rightarrow> real) \<Rightarrow> script_box \<Rightarrow> bool \<Rightarrow> nat \<times> nat \<times> nat
    \<Rightarrow> string list \<Rightarrow> layout_state \<Rightarrow> layout_state" where
  "linesLoop getTextWidth box bold color [] st = st"
| "linesLoop getTextWidth box bold color (line # ls) st =
     (if \<not> checkYBounds box st then st
      else
        let st1 = wordsLoop getTextWidth box bold color (split_on (CHR '' '') line) st;
            st2 = (if ls \<noteq> [] then newLine box st1 else st1)
        in linesLoop getTextWidth box bold color ls st2)"

text \<open>The loop over the parts (lines 150-194).\<close>

fun partsLoop ::
  "(bool \<Rightarrow> string \<Rightarrow> real) \<Rightarrow> script_box \<Rightarrow> nat \<times> nat \<times> nat \<Rightarrow> nat \<times> nat \<times> nat
    \<Rightarrow> string list \<Rightarrow> layout_state \<Rightarrow> layout_state" where
  "partsLoop getTextWidth box accentRgb textRgb [] st = st"
| "partsLoop getTextWidth box accentRgb textRgb (part # ps) st =
     (if \<not> checkYBounds box st then st
      else
        let st1 = linesLoop getTextWidth box (isAction part)
                    (if isAction part then accentRgb else textRgb)
                    (split_on newline (textToProcess part)) st
        in partsLoop getTextWidth box accentRgb textRgb ps st1)"

text \<open>
  The script section of \<open>drawPanelTemplate\<close> from line 131 on: the text drawn for a panel
  script in a panel box at \<open>(x, y)\<close> of the given width and height. Nothing is drawn when a
  theme colour does not parse (line 139).
\<close>

definition drawScriptText ::
  "(bool \<Rightarrow> string \<Rightarrow> real) \<Rightarrow> real \<Rightarrow> real \<Rightarrow> real \<Rightarrow> real \<Rightarrow> string \<Rightarrow> text_op list" where
  "drawScriptText getTextWidth x y width height txt =
     (let st0 = \<lparr> cursorX = CONTENT_X x + SCRIPT_BOX_PADDING_X,
                  cursorY = SCRIPT_BOX_Y y width + SCRIPT_BOX_PADDING_Y
                             + theme_fontSize_pdf_script - 4,
                  drawn = [] \<rparr>
      in case (hexToRgb theme_colors_accent, hexToRgb theme_colors_text) of
           (Some accentRgb, Some textRgb) \<Rightarrow>
             drawn (partsLoop getTextWidth (scriptBox x y width height) accentRgb textRgb
                      (scriptParts txt) st0)
         | _ \<Rightarrow> [])"

definition drawPanelScript ::
  "(bool \<Rightarrow> string \<Rightarrow> real) \<Rightarrow> real \<Rightarrow> real \<Rightarrow> real \<Rightarrow> real \<Rightarrow> Panel \<Rightarrow> text_op list" where
  "drawPanelScript getTextWidth x y width height panel =
     drawScriptText getTextWidth x y width height (scriptText (script panel))"

subsection \<open>Splitting and joining\<close>

lemma split_on_not_Nil: "split_on sep s \<noteq> []"
  by (induction s) (auto split: list.splits)

lemma split_on_Cons_other:
  "c \<noteq> sep \<Longrightarrow> split_on sep (c # cs) = (c # hd (split_on sep cs)) # tl (split_on sep cs)"
  using split_on_not_Nil [of sep cs] by (cases "split_on sep cs") simp_all

lemma split_on_no_sep: "piece \<in> set (split_on sep s) \<Longrightarrow> sep \<notin> set piece"
proof (induction s arbitrary: piece)
  case Nil
  then show ?case by simp
next
  case (Cons c cs)
  show ?case
  proof (cases "c = sep")
    case True
    with Cons show ?thesis by auto
  next
    case False
    obtain p ps where ps: "split_on sep cs = p # ps"
      using split_on_not_Nil [of sep cs] by (cases "split_on sep cs") auto
    with Cons.prems False have "piece = c # p \<or> piece \<in> set ps" by simp
    then show ?thesis
      using Cons.IH [of p] Cons.IH [of piece] ps False by auto
  qed
qed

lemma split_on_chars: "piece \<in> set (split_on sep s) \<Longrightarrow> set piece \<subseteq> set s"
proof (induction s arbitrary: piece)
  case Nil
  then show ?case by simp
next
  case (Cons c cs)
  show ?case
  proof (cases "c = sep")
    case True
    with Cons show ?thesis by auto
  next
    case False
    obtain p ps where ps: "split_on sep cs = p # ps"
      using split_on_not_Nil [of sep cs] by (cases "split_on sep cs") auto
    with Cons.prems False have "piece = c # p \<or> piece \<in> set ps" by simp
    then show ?thesis
      using Cons.IH [of p] Cons.IH [of piece] ps False by auto
  qed
qed

lemma split_on_no_sep_text: "sep \<notin> set s \<Longrightarrow> split_on sep s = [s]"
  by (induction s) auto

lemma split_on_append_sep:
  "sep \<notin> set piece \<Longrightarrow> split_on sep (piece @ sep # s) = piece # split_on sep s"
  by (induction piece) auto

lemma split_on_join:
  "pieces \<noteq> [] \<Longrightarrow> \<forall>piece \<in> set pieces. sep \<notin> set piece \<Longrightarrow>
   split_on sep (join_with [sep] pieces) = pieces"
proof (induction pieces)
  case Nil
  then show ?case by simp
next
  case (Cons piece ps)
  show ?case
  proof (cases ps)
    case Nil
    with Cons.prems show ?thesis by (simp add: split_on_no_sep_text)
  next
    case (Cons p ps')
    with Cons.prems Cons.IH have "split_on sep (join_with [sep] ps) = ps" by simp
    with Cons Cons.prems show ?thesis by (simp add: split_on_append_sep)
  qed
qed

lemma join_split_on: "join_with [sep] (split_on sep s) = s"
proof (induction s)
  case Nil
  then show ?case by simp
next
  case (Cons c cs)
  obtain p ps where ps: "split_on sep cs = p # ps"
    using split_on_not_Nil [of sep cs] by (cases "split_on sep cs") auto
  show ?case
  proof (cases "c = sep")
    case True
    with Cons ps show ?thesis by simp
  next
    case False
    with Cons ps show ?thesis by (cases ps) simp_all
  qed
qed

lemma split_scriptText:
  "split_on newline (scriptText s) = take 6 (split_on newline s)"
proof -
  have "take 6 (split_on newline s) \<noteq> []"
    using split_on_not_Nil [of newline s] by simp
  moreover have "\<forall>piece \<in> set (take 6 (split_on newline s)). newline \<notin> set piece"
    using split_on_no_sep [of _ newline s] by (blast dest: in_set_takeD)
  ultimately show ?thesis
    by (simp add: scriptText_def slice_def split_on_join)
qed

lemma scriptText_short:
  "length (split_on newline s) \<le> 6 \<Longrightarrow> scriptText s = s"
  by (simp add: scriptText_def slice_def join_split_on)

lemma scriptText_cong:
  "take 6 (split_on newline s) = take 6 (split_on newline s') \<Longrightarrow> scriptText s = scriptText s'"
  by (simp add: scriptText_def slice_def)

lemma butlast_7: "length xs = 7 \<Longrightarrow> take 6 xs = butlast xs"
  by (simp add: butlast_conv_take)

text \<open>A panel whose script has seven lines.\<close>

definition sevenLinePanel :: Panel where
  "sevenLinePanel =
     \<lparr> idP = ''p7'', image = [], imageAssetKey = [],
       script = ''one'' @ [newline] @ ''two'' @ [newline] @ ''three'' @ [newline] @ ''four''
                 @ [newline] @ ''five'' @ [newline] @ ''six'' @ [newline] @ ''seven'' \<rparr>"

text \<open>
  Claim C8. The text that is laid out for a panel is the panel script cut to its first six
  newline-separated lines: the lines of \<open>scriptText\<close> are the first six lines of the script,
  the drawing depends on the script through these lines only, and a script of seven lines
  is laid out from its first six (all but the last).
\<close>

theorem script_truncated_to_six_lines:
  "split_on newline (scriptText (script panel)) = take 6 (split_on newline (script panel))
   \<and> length (split_on newline (scriptText (script panel))) \<le> 6
   \<and> drawPanelScript getTextWidth x y width height panel
       = drawScriptText getTextWidth x y width height
           (join_with [newline] (take 6 (split_on newline (script panel))))
   \<and> (\<forall>other. take 6 (split_on newline (script other))
                  = take 6 (split_on newline (script panel))
         \<longrightarrow> drawPanelScript getTextWidth x y width height other
             = drawPanelScript getTextWidth x y width height panel)
   \<and> (length (split_on newline (script panel)) = 7
        \<longrightarrow> split_on newline (scriptText (script panel))
            = butlast (split_on newline (script panel)))"
proof (intro conjI allI impI)
  show "split_on newline (scriptText (script panel)) = take 6 (split_on newline (script panel))"
    by (rule split_scriptText)
  show "length (split_on newline (scriptText (script panel))) \<le> 6"
    by (simp add: split_scriptText)
  show "drawPanelScript getTextWidth x y width height panel
       = drawScriptText getTextWidth x y width height
           (join_with [newline] (take 6 (split_on newline (script panel))))"
    by (simp add: drawPanelScript_def scriptText_def slice_def)
  show "drawPanelScript getTextWidth x y width height other
             = drawPanelScript getTextWidth x y width height panel"
    if "take 6 (split_on newline (script other)) = take 6 (split_on newline (script panel))"
    for other
    using scriptText_cong [OF that] by (simp add: drawPanelScript_def)
  show "split_on newline (scriptText (script panel)) = butlast (split_on newline (script panel))"
    if "length (split_on newline (script panel)) = 7"
    using that by (simp add: split_scriptText butlast_7)
qed

theorem script_truncated_to_six_lines_witness:
  "length (split_on newline (script sevenLinePanel)) = 7
   \<and> split_on newline (scriptText (script sevenLinePanel))
       = [''one'', ''two'', ''three'', ''four'', ''five'', ''six'']"
proof -
  have lines: "split_on newline (script sevenLinePanel)
       = [''one'', ''two'', ''three'', ''four'', ''five'', ''six'', ''seven'']"
    by (simp add: sevenLinePanel_def newline_def)
  then have seven: "length (split_on newline (script sevenLinePanel)) = 7"
    by simp
  from script_truncated_to_six_lines [of sevenLinePanel] seven
  have "split_on newline (scriptText (script sevenLinePanel))
       = butlast (split_on newline (script sevenLinePanel))"
    by blast
  with lines seven show ?thesis by simp
qed

text \<open>
  The lines of a drawing, for reading it: consecutive pieces of text drawn at the same height
  form one line.
\<close>

fun laidOutLines :: "text_op list \<Rightarrow> string list" where
  "laidOutLines [] = []"
| "laidOutLines [t] = [opText t]"
| "laidOutLines (t # u # ts) =
     (if opY t = opY u
      then (case laidOutLines (u # ts) of
              l # ls \<Rightarrow> (opText t @ l) # ls
            | [] \<Rightarrow> [opText t])
      else opText t # laidOutLines (u # ts))"

subsection \<open>The greedy step\<close>

lemma wordsLoop_fits:
  assumes "checkYBounds box st"
    and "cursorX st \<le> lineStart box
         \<or> cursorX st
             + getTextWidth bold (if cursorX st = lineStart box then word else CHR '' '' # word)
            \<le> lineEnd box"
  shows "wordsLoop getTextWidth box bold color (word # ws) st =
     wordsLoop getTextWidth box bold color ws
       (st \<lparr> drawn := drawn st
            @ [\<lparr> opText = (if cursorX st = lineStart box then word else CHR '' '' # word),
                  opX = cursorX st, opY = cursorY st, opBold = bold, opColor = color \<rparr>],
           cursorX := cursorX st
            + getTextWidth bold
                (if cursorX st = lineStart box then word else CHR '' '' # word) \<rparr>)"
  using assms by (auto simp add: Let_def pdf_text_def)

lemma wordsLoop_wraps:
  assumes "checkYBounds box st"
    and "lineStart box < cursorX st"
    and "lineEnd box < cursorX st + getTextWidth bold (CHR '' '' # word)"
  shows "wordsLoop getTextWidth box bold color (word # ws) st =
     (if cursorY st + LINE_HEIGHT \<le> yLimit box
      then wordsLoop getTextWidth box bold color ws
             (st \<lparr> cursorY := cursorY st + LINE_HEIGHT,
                  drawn := drawn st
                    @ [\<lparr> opText = word, opX = lineStart box, opY = cursorY st + LINE_HEIGHT,
                          opBold = bold, opColor = color \<rparr>],
                  cursorX := lineStart box + getTextWidth bold word \<rparr>)
      else st \<lparr> cursorY := cursorY st + LINE_HEIGHT, cursorX := lineStart box \<rparr>)"
  using assms by (simp add: Let_def pdf_text_def newLine_def checkYBounds_def)

lemma wordsLoop_halts:
  "\<not> checkYBounds box st \<Longrightarrow> wordsLoop getTextWidth box bold color ws st = st"
  by (cases ws) simp_all

subsection \<open>The run \<open>aaaa bbbb\<close>\<close>

lemma scriptParts_aaaa_bbbb: "scriptParts (scriptText ''aaaa bbbb'') = [''aaaa bbbb'']"
  by (simp add: scriptText_def slice_def newline_def scriptParts_def)

lemma layout_aaaa_bbbb:
  assumes y: "cursorY st + LINE_HEIGHT \<le> yLimit box"
    and x: "cursorX st = lineStart box"
    and a: "0 < getTextWidth False ''aaaa''"
    and ab: "lineEnd box - lineStart box
              < getTextWidth False ''aaaa'' + getTextWidth False '' bbbb''"
  shows "drawn (partsLoop getTextWidth box accentRgb textRgb [''aaaa bbbb''] st) =
     drawn st
       @ [\<lparr> opText = ''aaaa'', opX = lineStart box, opY = cursorY st,
              opBold = False, opColor = textRgb \<rparr>,
          \<lparr> opText = ''bbbb'', opX = lineStart box, opY = cursorY st + LINE_HEIGHT,
              opBold = False, opColor = textRgb \<rparr>]"
proof -
  have y0: "checkYBounds box st"
    using y by (simp add: checkYBounds_def LINE_HEIGHT_def)
  have plain: "\<not> isAction ''aaaa bbbb''"
    by (simp add: isAction_def)
  have lines: "split_on newline (textToProcess ''aaaa bbbb'') = [''aaaa bbbb'']"
    by (simp add: textToProcess_def plain newline_def)
  have ws: "split_on (CHR '' '') ''aaaa bbbb'' = [''aaaa'', ''bbbb'']"
    by simp
  define st1 where "st1 = st \<lparr> drawn := drawn st
            @ [\<lparr> opText = ''aaaa'', opX = lineStart box, opY = cursorY st,
                  opBold = False, opColor = textRgb \<rparr>],
           cursorX := lineStart box + getTextWidth False ''aaaa'' \<rparr>"
  have first: "wordsLoop getTextWidth box False textRgb [''aaaa'', ''bbbb''] st
      = wordsLoop getTextWidth box False textRgb [''bbbb''] st1"
    using wordsLoop_fits [where box = box and st = st and getTextWidth = getTextWidth
        and bold = False and word = "''aaaa''" and color = textRgb and ws = "[''bbbb'']"] y0 x
    by (simp add: st1_def)
  have y1: "checkYBounds box st1"
    using y0 by (simp add: st1_def checkYBounds_def)
  have x1: "lineStart box < cursorX st1"
    using a by (simp add: st1_def)
  have over: "lineEnd box < cursorX st1 + getTextWidth False (CHR '' '' # ''bbbb'')"
    using ab by (simp add: st1_def)
  have second: "wordsLoop getTextWidth box False textRgb [''bbbb''] st1
      = st1 \<lparr> cursorY := cursorY st1 + LINE_HEIGHT,
              drawn := drawn st1
                @ [\<lparr> opText = ''bbbb'', opX = lineStart box, opY = cursorY st1 + LINE_HEIGHT,
                      opBold = False, opColor = textRgb \<rparr>],
              cursorX := lineStart box + getTextWidth False ''bbbb'' \<rparr>"
    using wordsLoop_wraps [where box = box and st = st1 and getTextWidth = getTextWidth
        and bold = False and word = "''bbbb''" and color = textRgb and ws = "[]"]
      y1 x1 over y
    by (simp add: st1_def)
  have "partsLoop getTextWidth box accentRgb textRgb [''aaaa bbbb''] st
      = wordsLoop getTextWidth box False textRgb [''aaaa'', ''bbbb''] st"
    using y0 by (simp add: plain lines ws del: wordsLoop.simps)
  also note first
  also note second
  finally show ?thesis
    by (simp add: st1_def)
qed

subsection \<open>Brackets\<close>

lemma findClose_Some:
  "findClose cs = Some (body, rest) \<Longrightarrow> cs = body @ CHR '']'' # rest \<and> CHR '']'' \<notin> set body"
  by (induction cs arbitrary: body) (auto split: if_splits option.splits)

lemma findClose_None: "findClose cs = None \<Longrightarrow> CHR '']'' \<notin> set cs"
  by (induction cs) (auto split: if_splits option.splits)

lemma isAction_shape:
  assumes "isAction part"
  shows "part = CHR ''['' # textToProcess part @ '']''"
proof -
  from assms obtain cs where part: "part = CHR ''['' # cs" and l: "last part = CHR '']''"
    by (cases part) (auto simp add: isAction_def)
  then have "cs \<noteq> []" by auto
  with part l have "cs = butlast cs @ '']''"
    by (metis append_butlast_last_id last_ConsR)
  with part assms show ?thesis
    by (simp add: textToProcess_def)
qed

lemma plain_not_action:
  assumes "plain \<noteq> [] \<Longrightarrow> hd plain = CHR ''['' \<Longrightarrow> CHR '']'' \<notin> set (tl plain)"
  shows "\<not> isAction plain"
proof
  assume act: "isAction plain"
  then obtain cs where part: "plain = CHR ''['' # cs" and l: "last plain = CHR '']''"
    by (cases plain) (auto simp add: isAction_def)
  then have "cs \<noteq> []" by auto
  with part l have "CHR '']'' \<in> set cs"
    by (metis last_ConsR last_in_set)
  with assms part show False by simp
qed

lemma action_body_closed:
  "CHR '']'' \<notin> set body \<Longrightarrow>
   isAction (CHR ''['' # body @ '']'') \<and> textToProcess (CHR ''['' # body @ '']'') = body"
  by (simp add: isAction_def textToProcess_def butlast_append)

lemma open_plain_snoc:
  assumes "plain \<noteq> [] \<and> hd plain = CHR ''['' \<longrightarrow> CHR '']'' \<notin> set (tl plain) \<union> set (c # cs)"
    and "c = CHR ''['' \<longrightarrow> CHR '']'' \<notin> set cs"
  shows "plain @ [c] \<noteq> [] \<and> hd (plain @ [c]) = CHR ''[''
          \<longrightarrow> CHR '']'' \<notin> set (tl (plain @ [c])) \<union> set cs"
proof (cases plain)
  case Nil
  with assms(2) show ?thesis by simp
next
  case (Cons p ps)
  with assms(1) show ?thesis by auto
qed

lemma open_plain_not_action:
  assumes "plain \<noteq> [] \<and> hd plain = CHR ''['' \<longrightarrow> CHR '']'' \<notin> set (tl plain) \<union> set cs"
  shows "\<not> isAction plain"
proof (rule plain_not_action)
  assume "plain \<noteq> []" and "hd plain = CHR ''[''"
  with assms show "CHR '']'' \<notin> set (tl plain)" by simp
qed

lemma splitBrackets_actions:
  assumes "plain \<noteq> [] \<and> hd plain = CHR ''['' \<longrightarrow> CHR '']'' \<notin> set (tl plain) \<union> set cs"
    and "part \<in> set (splitBrackets plain cs)" and "isAction part"
  shows "CHR '']'' \<notin> set (textToProcess part)"
  using assms
proof (induction plain cs rule: splitBrackets.induct)
  case (1 plain)
  from "1.prems"(1) have "\<not> isAction plain" by (rule open_plain_not_action)
  moreover from "1.prems"(2) have "part = plain" by simp
  ultimately show ?case using "1.prems"(3) by simp
next
  case (2 plain c cs)
  show ?case
  proof (cases "c = CHR ''[''")
    case False
    then have "c = CHR ''['' \<longrightarrow> CHR '']'' \<notin> set cs" by simp
    with "2.prems"(1)
    have inv: "plain @ [c] \<noteq> [] \<and> hd (plain @ [c]) = CHR ''[''
          \<longrightarrow> CHR '']'' \<notin> set (tl (plain @ [c])) \<union> set cs"
      by (rule open_plain_snoc)
    from "2.prems"(2) False have mem: "part \<in> set (splitBrackets (plain @ [c]) cs)"
      by (simp only: splitBrackets.simps if_False simp_thms)
    from False inv mem "2.prems"(3) show ?thesis by (rule "2.IH"(3))
  next
    case True
    show ?thesis
    proof (cases "findClose cs")
      case None
      then have "CHR '']'' \<notin> set cs" by (rule findClose_None)
      then have "c = CHR ''['' \<longrightarrow> CHR '']'' \<notin> set cs" by simp
      with "2.prems"(1)
      have inv: "plain @ [c] \<noteq> [] \<and> hd (plain @ [c]) = CHR ''[''
          \<longrightarrow> CHR '']'' \<notin> set (tl (plain @ [c])) \<union> set cs"
        by (rule open_plain_snoc)
      from "2.prems"(2) True None have mem: "part \<in> set (splitBrackets (plain @ [c]) cs)"
        by (simp only: splitBrackets.simps if_True option.case simp_thms)
      from True None inv mem "2.prems"(3) show ?thesis by (rule "2.IH"(1))
    next
      case (Some found)
      obtain body rest where found: "found = (body, rest)" by (cases found)
      with Some have fc: "findClose cs = Some (body, rest)" by simp
      then have body: "CHR '']'' \<notin> set body" by (simp add: findClose_Some)
      have "splitBrackets plain (c # cs)
              = plain # (CHR ''['' # body @ '']'') # splitBrackets [] rest"
        using True fc by (simp only: splitBrackets.simps if_True option.case prod.case simp_thms)
      with "2.prems"(2)
      have "part = plain \<or> part = CHR ''['' # body @ '']'' \<or> part \<in> set (splitBrackets [] rest)"
        by (simp only: set_simps insert_iff)
      then show ?thesis
      proof (elim disjE)
        assume "part = plain"
        moreover have "\<not> isAction plain"
          using "2.prems"(1) by (rule open_plain_not_action)
        ultimately show ?thesis using "2.prems"(3) by simp
      next
        assume "part = CHR ''['' # body @ '']''"
        with body action_body_closed [OF body] show ?thesis by simp
      next
        assume mem: "part \<in> set (splitBrackets [] rest)"
        have inv: "[] \<noteq> [] \<and> hd [] = CHR ''['' \<longrightarrow> CHR '']'' \<notin> set (tl []) \<union> set rest"
          by simp
        have "(body, rest) = (body, rest)" by (rule refl)
        from True fc this inv mem "2.prems"(3) show ?thesis by (rule "2.IH"(2))
      qed
    qed
  qed
qed

lemma scriptParts_actions:
  "part \<in> set (scriptParts s) \<Longrightarrow> isAction part \<Longrightarrow> CHR '']'' \<notin> set (textToProcess part)"
  using splitBrackets_actions [of "[]" s part] by (simp add: scriptParts_def)

subsection \<open>What the loops draw\<close>

lemma wordsLoop_drawn:
  "t \<in> set (drawn (wordsLoop getTextWidth box bold color ws st)) \<Longrightarrow>
   t \<in> set (drawn st)
   \<or> (opBold t = bold \<and> (\<exists>w \<in> set ws. opText t = w \<or> opText t = CHR '' '' # w))"
proof (induction ws arbitrary: st)
  case Nil
  then show ?case by simp
next
  case (Cons word ws)
  let ?over = "lineStart box < cursorX st
                \<and> lineEnd box < cursorX st + getTextWidth bold (CHR '' '' # word)"
  consider (halt) "\<not> checkYBounds box st"
    | (start) "checkYBounds box st" "cursorX st = lineStart box"
    | (wrap_halt) "checkYBounds box st" "cursorX st \<noteq> lineStart box" "?over"
        "\<not> checkYBounds box (newLine box st)"
    | (wrap) "checkYBounds box st" "cursorX st \<noteq> lineStart box" "?over"
        "checkYBounds box (newLine box st)"
    | (fit) "checkYBounds box st" "cursorX st \<noteq> lineStart box" "\<not> ?over"
    by blast
  then show ?case
  proof cases
    case halt
    with Cons.prems show ?thesis by simp
  next
    case start
    let ?st2 = "(pdf_text bold color word st)
                  \<lparr> cursorX := cursorX (pdf_text bold color word st)
                                 + getTextWidth bold word \<rparr>"
    from start have "wordsLoop getTextWidth box bold color (word # ws) st
        = wordsLoop getTextWidth box bold color ws ?st2"
      by (simp add: Let_def)
    with Cons.prems have "t \<in> set (drawn (wordsLoop getTextWidth box bold color ws ?st2))"
      by simp
    from Cons.IH [OF this] show ?thesis
      by (auto simp add: pdf_text_def)
  next
    case wrap_halt
    then have "wordsLoop getTextWidth box bold color (word # ws) st = newLine box st"
      by (simp add: Let_def)
    with Cons.prems show ?thesis by (simp add: newLine_def)
  next
    case wrap
    let ?st3 = "(pdf_text bold color word (newLine box st))
                  \<lparr> cursorX := cursorX (pdf_text bold color word (newLine box st))
                                 + getTextWidth bold word \<rparr>"
    from wrap have "wordsLoop getTextWidth box bold color (word # ws) st
        = wordsLoop getTextWidth box bold color ws ?st3"
      by (simp add: Let_def)
    with Cons.prems have "t \<in> set (drawn (wordsLoop getTextWidth box bold color ws ?st3))"
      by simp
    from Cons.IH [OF this] show ?thesis
      by (auto simp add: pdf_text_def newLine_def)
  next
    case fit
    let ?st2 = "(pdf_text bold color (CHR '' '' # word) st)
                  \<lparr> cursorX := cursorX (pdf_text bold color (CHR '' '' # word) st)
                                 + getTextWidth bold (CHR '' '' # word) \<rparr>"
    from fit have "wordsLoop getTextWidth box bold color (word # ws) st
        = wordsLoop getTextWidth box bold color ws ?st2"
      by (auto simp add: Let_def)
    with Cons.prems have "t \<in> set (drawn (wordsLoop getTextWidth box bold color ws ?st2))"
      by simp
    from Cons.IH [OF this] show ?thesis
      by (auto simp add: pdf_text_def)
  qed
qed

lemma wordsLoop_drawn_chars:
  assumes "t \<in> set (drawn (wordsLoop getTextWidth box bold color (split_on (CHR '' '') line) st))"
  shows "t \<in> set (drawn st) \<or> (opBold t = bold \<and> set (opText t) \<subseteq> insert (CHR '' '') (set line))"
proof -
  from wordsLoop_drawn [OF assms]
  consider "t \<in> set (drawn st)"
    | w where "opBold t = bold" "w \<in> set (split_on (CHR '' '') line)"
        "opText t = w \<or> opText t = CHR '' '' # w"
    by blast
  then show ?thesis
  proof cases
    case 1
    then show ?thesis by simp
  next
    case 2
    from split_on_chars [OF 2(2)] 2(1,3) show ?thesis by auto
  qed
qed

lemma linesLoop_drawn:
  "t \<in> set (drawn (linesLoop getTextWidth box bold color ls st)) \<Longrightarrow>
   t \<in> set (drawn st)
   \<or> (opBold t = bold \<and> (\<exists>line \<in> set ls. set (opText t) \<subseteq> insert (CHR '' '') (set line)))"
proof (induction ls arbitrary: st)
  case Nil
  then show ?case by simp
next
  case (Cons line ls)
  show ?case
  proof (cases "checkYBounds box st")
    case False
    with Cons.prems show ?thesis by simp
  next
    case True
    let ?st1 = "wordsLoop getTextWidth box bold color (split_on (CHR '' '') line) st"
    let ?st2 = "if ls \<noteq> [] then newLine box ?st1 else ?st1"
    from True Cons.prems have "t \<in> set (drawn (linesLoop getTextWidth box bold color ls ?st2))"
      by (simp add: Let_def)
    from Cons.IH [OF this] have "t \<in> set (drawn ?st1)
      \<or> (opBold t = bold \<and> (\<exists>line \<in> set ls. set (opText t) \<subseteq> insert (CHR '' '') (set line)))"
      by (simp add: newLine_def split: if_splits)
    then show ?thesis
      using wordsLoop_drawn_chars [of t getTextWidth box bold color line st] by auto
  qed
qed

lemma partsLoop_drawn:
  "t \<in> set (drawn (partsLoop getTextWidth box accentRgb textRgb ps st)) \<Longrightarrow>
   t \<in> set (drawn st)
   \<or> (\<exists>part \<in> set ps. opBold t = isAction part
        \<and> set (opText t) \<subseteq> insert (CHR '' '') (set (textToProcess part)))"
proof (induction ps arbitrary: st)
  case Nil
  then show ?case by simp
next
  case (Cons part ps)
  show ?case
  proof (cases "checkYBounds box st")
    case False
    with Cons.prems show ?thesis by simp
  next
    case True
    let ?st1 = "linesLoop getTextWidth box (isAction part)
                    (if isAction part then accentRgb else textRgb)
                    (split_on newline (textToProcess part)) st"
    from True Cons.prems
    have "t \<in> set (drawn (partsLoop getTextWidth box accentRgb textRgb ps ?st1))"
      by (simp add: Let_def)
    from Cons.IH [OF this] consider "t \<in> set (drawn ?st1)"
      | "\<exists>part \<in> set ps. opBold t = isAction part
          \<and> set (opText t) \<subseteq> insert (CHR '' '') (set (textToProcess part))"
      by blast
    then show ?thesis
    proof cases
      case 1
      from linesLoop_drawn [OF 1] consider "t \<in> set (drawn st)"
        | line where "opBold t = isAction part" "line \<in> set (split_on newline (textToProcess part))"
            "set (opText t) \<subseteq> insert (CHR '' '') (set line)"
        by blast
      then show ?thesis
      proof cases
        case 1
        then show ?thesis by simp
      next
        case 2
        from split_on_chars [OF 2(2)] 2(1,3) show ?thesis by auto
      qed
    next
      case 2
      then show ?thesis by auto
    qed
  qed
qed

lemma drawScriptText_drawn:
  assumes "t \<in> set (drawScriptText getTextWidth x y width height s)"
  shows "\<exists>part \<in> set (scriptParts s). opBold t = isAction part
        \<and> set (opText t) \<subseteq> insert (CHR '' '') (set (textToProcess part))"
proof (cases "hexToRgb theme_colors_accent")
  case None
  with assms show ?thesis by (simp add: drawScriptText_def)
next
  case accent: (Some accentRgb)
  show ?thesis
  proof (cases "hexToRgb theme_colors_text")
    case None
    with assms accent show ?thesis by (simp add: drawScriptText_def)
  next
    case (Some textRgb)
    with assms accent
    have "t \<in> set (drawn (partsLoop getTextWidth (scriptBox x y width height) accentRgb textRgb
             (scriptParts s)
             \<lparr> cursorX = CONTENT_X x + SCRIPT_BOX_PADDING_X,
               cursorY = SCRIPT_BOX_Y y width + SCRIPT_BOX_PADDING_Y
                          + theme_fontSize_pdf_script - 4,
               drawn = [] \<rparr>))"
      by (simp add: drawScriptText_def)
    from partsLoop_drawn [OF this] show ?thesis by simp
  qed
qed

lemma emphasis_without_closing_bracket:
  assumes "t \<in> set (drawScriptText getTextWidth x y width height s)" and "opBold t"
  shows "CHR '']'' \<notin> set (opText t)"
proof -
  from drawScriptText_drawn [OF assms(1)] obtain part
    where part: "part \<in> set (scriptParts s)" and b: "opBold t = isAction part"
      and chars: "set (opText t) \<subseteq> insert (CHR '' '') (set (textToProcess part))"
    by blast
  from b assms(2) have "isAction part" by simp
  with part have "CHR '']'' \<notin> set (textToProcess part)" by (rule scriptParts_actions)
  with chars show ?thesis by auto
qed

lemma scriptBox_width:
  "lineEnd (scriptBox x y width height) - lineStart (scriptBox x y width height)
     = SCRIPT_TEXT_MAX_WIDTH width"
  by (simp add: scriptBox_def)

lemma drawPanelScript_aaaa_bbbb:
  assumes s: "script panel = ''aaaa bbbb''"
    and wide: "SCRIPT_TEXT_MAX_WIDTH width < getTextWidth False ''aaaa bbbb''"
    and additive: "getTextWidth False ''aaaa bbbb''
                    = getTextWidth False ''aaaa'' + getTextWidth False '' bbbb''"
    and positive: "0 < getTextWidth False ''aaaa''"
    and tall: "theme_fontSize_pdf_script - 4 + LINE_HEIGHT
                \<le> SCRIPT_BOX_HEIGHT y width height - 2 * SCRIPT_BOX_PADDING_Y"
  shows "drawPanelScript getTextWidth x y width height panel =
     [\<lparr> opText = ''aaaa'', opX = CONTENT_X x + SCRIPT_BOX_PADDING_X,
         opY = SCRIPT_BOX_Y y width + SCRIPT_BOX_PADDING_Y + theme_fontSize_pdf_script - 4,
         opBold = False, opColor = (30, 41, 59) \<rparr>,
      \<lparr> opText = ''bbbb'', opX = CONTENT_X x + SCRIPT_BOX_PADDING_X,
         opY = SCRIPT_BOX_Y y width + SCRIPT_BOX_PADDING_Y + theme_fontSize_pdf_script - 4
                + LINE_HEIGHT,
         opBold = False, opColor = (30, 41, 59) \<rparr>]"
proof -
  define box where "box = scriptBox x y width height"
  define st0 where "st0 = \<lparr> cursorX = CONTENT_X x + SCRIPT_BOX_PADDING_X,
                  cursorY = SCRIPT_BOX_Y y width + SCRIPT_BOX_PADDING_Y
                             + theme_fontSize_pdf_script - 4,
                  drawn = [] \<rparr>"
  have accent: "hexToRgb theme_colors_accent = Some (79, 70, 229)"
    by (simp add: hexToRgb_def theme_colors_accent_def hexDigit_def)
  have plainRgb: "hexToRgb theme_colors_text = Some (30, 41, 59)"
    by (simp add: hexToRgb_def theme_colors_text_def hexDigit_def)
  have y: "cursorY st0 + LINE_HEIGHT \<le> yLimit box"
    using tall by (simp add: st0_def box_def scriptBox_def)
  have x: "cursorX st0 = lineStart box"
    by (simp add: st0_def box_def scriptBox_def)
  have ab: "lineEnd box - lineStart box
              < getTextWidth False ''aaaa'' + getTextWidth False '' bbbb''"
    using wide additive by (simp add: box_def scriptBox_width)
  have "drawPanelScript getTextWidth x y width height panel
      = drawn (partsLoop getTextWidth box (79, 70, 229) (30, 41, 59) [''aaaa bbbb''] st0)"
    by (simp add: drawPanelScript_def drawScriptText_def s scriptParts_aaaa_bbbb accent plainRgb
        box_def st0_def del: partsLoop.simps)
  also have "\<dots> = drawn st0
       @ [\<lparr> opText = ''aaaa'', opX = lineStart box, opY = cursorY st0,
              opBold = False, opColor = (30, 41, 59) \<rparr>,
          \<lparr> opText = ''bbbb'', opX = lineStart box, opY = cursorY st0 + LINE_HEIGHT,
              opBold = False, opColor = (30, 41, 59) \<rparr>]"
    using y x positive ab by (rule layout_aaaa_bbbb)
  finally show ?thesis
    by (simp add: st0_def box_def scriptBox_def)
qed

text \<open>A text measure of 30 units for each character, and a panel with an emphasis run.\<close>

definition fixedWidth :: "bool \<Rightarrow> string \<Rightarrow> real" where
  "fixedWidth bold str = 30 * real (length str)"

definition wavePanel :: Panel where
  "wavePanel = \<lparr> idP = ''p'', image = [], imageAssetKey = [], script = ''[wave] hi'' \<rparr>"


lemma wave_drawn: "drawPanelScript fixedWidth 40 40 panelWidth panelHeight wavePanel = 
  [\<lparr>opText = ''wave'', opX = 60, opY = 1073 / 4, opBold = True, opColor = (79, 70, 229)\<rparr>,
   \<lparr>opText = '' '', opX = 180, opY = 1073 / 4, opBold = False, opColor = (30, 41, 59)\<rparr>,
   \<lparr>opText = '' hi'', opX = 210, opY = 1073 / 4, opBold = False, opColor = (30, 41, 59)\<rparr>]"
  by (simp add: drawPanelScript_def drawScriptText_def wavePanel_def scriptText_def slice_def
      newline_def scriptParts_def hexToRgb_def theme_colors_accent_def hexDigit_def
      theme_colors_text_def isAction_def textToProcess_def Let_def checkYBounds_def
      scriptBox_def pdf_text_def fixedWidth_def CONTENT_X_def PADDING_def
      SCRIPT_BOX_PADDING_X_def SCRIPT_BOX_PADDING_Y_def SCRIPT_BOX_Y_def SCRIPT_AREA_Y_def
      IMG_CONTAINER_Y_def CONTENT_Y_def IMG_CONTAINER_HEIGHT_def IMG_CONTAINER_WIDTH_def
      CONTENT_WIDTH_def panelWidth_def panelHeight_def contentWidth_def contentHeight_def
      PDF_WIDTH_def PDF_HEIGHT_def PAGE_MARGIN_def cols_def rows_def colGap_def rowGap_def
      SCRIPT_BOX_HEIGHT_def SCRIPT_TEXT_MAX_WIDTH_def theme_fontSize_pdf_script_def
      LINE_HEIGHT_def)

text \<open>The panel of the word-wrap example.\<close>

definition abPanel :: Panel where
  "abPanel = \<lparr> idP = ''p'', image = [], imageAssetKey = [], script = ''aaaa bbbb'' \<rparr>"

text \<open>
  Claim C7. The word loop packs greedily. With the cursor inside the box, a word is drawn at
  the cursor (after a space, unless the cursor is at the start of the line) when the line is
  empty or the cursor plus the measured width of the word with its space stays within the
  right edge; otherwise the cursor moves to the start of the next line first and the word is
  drawn there without the space (unless that line is below the box, where drawing stops).
  For the plain run \<open>aaaa bbbb\<close> in a box narrower than the run, the drawing is the two lines
  \<open>aaaa\<close> and \<open>bbbb\<close>; this is under a text measure that gives the run the sum of the widths of
  its two pieces and a positive width to \<open>aaaa\<close>, in a box high enough for two lines (the
  claim's \<open>measure(aaaa) \<le> W\<close> is not needed). The brackets that delimit an emphasis run are
  removed before layout: an emphasis part is its processed text between \<open>[\<close> and \<open>]\<close>, every
  piece of text drawn comes from the processed text of a part and carries that part's style,
  and no closing bracket is ever drawn in the emphasis style.
\<close>

theorem greedy_word_wrap:
  "(checkYBounds box st
     \<and> (cursorX st \<le> lineStart box
         \<or> cursorX st
             + getTextWidth bold (if cursorX st = lineStart box then word else CHR '' '' # word)
            \<le> lineEnd box)
     \<longrightarrow> wordsLoop getTextWidth box bold color (word # ws) st =
          wordsLoop getTextWidth box bold color ws
            (st \<lparr> drawn := drawn st
                 @ [\<lparr> opText = (if cursorX st = lineStart box then word else CHR '' '' # word),
                       opX = cursorX st, opY = cursorY st, opBold = bold, opColor = color \<rparr>],
                cursorX := cursorX st
                 + getTextWidth bold
                     (if cursorX st = lineStart box then word else CHR '' '' # word) \<rparr>))
   \<and> (checkYBounds box st \<and> lineStart box < cursorX st
       \<and> lineEnd box < cursorX st + getTextWidth bold (CHR '' '' # word)
     \<longrightarrow> wordsLoop getTextWidth box bold color (word # ws) st =
          (if cursorY st + LINE_HEIGHT \<le> yLimit box
           then wordsLoop getTextWidth box bold color ws
                  (st \<lparr> cursorY := cursorY st + LINE_HEIGHT,
                       drawn := drawn st
                         @ [\<lparr> opText = word, opX = lineStart box,
                               opY = cursorY st + LINE_HEIGHT,
                               opBold = bold, opColor = color \<rparr>],
                       cursorX := lineStart box + getTextWidth bold word \<rparr>)
           else st \<lparr> cursorY := cursorY st + LINE_HEIGHT, cursorX := lineStart box \<rparr>))
   \<and> (script panel = ''aaaa bbbb''
       \<and> SCRIPT_TEXT_MAX_WIDTH width < getTextWidth False ''aaaa bbbb''
       \<and> getTextWidth False ''aaaa bbbb''
            = getTextWidth False ''aaaa'' + getTextWidth False '' bbbb''
       \<and> 0 < getTextWidth False ''aaaa''
       \<and> theme_fontSize_pdf_script - 4 + LINE_HEIGHT
            \<le> SCRIPT_BOX_HEIGHT y width height - 2 * SCRIPT_BOX_PADDING_Y
     \<longrightarrow> laidOutLines (drawPanelScript getTextWidth x y width height panel)
            = [''aaaa'', ''bbbb'']
         \<and> map opX (drawPanelScript getTextWidth x y width height panel)
            = [CONTENT_X x + SCRIPT_BOX_PADDING_X, CONTENT_X x + SCRIPT_BOX_PADDING_X]
         \<and> map opY (drawPanelScript getTextWidth x y width height panel)
            = [SCRIPT_BOX_Y y width + SCRIPT_BOX_PADDING_Y + theme_fontSize_pdf_script - 4,
               SCRIPT_BOX_Y y width + SCRIPT_BOX_PADDING_Y + theme_fontSize_pdf_script - 4
                 + LINE_HEIGHT])
   \<and> (\<forall>part \<in> set (scriptParts (scriptText (script panel))).
         isAction part \<longrightarrow>
           part = CHR ''['' # textToProcess part @ '']''
           \<and> CHR '']'' \<notin> set (textToProcess part))
   \<and> (\<forall>t \<in> set (drawPanelScript getTextWidth x y width height panel).
         (\<exists>part \<in> set (scriptParts (scriptText (script panel))).
            opBold t = isAction part
            \<and> set (opText t) \<subseteq> insert (CHR '' '') (set (textToProcess part)))
         \<and> (opBold t \<longrightarrow> CHR '']'' \<notin> set (opText t)))"
proof (intro conjI impI ballI; (elim conjE)?)
  fix part
  assume "part \<in> set (scriptParts (scriptText (script panel)))" and "isAction part"
  then show "part = CHR ''['' # textToProcess part @ '']''"
    and "CHR '']'' \<notin> set (textToProcess part)"
    by (simp_all add: isAction_shape scriptParts_actions)
next
  fix t
  assume t: "t \<in> set (drawPanelScript getTextWidth x y width height panel)"
  then show "\<exists>part \<in> set (scriptParts (scriptText (script panel))).
            opBold t = isAction part
            \<and> set (opText t) \<subseteq> insert (CHR '' '') (set (textToProcess part))"
    unfolding drawPanelScript_def by (rule drawScriptText_drawn)
  show "CHR '']'' \<notin> set (opText t)" if "opBold t"
    using t that unfolding drawPanelScript_def by (rule emphasis_without_closing_bracket)
next
  assume "checkYBounds box st"
    and "cursorX st \<le> lineStart box
         \<or> cursorX st
             + getTextWidth bold (if cursorX st = lineStart box then word else CHR '' '' # word)
            \<le> lineEnd box"
  then show "wordsLoop getTextWidth box bold color (word # ws) st =
          wordsLoop getTextWidth box bold color ws
            (st \<lparr> drawn := drawn st
                 @ [\<lparr> opText = (if cursorX st = lineStart box then word else CHR '' '' # word),
                       opX = cursorX st, opY = cursorY st, opBold = bold, opColor = color \<rparr>],
                cursorX := cursorX st
                 + getTextWidth bold
                     (if cursorX st = lineStart box then word else CHR '' '' # word) \<rparr>)"
    by (rule wordsLoop_fits)
next
  assume "checkYBounds box st" and "lineStart box < cursorX st"
    and "lineEnd box < cursorX st + getTextWidth bold (CHR '' '' # word)"
  then show "wordsLoop getTextWidth box bold color (word # ws) st =
          (if cursorY st + LINE_HEIGHT \<le> yLimit box
           then wordsLoop getTextWidth box bold color ws
                  (st \<lparr> cursorY := cursorY st + LINE_HEIGHT,
                       drawn := drawn st
                         @ [\<lparr> opText = word, opX = lineStart box,
                               opY = cursorY st + LINE_HEIGHT,
                               opBold = bold, opColor = color \<rparr>],
                       cursorX := lineStart box + getTextWidth bold word \<rparr>)
           else st \<lparr> cursorY := cursorY st + LINE_HEIGHT, cursorX := lineStart box \<rparr>)"
    by (rule wordsLoop_wraps)
next
  assume "script panel = ''aaaa bbbb''"
    and "SCRIPT_TEXT_MAX_WIDTH width < getTextWidth False ''aaaa bbbb''"
    and "getTextWidth False ''aaaa bbbb''
            = getTextWidth False ''aaaa'' + getTextWidth False '' bbbb''"
    and "0 < getTextWidth False ''aaaa''"
    and "theme_fontSize_pdf_script - 4 + LINE_HEIGHT
            \<le> SCRIPT_BOX_HEIGHT y width height - 2 * SCRIPT_BOX_PADDING_Y"
  then have two: "drawPanelScript getTextWidth x y width height panel =
     [\<lparr> opText = ''aaaa'', opX = CONTENT_X x + SCRIPT_BOX_PADDING_X,
         opY = SCRIPT_BOX_Y y width + SCRIPT_BOX_PADDING_Y + theme_fontSize_pdf_script - 4,
         opBold = False, opColor = (30, 41, 59) \<rparr>,
      \<lparr> opText = ''bbbb'', opX = CONTENT_X x + SCRIPT_BOX_PADDING_X,
         opY = SCRIPT_BOX_Y y width + SCRIPT_BOX_PADDING_Y + theme_fontSize_pdf_script - 4
                + LINE_HEIGHT,
         opBold = False, opColor = (30, 41, 59) \<rparr>]"
    by (rule drawPanelScript_aaaa_bbbb)
  show "laidOutLines (drawPanelScript getTextWidth x y width height panel) = [''aaaa'', ''bbbb'']"
    by (simp add: two LINE_HEIGHT_def)
  show "map opX (drawPanelScript getTextWidth x y width height panel)
            = [CONTENT_X x + SCRIPT_BOX_PADDING_X, CONTENT_X x + SCRIPT_BOX_PADDING_X]"
    by (simp add: two)
  show "map opY (drawPanelScript getTextWidth x y width height panel)
            = [SCRIPT_BOX_Y y width + SCRIPT_BOX_PADDING_Y + theme_fontSize_pdf_script - 4,
               SCRIPT_BOX_Y y width + SCRIPT_BOX_PADDING_Y + theme_fontSize_pdf_script - 4
                 + LINE_HEIGHT]"
    by (simp add: two)
qed

theorem greedy_word_wrap_witness:
  "script abPanel = ''aaaa bbbb''
   \<and> SCRIPT_TEXT_MAX_WIDTH panelWidth < fixedWidth False ''aaaa bbbb''
   \<and> fixedWidth False ''aaaa bbbb'' = fixedWidth False ''aaaa'' + fixedWidth False '' bbbb''
   \<and> 0 < fixedWidth False ''aaaa''
   \<and> theme_fontSize_pdf_script - 4 + LINE_HEIGHT
        \<le> SCRIPT_BOX_HEIGHT 40 panelWidth panelHeight - 2 * SCRIPT_BOX_PADDING_Y
   \<and> laidOutLines (drawPanelScript fixedWidth 40 40 panelWidth panelHeight abPanel)
        = [''aaaa'', ''bbbb'']
   \<and> map opText (drawPanelScript fixedWidth 40 40 panelWidth panelHeight wavePanel)
        = [''wave'', '' '', '' hi'']
   \<and> map opBold (drawPanelScript fixedWidth 40 40 panelWidth panelHeight wavePanel)
        = [True, False, False]"
proof -
  have s: "script abPanel = ''aaaa bbbb''"
    by (simp add: abPanel_def)
  have wide: "SCRIPT_TEXT_MAX_WIDTH panelWidth < fixedWidth False ''aaaa bbbb''"
    by (simp add: SCRIPT_TEXT_MAX_WIDTH_def CONTENT_WIDTH_def PADDING_def
        SCRIPT_BOX_PADDING_X_def panelWidth_def contentWidth_def PDF_WIDTH_def PAGE_MARGIN_def
        cols_def colGap_def fixedWidth_def)
  have additive: "fixedWidth False ''aaaa bbbb''
      = fixedWidth False ''aaaa'' + fixedWidth False '' bbbb''"
    by (simp add: fixedWidth_def)
  have positive: "0 < fixedWidth False ''aaaa''"
    by (simp add: fixedWidth_def)
  have tall: "theme_fontSize_pdf_script - 4 + LINE_HEIGHT
        \<le> SCRIPT_BOX_HEIGHT 40 panelWidth panelHeight - 2 * SCRIPT_BOX_PADDING_Y"
    by (simp add: theme_fontSize_pdf_script_def LINE_HEIGHT_def SCRIPT_BOX_HEIGHT_def
        SCRIPT_BOX_Y_def SCRIPT_AREA_Y_def IMG_CONTAINER_Y_def CONTENT_Y_def
        IMG_CONTAINER_HEIGHT_def IMG_CONTAINER_WIDTH_def CONTENT_WIDTH_def PADDING_def
        SCRIPT_BOX_PADDING_Y_def panelWidth_def panelHeight_def contentWidth_def
        contentHeight_def PDF_WIDTH_def PDF_HEIGHT_def PAGE_MARGIN_def cols_def rows_def
        colGap_def rowGap_def)
  have lines: "laidOutLines (drawPanelScript fixedWidth 40 40 panelWidth panelHeight abPanel)
        = [''aaaa'', ''bbbb'']"
    using greedy_word_wrap [where getTextWidth = fixedWidth and panel = abPanel and x = 40
        and y = 40 and width = panelWidth and height = panelHeight]
      s wide additive positive tall
    by blast
  show ?thesis
    using s wide additive positive tall lines by (simp add: wave_drawn)
qed

section \<open>Asset store (src/lib/asset-service.ts)\<close>

text \<open>
  A \<open>Blob\<close> is its bytes and MIME type, a \<open>File\<close> a blob with a name. A JavaScript \<open>Map\<close>
  is an association list in insertion order with one entry for each key, a \<open>Set\<close> a list
  without repetition.
\<close>

record Blob =
  blobBytes :: "nat list"
  blobType :: string

record File =
  fileName :: string
  fileType :: string
  fileBytes :: "nat list"

fun map_set :: "'k \<Rightarrow> 'v \<Rightarrow> ('k \<times> 'v) list \<Rightarrow> ('k \<times> 'v) list" where
  "map_set k v [] = [(k, v)]"
| "map_set k v ((k', v') # m) = (if k' = k then (k, v) # m else (k', v') # map_set k v m)"

definition set_add :: "'a \<Rightarrow> 'a list \<Rightarrow> 'a list" where
  "set_add a xs = (if a \<in> set xs then xs else xs @ [a])"

definition startsWith :: "string \<Rightarrow> string \<Rightarrow> bool" where
  "startsWith s prefix \<longleftrightarrow> take (length prefix) s = prefix"

text \<open>\<open>String.prototype.lastIndexOf\<close> of a character; \<open>None\<close> is the result \<open>-1\<close>.\<close>

definition lastIndexOf :: "char \<Rightarrow> string \<Rightarrow> nat option" where
  "lastIndexOf c s =
     (case filter (\<lambda>i. s ! i = c) (rev [0 ..< length s]) of
        [] \<Rightarrow> None
      | i # _ \<Rightarrow> Some i)"

definition getFileExtension :: "string \<Rightarrow> string" where
  "getFileExtension filename =
     (case lastIndexOf (CHR ''.'') filename of
        None \<Rightarrow> []
      | Some lastDot \<Rightarrow>
          if lastDot < 1 \<or> lastDot = length filename - 1 then [] else drop lastDot filename)"

text \<open>
  What the program takes from its surroundings: the identifiers \<open>uuidv4\<close> generates (the
  \<open>n\<close>-th call), the outcome of the \<open>n\<close>-th \<open>fetch\<close> for a URL (\<open>None\<close> when the promise is
  rejected), the URL the \<open>n\<close>-th \<open>URL.createObjectURL\<close> returns, whether the program runs
  in Tauri and under its protocol, Tauri's \<open>convertFileSrc\<close>, and the MIME type the zip
  library gives a blob it reads.
\<close>

record env =
  uuidv4 :: "nat \<Rightarrow> string"
  fetchBlob :: "nat \<Rightarrow> string \<Rightarrow> Blob option"
  createObjectURL :: "nat \<Rightarrow> string"
  isTauri :: bool
  protocolIsTauri :: bool
  convertFileSrc :: "string \<Rightarrow> string"
  zipBlobType :: string

text \<open>
  The mutable state: the module-level \<open>assetMap\<close>, the project in the store, its undo
  history, the object URLs registered and not revoked, the URLs fetched, the number of
  identifiers generated and of object URLs created, and the alerts shown.
\<close>

record world =
  assetMap :: "(string \<times> File) list"
  project :: ProjectState
  undoHistory :: "ProjectState list"
  objectURLs :: "(string \<times> File) list"
  urlCount :: nat
  fetchLog :: "string list"
  uuidCount :: nat
  alerts :: "string list"

definition addAsset :: "env \<Rightarrow> File \<Rightarrow> world \<Rightarrow> string \<times> world" where
  "addAsset e file w =
     (let extension = getFileExtension (fileName file);
          assetKey = uuidv4 e (uuidCount w) @ extension
      in (assetKey, w \<lparr> assetMap := map_set assetKey file (assetMap w),
                         uuidCount := Suc (uuidCount w) \<rparr>))"

definition getAssetFile :: "world \<Rightarrow> string \<Rightarrow> File option" where
  "getAssetFile w key = map_of (assetMap w) key"

definition clearAssets :: "world \<Rightarrow> world" where
  "clearAssets w = w \<lparr> assetMap := [] \<rparr>"

definition setAsset :: "string \<Rightarrow> File \<Rightarrow> world \<Rightarrow> world" where
  "setAsset key file w = w \<lparr> assetMap := map_set key file (assetMap w) \<rparr>"

section \<open>Project store (src/store/project-store.ts)\<close>

definition revokeObjectURL :: "string \<Rightarrow> world \<Rightarrow> world" where
  "revokeObjectURL url w = w \<lparr> objectURLs := filter (\<lambda>(u, f). u \<noteq> url) (objectURLs w) \<rparr>"

definition revokeIfBlob :: "string \<Rightarrow> world \<Rightarrow> world" where
  "revokeIfBlob url w = (if startsWith url ''blob:'' then revokeObjectURL url w else w)"

definition cleanupBlobUrls :: "ProjectState \<Rightarrow> world \<Rightarrow> world" where
  "cleanupBlobUrls state w =
     (let w1 = revokeIfBlob (backgroundImage (titlePage state)) w;
          w2 = (case logo (titlePage state) of
                  Some titleLogo \<Rightarrow> revokeIfBlob (src titleLogo) w1 | None \<Rightarrow> w1);
          w3 = revokeIfBlob (backgroundImage (endPage state)) w2;
          w4 = (case logo (endPage state) of
                  Some endLogo \<Rightarrow> revokeIfBlob (src endLogo) w3 | None \<Rightarrow> w3)
      in fold (\<lambda>panel. revokeIfBlob (image panel)) (panels state) w4)"

text \<open>
  The store is wrapped in the \<open>temporal\<close> middleware (lines 146, 355-374) with
  \<open>limit: 50\<close> and a \<open>partialize\<close> that leaves the actions and \<open>isLoading\<close> out. Every
  \<open>set\<close> of the store therefore records the state before it, partialized, as the newest
  entry of the undo history, after dropping the oldest entry of a full history. The flag
  that \<open>partialize\<close> leaves out reads as \<open>False\<close>. (The redo stack, which every \<open>set\<close>
  empties, is not part of the model.)
\<close>

definition historyLimit :: nat where "historyLimit = 50"

definition partialize :: "ProjectState \<Rightarrow> ProjectState" where
  "partialize state = state \<lparr> isLoading := False \<rparr>"

definition temporal_set :: "(ProjectState \<Rightarrow> ProjectState) \<Rightarrow> world \<Rightarrow> world" where
  "temporal_set f w =
     (let pastState = partialize (project w);
          pastStates = (if historyLimit \<le> length (undoHistory w) then drop 1 (undoHistory w)
                        else undoHistory w)
      in w \<lparr> project := f (project w), undoHistory := pastStates @ [pastState] \<rparr>)"

text \<open>
  The store action \<open>loadProject\<close>. The loaded object has no \<open>isLoading\<close> key, so the merge
  of \<open>set(project)\<close> keeps the flag of the store.
\<close>

definition store_loadProject :: "ProjectState \<Rightarrow> world \<Rightarrow> world" where
  "store_loadProject loaded w =
     (let currentState = project w;
          w1 = cleanupBlobUrls currentState w;
          loaded1 = (if projectTitle loaded = []
                     then loaded \<lparr> projectTitle :=
                            (if header (titlePage loaded) = [] then ''Untitled Project''
                             else header (titlePage loaded)) \<rparr>
                     else loaded)
      in temporal_set (\<lambda>state. loaded1 \<lparr> isLoading := isLoading state \<rparr>) w1)"

definition setLoading :: "bool \<Rightarrow> world \<Rightarrow> world" where
  "setLoading b w = temporal_set (\<lambda>state. state \<lparr> isLoading := b \<rparr>) w"

section \<open>Saving and loading project files (src/lib/pdf-service.ts, second part)\<close>

definition content_alerts_loadError :: string where
  "content_alerts_loadError = ''Error: Invalid project file. project.json not found.''"
definition content_assets_defaultLogoPath :: string where
  "content_assets_defaultLogoPath = ''/images/default_logo.png''"
definition content_assets_defaultBackgroundPath :: string where
  "content_assets_defaultBackgroundPath = ''/images/default_BG.png''"

definition getFetchableUrl :: "env \<Rightarrow> string \<Rightarrow> string" where
  "getFetchableUrl e path =
     (if path = [] \<or> startsWith path ''blob:'' \<or> startsWith path ''http'' then path
      else if isTauri e \<and> startsWith path ''/'' \<and> protocolIsTauri e
           then convertFileSrc e (drop 1 path)
      else path)"

text \<open>
  An opened package: the state that \<open>project.json\<close> encodes, when the entry is there, and
  the entries of the \<open>assets\<close> folder by their relative path. The JSON text is modelled by
  the state it encodes; a key that the replacer of \<open>JSON.stringify\<close> leaves out is a field
  that reads as the empty string or \<open>False\<close> (as \<open>undefined\<close> does in every test the program
  makes).
\<close>

datatype zip_entry = Dir | FileData "nat list"

record archive =
  projectJson :: "ProjectState option"
  assetEntries :: "(string \<times> zip_entry) list"

text \<open>A file that is not a zip archive makes \<open>JSZip.loadAsync\<close> throw.\<close>

datatype package = NotAZip | Zip archive

datatype load_outcome = Loaded | InvalidFileAlert | Thrown

text \<open>\<open>hydrateAsset\<close> of \<open>hydrateState\<close>; an absent key is the empty string.\<close>

definition hydrateAsset :: "env \<Rightarrow> string \<Rightarrow> world \<Rightarrow> string \<times> world" where
  "hydrateAsset e key w =
     (if key = [] \<or> startsWith key ''/images/'' then (key, w)
      else (case getAssetFile w key of
              Some file \<Rightarrow>
                (createObjectURL e (urlCount w),
                 w \<lparr> objectURLs := objectURLs w @ [(createObjectURL e (urlCount w), file)],
                     urlCount := Suc (urlCount w) \<rparr>)
            | None \<Rightarrow> ([], w)))"

definition hydrateLogo :: "env \<Rightarrow> Logo option \<Rightarrow> world \<Rightarrow> Logo option \<times> world" where
  "hydrateLogo e l w =
     (case l of
        Some lg \<Rightarrow> (let (url, w1) = hydrateAsset e (assetKey lg) w
                    in (Some (lg \<lparr> src := url \<rparr>), w1))
      | None \<Rightarrow> (None, w))"

fun hydratePanels :: "env \<Rightarrow> Panel list \<Rightarrow> world \<Rightarrow> Panel list \<times> world" where
  "hydratePanels e [] w = ([], w)"
| "hydratePanels e (panel # ps) w =
     (let (url, w1) = hydrateAsset e (imageAssetKey panel) w;
          (ps1, w2) = hydratePanels e ps w1
      in (panel \<lparr> image := url \<rparr> # ps1, w2))"

definition hydrateState :: "env \<Rightarrow> ProjectState \<Rightarrow> world \<Rightarrow> ProjectState \<times> world" where
  "hydrateState e state w =
     (let (titleBg, w1) = hydrateAsset e (backgroundImageAssetKey (titlePage state)) w;
          (titleLogo, w2) = hydrateLogo e (logo (titlePage state)) w1;
          (endBg, w3) = hydrateAsset e (backgroundImageAssetKey (endPage state)) w2;
          (endLogo, w4) = hydrateLogo e (logo (endPage state)) w3;
          (ps, w5) = hydratePanels e (panels state) w4
      in (state \<lparr> titlePage := (titlePage state) \<lparr> backgroundImage := titleBg, logo := titleLogo \<rparr>,
                  endPage := (endPage state) \<lparr> backgroundImage := endBg, logo := endLogo \<rparr>,
                  panels := ps \<rparr>,
          w5))"

definition loadAssetEntry :: "env \<Rightarrow> string \<times> zip_entry \<Rightarrow> world \<Rightarrow> world" where
  "loadAssetEntry e entry w =
     (case entry of
        (relativePath, FileData bytes) \<Rightarrow>
          setAsset relativePath
            \<lparr> fileName = relativePath, fileType = zipBlobType e, fileBytes = bytes \<rparr> w
      | (relativePath, Dir) \<Rightarrow> w)"

definition processProjectFile :: "env \<Rightarrow> package \<Rightarrow> world \<Rightarrow> load_outcome \<times> world" where
  "processProjectFile e fileContents w =
     (let w1 = clearAssets w
      in case fileContents of
           NotAZip \<Rightarrow> (Thrown, w1)
         | Zip z \<Rightarrow>
             (case projectJson z of
                None \<Rightarrow> (InvalidFileAlert, w1 \<lparr> alerts := alerts w1 @ [content_alerts_loadError] \<rparr>)
              | Some loadedState \<Rightarrow>
                  (let w2 = fold (loadAssetEntry e) (assetEntries z) w1;
                       (stateToLoad, w3) = hydrateState e loadedState w2;
                       w4 = store_loadProject stateToLoad w3
                   in (Loaded, w4 \<lparr> undoHistory := [] \<rparr>))))"

text \<open>
  \<open>processAndMapAsset\<close> of \<open>saveProject\<close>, with the cache \<open>defaultAssetMap\<close> it closes
  over. A rejected fetch is the \<open>catch\<close> branch.
\<close>

definition processAndMapAsset ::
  "env \<Rightarrow> string \<Rightarrow> string \<Rightarrow> (string \<times> string) list \<times> world
    \<Rightarrow> string \<times> (string \<times> string) list \<times> world" where
  "processAndMapAsset e key defaultPath cw =
     (let (defaultAssetMap, w) = cw
      in if startsWith key ''default-''
         then (case map_of defaultAssetMap key of
                 Some cached \<Rightarrow> (cached, defaultAssetMap, w)
               | None \<Rightarrow>
                   (let fetchablePath = getFetchableUrl e defaultPath;
                        w1 = w \<lparr> fetchLog := fetchLog w @ [fetchablePath] \<rparr>
                    in case fetchBlob e (length (fetchLog w)) fetchablePath of
                         None \<Rightarrow> ([], defaultAssetMap, w1)
                       | Some blob \<Rightarrow>
                           (let popped = last (split_on (CHR ''/'') defaultPath);
                                filename = (if popped = [] then key else popped);
                                file = \<lparr> fileName = filename, fileType = blobType blob,
                                         fileBytes = blobBytes blob \<rparr>;
                                (newAssetKey, w2) = addAsset e file w1
                            in (newAssetKey, map_set key newAssetKey defaultAssetMap, w2))))
         else (key, defaultAssetMap, w))"

text \<open>
  The replacer of \<open>JSON.stringify\<close> (lines 433-438): the keys \<open>src\<close>, \<open>image\<close>,
  \<open>backgroundImage\<close> and \<open>isLoading\<close> are left out.
\<close>

definition stripTransient :: "ProjectState \<Rightarrow> ProjectState" where
  "stripTransient s =
     s \<lparr> titlePage := (titlePage s)
            \<lparr> backgroundImage := [],
              logo := map_option (\<lambda>l. l \<lparr> src := [] \<rparr>) (logo (titlePage s)) \<rparr>,
         endPage := (endPage s)
            \<lparr> backgroundImage := [],
              logo := map_option (\<lambda>l. l \<lparr> src := [] \<rparr>) (logo (endPage s)) \<rparr>,
         panels := map (\<lambda>p. p \<lparr> image := [] \<rparr>) (panels s),
         isLoading := False \<rparr>"

text \<open>\<open>collectAsset\<close>; \<open>None\<close> is the \<open>undefined\<close> of \<open>logo?.assetKey\<close> without a logo.\<close>

definition collectAsset :: "string option \<Rightarrow> string list \<Rightarrow> string list" where
  "collectAsset k referencedAssets =
     (case k of
        Some key \<Rightarrow>
          if key \<noteq> [] \<and> \<not> startsWith key ''default-'' then set_add key referencedAssets
          else referencedAssets
      | None \<Rightarrow> referencedAssets)"

definition referencedAssetsOf :: "ProjectState \<Rightarrow> string list" where
  "referencedAssetsOf savableState =
     fold (\<lambda>panel. collectAsset (Some (imageAssetKey panel))) (panels savableState)
       (collectAsset (Some (backgroundImageAssetKey (endPage savableState)))
         (collectAsset (map_option assetKey (logo (endPage savableState)))
           (collectAsset (Some (backgroundImageAssetKey (titlePage savableState)))
             (collectAsset (map_option assetKey (logo (titlePage savableState))) []))))"

text \<open>The loop that adds the referenced files to the \<open>assets\<close> folder (lines 451-460).\<close>

definition addAssetFiles :: "world \<Rightarrow> string list \<Rightarrow> (string \<times> zip_entry) list" where
  "addAssetFiles w referencedAssets =
     fold (\<lambda>key entries.
             if key = [] then entries
             else (case getAssetFile w key of
                     Some file \<Rightarrow> map_set key (FileData (fileBytes file)) entries
                   | None \<Rightarrow> entries))
       referencedAssets []"

definition mapLogoAsset ::
  "env \<Rightarrow> Logo option \<Rightarrow> (string \<times> string) list \<times> world
    \<Rightarrow> Logo option \<times> (string \<times> string) list \<times> world" where
  "mapLogoAsset e l cw =
     (case l of
        Some lg \<Rightarrow>
          (let (k, cw1) = processAndMapAsset e (assetKey lg) content_assets_defaultLogoPath cw
           in (Some (lg \<lparr> assetKey := k \<rparr>), cw1))
      | None \<Rightarrow> (None, cw))"

text \<open>
  The part of \<open>saveProject\<close> that replaces the default placeholders of the deep copy
  \<open>savableState\<close> with real keys (lines 390-430), with the cache and the world it leaves.
\<close>

definition replaceDefaultPlaceholders ::
  "env \<Rightarrow> world \<Rightarrow> ProjectState \<times> (string \<times> string) list \<times> world" where
  "replaceDefaultPlaceholders e w0 =
     (let savableState = project w0;
          (titleBg, cw1) = processAndMapAsset e (backgroundImageAssetKey (titlePage savableState))
                             content_assets_defaultBackgroundPath ([], w0);
          (titleLogo, cw2) = mapLogoAsset e (logo (titlePage savableState)) cw1;
          (endBg, cw3) = processAndMapAsset e (backgroundImageAssetKey (endPage savableState))
                           content_assets_defaultBackgroundPath cw2;
          (endLogo, cw4) = mapLogoAsset e (logo (endPage savableState)) cw3
      in (savableState
             \<lparr> titlePage := (titlePage savableState)
                  \<lparr> backgroundImageAssetKey := titleBg, logo := titleLogo \<rparr>,
               endPage := (endPage savableState)
                  \<lparr> backgroundImageAssetKey := endBg, logo := endLogo \<rparr> \<rparr>,
          cw4))"

text \<open>
  \<open>saveProject\<close> up to the package it generates (\<open>contentZip\<close>); handing the bytes to the
  file dialog or the download link is outside the model.
\<close>

definition saveProject :: "env \<Rightarrow> world \<Rightarrow> archive \<times> world" where
  "saveProject e w =
     (let w0 = setLoading True w;
          (savableState, cw) = replaceDefaultPlaceholders e w0;
          contentZip = \<lparr> projectJson = Some (stripTransient savableState),
                         assetEntries = addAssetFiles (snd cw)
                                          (referencedAssetsOf savableState) \<rparr>
      in (contentZip, setLoading False (snd cw)))"

section \<open>Hydration changes display fields only\<close>

lemma hydrateLogo_frame:
  "map_option (\<lambda>l. (assetKey l, position l, sizeL l)) (fst (hydrateLogo e l w))
     = map_option (\<lambda>l. (assetKey l, position l, sizeL l)) l"
  by (cases l) (simp_all add: hydrateLogo_def case_prod_beta Let_def)

lemma hydrateLogo_strip:
  "map_option (\<lambda>l. l \<lparr> src := [] \<rparr>) (fst (hydrateLogo e l w))
     = map_option (\<lambda>l. l \<lparr> src := [] \<rparr>) l"
  by (cases l) (simp_all add: hydrateLogo_def case_prod_beta Let_def)

lemma hydratePanels_frame:
  "map (\<lambda>p. (idP p, imageAssetKey p, script p)) (fst (hydratePanels e ps w))
     = map (\<lambda>p. (idP p, imageAssetKey p, script p)) ps"
  by (induction ps arbitrary: w) (simp_all add: case_prod_beta Let_def)

lemma hydratePanels_strip:
  "map (\<lambda>p. p \<lparr> image := [] \<rparr>) (fst (hydratePanels e ps w))
     = map (\<lambda>p. p \<lparr> image := [] \<rparr>) ps"
  by (induction ps arbitrary: w) (simp_all add: case_prod_beta Let_def)

lemma hydrateState_fst:
  "fst (hydrateState e s w) =
     (let w1 = snd (hydrateAsset e (backgroundImageAssetKey (titlePage s)) w);
          w2 = snd (hydrateLogo e (logo (titlePage s)) w1);
          w3 = snd (hydrateAsset e (backgroundImageAssetKey (endPage s)) w2);
          w4 = snd (hydrateLogo e (logo (endPage s)) w3)
      in s \<lparr> titlePage := (titlePage s)
                \<lparr> backgroundImage :=
                    fst (hydrateAsset e (backgroundImageAssetKey (titlePage s)) w),
                  logo := fst (hydrateLogo e (logo (titlePage s)) w1) \<rparr>,
             endPage := (endPage s)
                \<lparr> backgroundImage :=
                    fst (hydrateAsset e (backgroundImageAssetKey (endPage s)) w2),
                  logo := fst (hydrateLogo e (logo (endPage s)) w3) \<rparr>,
             panels := fst (hydratePanels e (panels s) w4) \<rparr>)"
  by (simp add: hydrateState_def Let_def case_prod_beta)

text \<open>
  Claim C10. Hydration returns the state it is given with new display fields only: the
  project title, the header and subheader, every asset key, the position and size of each
  logo (and whether there is a logo), the end text, the three flags, the loading flag, and
  the identifier, asset key and script of every panel, in the same order, are unchanged.
\<close>

theorem hydration_changes_display_fields_only:
  "projectTitle (fst (hydrateState e s w)) = projectTitle s
   \<and> logoSizesLinked (fst (hydrateState e s w)) = logoSizesLinked s
   \<and> isLoading (fst (hydrateState e s w)) = isLoading s
   \<and> header (titlePage (fst (hydrateState e s w))) = header (titlePage s)
   \<and> subHeader (titlePage (fst (hydrateState e s w))) = subHeader (titlePage s)
   \<and> backgroundImageAssetKey (titlePage (fst (hydrateState e s w)))
        = backgroundImageAssetKey (titlePage s)
   \<and> map_option (\<lambda>l. (assetKey l, position l, sizeL l))
          (logo (titlePage (fst (hydrateState e s w))))
        = map_option (\<lambda>l. (assetKey l, position l, sizeL l)) (logo (titlePage s))
   \<and> backgroundImageAssetKey (endPage (fst (hydrateState e s w)))
        = backgroundImageAssetKey (endPage s)
   \<and> map_option (\<lambda>l. (assetKey l, position l, sizeL l))
          (logo (endPage (fst (hydrateState e s w))))
        = map_option (\<lambda>l. (assetKey l, position l, sizeL l)) (logo (endPage s))
   \<and> textE (endPage (fst (hydrateState e s w))) = textE (endPage s)
   \<and> showText (endPage (fst (hydrateState e s w))) = showText (endPage s)
   \<and> mirrorTitlePage (endPage (fst (hydrateState e s w))) = mirrorTitlePage (endPage s)
   \<and> map (\<lambda>p. (idP p, imageAssetKey p, script p)) (panels (fst (hydrateState e s w)))
        = map (\<lambda>p. (idP p, imageAssetKey p, script p)) (panels s)"
  by (simp add: hydrateState_fst Let_def hydrateLogo_frame hydratePanels_frame)

text \<open>
  An example: a project with the default background and logos, one panel with an uploaded
  image and one empty panel; an environment in which every fetch succeeds; a world whose
  asset store holds the uploaded image and one asset that nothing refers to.
\<close>

definition exampleProject :: ProjectState where
  "exampleProject =
     \<lparr> projectTitle = ''My Story Project'',
       titlePage = \<lparr> backgroundImage = ''/images/default_BG.png'',
                     backgroundImageAssetKey = ''default-background'',
                     logo = Some \<lparr> src = ''/images/default_logo.png'',
                                   assetKey = ''default-logo'',
                                   position = bottom_right, sizeL = SizeM \<rparr>,
                     header = ''Client Name'', subHeader = ''Project Title'' \<rparr>,
       panels = [\<lparr> idP = ''p1'', image = ''blob:1'', imageAssetKey = ''u1.png'',
                    script = ''hello'' \<rparr>,
                 \<lparr> idP = ''p2'', image = [], imageAssetKey = [], script = [] \<rparr>],
       endPage = \<lparr> backgroundImage = ''/images/default_BG.png'',
                   backgroundImageAssetKey = ''default-background'',
                   logo = Some \<lparr> src = ''/images/default_logo.png'',
                                 assetKey = ''default-logo'',
                                 position = bottom_center, sizeL = SizeM \<rparr>,
                   textE = ''The End'', showText = True, mirrorTitlePage = True \<rparr>,
       logoSizesLinked = True, isLoading = False \<rparr>"

definition env0 :: env where
  "env0 = \<lparr> uuidv4 = (\<lambda>n. ''uuid'' @ replicate n (CHR ''x'')),
            fetchBlob = (\<lambda>n url. Some \<lparr> blobBytes = [n], blobType = ''image/png'' \<rparr>),
            createObjectURL = (\<lambda>n. ''blob:'' @ replicate n (CHR ''u'')),
            isTauri = False, protocolIsTauri = False, convertFileSrc = (\<lambda>p. p),
            zipBlobType = [] \<rparr>"

definition world0 :: world where
  "world0 =
     \<lparr> assetMap = [(''u1.png'', \<lparr> fileName = ''cat.png'', fileType = ''image/png'',
                                  fileBytes = [1, 2, 3] \<rparr>),
                   (''old.png'', \<lparr> fileName = ''old.png'', fileType = ''image/png'',
                                   fileBytes = [9] \<rparr>)],
       project = exampleProject, undoHistory = [], objectURLs = [], urlCount = 0,
       fetchLog = [], uuidCount = 0, alerts = [] \<rparr>"


theorem hydration_changes_display_fields_only_witness:
  "image (hd (panels (fst (hydrateState env0 exampleProject world0)))) = ''blob:''
   \<and> image (hd (panels exampleProject)) = ''blob:1''
   \<and> map (\<lambda>p. (idP p, imageAssetKey p, script p))
         (panels (fst (hydrateState env0 exampleProject world0)))
       = [(''p1'', ''u1.png'', ''hello''), (''p2'', [], [])]
   \<and> projectTitle (fst (hydrateState env0 exampleProject world0)) = ''My Story Project''"
proof -
  have "image (hd (panels (fst (hydrateState env0 exampleProject world0)))) = ''blob:''"
    by (simp add: hydrateState_fst Let_def hydrateAsset_def hydrateLogo_def exampleProject_def
        world0_def env0_def startsWith_def getAssetFile_def case_prod_beta)
  then show ?thesis
    using hydration_changes_display_fields_only [of env0 exampleProject world0]
    by (simp add: exampleProject_def)
qed

section \<open>Loading a package without a manifest\<close>

text \<open>A package with one asset entry and no \<open>project.json\<close>.\<close>

definition noManifest :: archive where
  "noManifest = \<lparr> projectJson = None, assetEntries = [(''new.png'', FileData [7])] \<rparr>"

text \<open>
  Claim C2, as stated, fails: loading a package without a manifest empties the asset store
  (\<open>clearAssets\<close> is the first statement of \<open>processProjectFile\<close>), and the function
  returns after an alert, it does not throw.
\<close>

theorem load_without_manifest_clears_store:
  "projectJson noManifest = None
   \<and> getAssetFile world0 ''u1.png''
       = Some \<lparr> fileName = ''cat.png'', fileType = ''image/png'', fileBytes = [1, 2, 3] \<rparr>
   \<and> getAssetFile (snd (processProjectFile env0 (Zip noManifest) world0)) ''u1.png'' = None
   \<and> assetMap (snd (processProjectFile env0 (Zip noManifest) world0)) = []
   \<and> fst (processProjectFile env0 (Zip noManifest) world0) = InvalidFileAlert"
  by (simp add: processProjectFile_def noManifest_def world0_def getAssetFile_def
      clearAssets_def Let_def)

text \<open>
  Claim C2, amended. For a package without a manifest entry the load shows the invalid-file
  alert and returns, without throwing and without loading anything: the project in the
  store, the undo history and the object URLs are as before, nothing is fetched, no
  identifier is generated, and the asset store gains no entry.
\<close>

theorem load_without_manifest_aborts:
  assumes "projectJson z = None"
  shows "fst (processProjectFile e (Zip z) w) = InvalidFileAlert
   \<and> alerts (snd (processProjectFile e (Zip z) w)) = alerts w @ [content_alerts_loadError]
   \<and> project (snd (processProjectFile e (Zip z) w)) = project w
   \<and> undoHistory (snd (processProjectFile e (Zip z) w)) = undoHistory w
   \<and> objectURLs (snd (processProjectFile e (Zip z) w)) = objectURLs w
   \<and> urlCount (snd (processProjectFile e (Zip z) w)) = urlCount w
   \<and> fetchLog (snd (processProjectFile e (Zip z) w)) = fetchLog w
   \<and> uuidCount (snd (processProjectFile e (Zip z) w)) = uuidCount w
   \<and> set (assetMap (snd (processProjectFile e (Zip z) w))) \<subseteq> set (assetMap w)"
  using assms by (simp add: processProjectFile_def clearAssets_def Let_def)

theorem load_without_manifest_aborts_witness:
  "projectJson noManifest = None
   \<and> fst (processProjectFile env0 (Zip noManifest) world0) = InvalidFileAlert
   \<and> alerts (snd (processProjectFile env0 (Zip noManifest) world0))
       = [content_alerts_loadError]
   \<and> project (snd (processProjectFile env0 (Zip noManifest) world0)) = exampleProject"
proof -
  have none: "projectJson noManifest = None"
    by (simp add: noManifest_def)
  from load_without_manifest_aborts [OF none, of env0 world0] none show ?thesis
    by (simp add: world0_def)
qed

section \<open>The asset entries of a saved package\<close>

lemma map_of_map_set: "map_of (map_set k v m) = (map_of m)(k \<mapsto> v)"
  by (induction m) (auto simp add: fun_eq_iff)

lemma keys_map_set: "fst ` set (map_set k v m) = insert k (fst ` set m)"
proof (induction m)
  case Nil
  show ?case by simp
next
  case (Cons kv m)
  obtain k' v' where kv: "kv = (k', v')" by (cases kv)
  show ?case
  proof (cases "k' = k")
    case True
    then show ?thesis by (simp add: kv)
  next
    case False
    then show ?thesis using Cons.IH by (simp add: kv insert_commute)
  qed
qed

lemma distinct_map_set: "distinct (map fst m) \<Longrightarrow> distinct (map fst (map_set k v m))"
proof (induction m)
  case Nil
  then show ?case by simp
next
  case (Cons kv m)
  obtain k' v' where kv: "kv = (k', v')" by (cases kv)
  have keys: "set (map fst (map_set k v m)) = insert k (set (map fst m))"
    using keys_map_set [of k v m] by simp
  show ?case
  proof (cases "k' = k")
    case True
    then show ?thesis using Cons.prems by (simp add: kv)
  next
    case False
    then show ?thesis using Cons.prems Cons.IH keys by (simp add: kv)
  qed
qed

lemma set_set_add: "set (set_add a xs) = insert a (set xs)"
  by (auto simp add: set_add_def)

lemma distinct_set_add: "distinct xs \<Longrightarrow> distinct (set_add a xs)"
  by (simp add: set_add_def)

text \<open>A key that gets a place among the referenced assets: not empty, not a placeholder.\<close>

definition collectable :: "string \<Rightarrow> bool" where
  "collectable key \<longleftrightarrow> key \<noteq> [] \<and> \<not> startsWith key ''default-''"

lemma set_collectAsset:
  "set (collectAsset k acc) = set acc \<union> {key. k = Some key \<and> collectable key}"
  by (cases k) (auto simp add: collectAsset_def set_set_add collectable_def)

lemma distinct_collectAsset: "distinct acc \<Longrightarrow> distinct (collectAsset k acc)"
  by (cases k) (simp_all add: collectAsset_def distinct_set_add)

lemma set_fold_collectAsset:
  "set (fold (\<lambda>panel. collectAsset (Some (imageAssetKey panel))) ps acc)
     = set acc \<union> {key \<in> imageAssetKey ` set ps. collectable key}"
  by (induction ps arbitrary: acc) (auto simp add: set_collectAsset)

lemma distinct_fold_collectAsset:
  "distinct acc \<Longrightarrow> distinct (fold (\<lambda>panel. collectAsset (Some (imageAssetKey panel))) ps acc)"
  by (induction ps arbitrary: acc) (simp_all add: distinct_collectAsset)

text \<open>
  The asset keys reachable from a state: title background, title logo, end background, end
  logo, every panel image.
\<close>

definition reachableKeys :: "ProjectState \<Rightarrow> string set" where
  "reachableKeys s =
     {backgroundImageAssetKey (titlePage s), backgroundImageAssetKey (endPage s)}
     \<union> assetKey ` set_option (logo (titlePage s))
     \<union> assetKey ` set_option (logo (endPage s))
     \<union> imageAssetKey ` set (panels s)"

lemma set_referencedAssetsOf:
  "set (referencedAssetsOf s) = {key \<in> reachableKeys s. collectable key}"
  by (cases "logo (titlePage s)"; cases "logo (endPage s)")
     (auto simp add: referencedAssetsOf_def set_fold_collectAsset set_collectAsset
        reachableKeys_def)

lemma distinct_referencedAssetsOf: "distinct (referencedAssetsOf s)"
  by (simp add: referencedAssetsOf_def distinct_fold_collectAsset distinct_collectAsset)


lemma reachableKeys_stripTransient: "reachableKeys (stripTransient s) = reachableKeys s"
proof -
  have logos: "assetKey ` set_option (map_option (\<lambda>l. l \<lparr> src := [] \<rparr>) l) = assetKey ` set_option l"
    for l :: "Logo option"
    by (cases l) simp_all
  show ?thesis
    by (simp add: reachableKeys_def stripTransient_def logos image_image)
qed

lemma fold_addAssetFile:
  "fst ` set (fold (\<lambda>key entries.
                     if key = [] then entries
                     else (case getAssetFile w key of
                             Some file \<Rightarrow> map_set key (FileData (fileBytes file)) entries
                           | None \<Rightarrow> entries)) ks acc)
     = fst ` set acc \<union> {key \<in> set ks. key \<noteq> [] \<and> getAssetFile w key \<noteq> None}"
proof (induction ks arbitrary: acc)
  case Nil
  show ?case by simp
next
  case (Cons k ks)
  show ?case
  proof (cases "k = [] \<or> getAssetFile w k = None")
    case True
    then show ?thesis by (auto simp add: Cons.IH)
  next
    case False
    then obtain f where "k \<noteq> []" "getAssetFile w k = Some f" by auto
    then show ?thesis by (auto simp add: Cons.IH keys_map_set)
  qed
qed

lemma distinct_fold_addAssetFile:
  "distinct (map fst acc) \<Longrightarrow>
   distinct (map fst (fold (\<lambda>key entries.
                     if key = [] then entries
                     else (case getAssetFile w key of
                             Some file \<Rightarrow> map_set key (FileData (fileBytes file)) entries
                           | None \<Rightarrow> entries)) ks acc))"
proof (induction ks arbitrary: acc)
  case Nil
  then show ?case by simp
next
  case (Cons k ks)
  show ?case
  proof (cases "k = [] \<or> getAssetFile w k = None")
    case True
    then show ?thesis using Cons.prems by (auto simp add: Cons.IH)
  next
    case False
    then obtain f where "k \<noteq> []" "getAssetFile w k = Some f" by auto
    then show ?thesis using Cons.prems by (simp add: Cons.IH distinct_map_set)
  qed
qed

lemma map_of_fold_addAssetFile:
  "map_of (fold (\<lambda>key entries.
                     if key = [] then entries
                     else (case getAssetFile w key of
                             Some file \<Rightarrow> map_set key (FileData (fileBytes file)) entries
                           | None \<Rightarrow> entries)) ks acc) k
     = (if k \<in> set ks \<and> k \<noteq> [] \<and> getAssetFile w k \<noteq> None
        then map_option (\<lambda>file. FileData (fileBytes file)) (getAssetFile w k)
        else map_of acc k)"
proof (induction ks arbitrary: acc)
  case Nil
  show ?case by simp
next
  case (Cons a ks)
  show ?case
  proof (cases "a = [] \<or> getAssetFile w a = None")
    case True
    then show ?thesis by (auto simp add: Cons.IH)
  next
    case False
    then obtain f where "a \<noteq> []" "getAssetFile w a = Some f" by auto
    then show ?thesis by (auto simp add: Cons.IH map_of_map_set)
  qed
qed

lemma names_addAssetFiles:
  "fst ` set (addAssetFiles w ks) = {key \<in> set ks. key \<noteq> [] \<and> getAssetFile w key \<noteq> None}"
  by (simp add: addAssetFiles_def fold_addAssetFile)

lemma distinct_addAssetFiles: "distinct (map fst (addAssetFiles w ks))"
  by (simp add: addAssetFiles_def distinct_fold_addAssetFile)

lemma map_of_addAssetFiles:
  "map_of (addAssetFiles w ks) k
     = (if k \<in> set ks \<and> k \<noteq> []
        then map_option (\<lambda>file. FileData (fileBytes file)) (getAssetFile w k) else None)"
  by (auto simp add: addAssetFiles_def map_of_fold_addAssetFile)

lemma addAssetFiles_cong:
  assumes "assetMap w = assetMap w'"
  shows "addAssetFiles w ks = addAssetFiles w' ks"
proof -
  have same: "getAssetFile w = getAssetFile w'"
    using assms by (simp add: fun_eq_iff getAssetFile_def)
  show ?thesis
    unfolding addAssetFiles_def same by (rule refl)
qed

text \<open>The package of a save: a manifest and the files of its referenced keys.\<close>

lemma saveProject_package:
  "\<exists>savableState.
      projectJson (fst (saveProject e w)) = Some (stripTransient savableState)
      \<and> assetEntries (fst (saveProject e w))
          = addAssetFiles (snd (saveProject e w)) (referencedAssetsOf savableState)"
proof -
  let ?r = "replaceDefaultPlaceholders e (setLoading True w)"
  have "assetMap (setLoading False w') = assetMap w'" for w'
    by (simp add: setLoading_def temporal_set_def Let_def)
  then have same: "addAssetFiles (setLoading False w') ks = addAssetFiles w' ks" for w' ks
    by (rule addAssetFiles_cong)
  have "projectJson (fst (saveProject e w)) = Some (stripTransient (fst ?r))
      \<and> assetEntries (fst (saveProject e w))
          = addAssetFiles (snd (saveProject e w)) (referencedAssetsOf (fst ?r))"
    by (simp add: saveProject_def Let_def case_prod_beta same)
  then show ?thesis ..
qed

definition strandedWorld :: world where
  "strandedWorld = snd (processProjectFile env0 (Zip noManifest) world0)"

text \<open>
  Claim C3, as stated, fails: a reachable key is omitted when the asset store holds no file
  for it. After a load that found no manifest the store is empty while the project still
  refers to the uploaded image \<open>u1.png\<close>; the package saved then has the two materialised
  defaults and no entry for \<open>u1.png\<close>, which its manifest refers to.
\<close>

theorem save_omits_unresolved_key:
  "map_option (\<lambda>manifest. map imageAssetKey (panels manifest))
       (projectJson (fst (saveProject env0 strandedWorld))) = Some [''u1.png'', []]
   \<and> map_option (\<lambda>manifest. ''u1.png'' \<in> reachableKeys manifest)
       (projectJson (fst (saveProject env0 strandedWorld))) = Some True
   \<and> startsWith ''u1.png'' ''default-'' = False
   \<and> map fst (assetEntries (fst (saveProject env0 strandedWorld))) = [''uuidx.png'', ''uuid.png'']
   \<and> ''u1.png'' \<notin> fst ` set (assetEntries (fst (saveProject env0 strandedWorld)))"
  by code_simp

text \<open>
  Claim C3, amended. After a save the names of the asset entries of the package are exactly
  the non-empty, non-placeholder asset keys reachable from the manifest (the rewritten copy:
  title background, title logo, end background, end logo, every panel image) for which the
  asset store holds a file. Each name occurs once, and the entry holds the bytes of that
  file. There is no entry for an unreachable key, and a reachable key is omitted only when
  the store has no file for it.
\<close>

theorem asset_entries_are_resolved_reachable_keys:
  "\<exists>manifest.
      projectJson (fst (saveProject e w)) = Some manifest
      \<and> fst ` set (assetEntries (fst (saveProject e w)))
          = {key \<in> reachableKeys manifest.
               key \<noteq> [] \<and> \<not> startsWith key ''default-''
               \<and> getAssetFile (snd (saveProject e w)) key \<noteq> None}
      \<and> distinct (map fst (assetEntries (fst (saveProject e w))))
      \<and> (\<forall>key \<in> fst ` set (assetEntries (fst (saveProject e w))).
            map_of (assetEntries (fst (saveProject e w))) key
              = map_option (\<lambda>f. FileData (fileBytes f))
                  (getAssetFile (snd (saveProject e w)) key))"
proof -
  obtain savableState where
    manifest: "projectJson (fst (saveProject e w)) = Some (stripTransient savableState)" and
    entries: "assetEntries (fst (saveProject e w))
                = addAssetFiles (snd (saveProject e w)) (referencedAssetsOf savableState)"
    using saveProject_package [of e w] by blast
  have names: "fst ` set (assetEntries (fst (saveProject e w)))
          = {key \<in> reachableKeys (stripTransient savableState).
               key \<noteq> [] \<and> \<not> startsWith key ''default-''
               \<and> getAssetFile (snd (saveProject e w)) key \<noteq> None}"
    by (auto simp add: entries names_addAssetFiles set_referencedAssetsOf
        reachableKeys_stripTransient collectable_def)
  have once: "distinct (map fst (assetEntries (fst (saveProject e w))))"
    by (simp add: entries distinct_addAssetFiles)
  have bytes: "\<forall>key \<in> fst ` set (assetEntries (fst (saveProject e w))).
            map_of (assetEntries (fst (saveProject e w))) key
              = map_option (\<lambda>f. FileData (fileBytes f))
                  (getAssetFile (snd (saveProject e w)) key)"
    by (simp add: entries names_addAssetFiles map_of_addAssetFiles)
  from manifest names once bytes show ?thesis
    by blast
qed

theorem asset_entries_are_resolved_reachable_keys_witness:
  "fst ` set (assetEntries (fst (saveProject env0 world0))) = {''uuidx.png'', ''uuid.png'', ''u1.png''}
   \<and> {key \<in> {''uuid.png'', ''uuidx.png'', ''u1.png'', []}.
          key \<noteq> [] \<and> \<not> startsWith key ''default-''
          \<and> getAssetFile (snd (saveProject env0 world0)) key \<noteq> None}
       = {''uuidx.png'', ''uuid.png'', ''u1.png''}
   \<and> getAssetFile (snd (saveProject env0 world0)) ''old.png''
       = Some \<lparr> fileName = ''old.png'', fileType = ''image/png'', fileBytes = [9] \<rparr>"
proof -
  have manifest: "map_option reachableKeys (projectJson (fst (saveProject env0 world0)))
      = Some {''uuid.png'', ''uuidx.png'', ''u1.png'', []}"
    by code_simp
  have old: "getAssetFile (snd (saveProject env0 world0)) ''old.png''
       = Some \<lparr> fileName = ''old.png'', fileType = ''image/png'', fileBytes = [9] \<rparr>"
    by code_simp
  have resolved: "{key \<in> {''uuid.png'', ''uuidx.png'', ''u1.png'', []}.
          key \<noteq> [] \<and> \<not> startsWith key ''default-''
          \<and> getAssetFile (snd (saveProject env0 world0)) key \<noteq> None}
       = {''uuidx.png'', ''uuid.png'', ''u1.png''}"
    by code_simp
  obtain m where
    m: "projectJson (fst (saveProject env0 world0)) = Some m" and
    names: "fst ` set (assetEntries (fst (saveProject env0 world0)))
          = {key \<in> reachableKeys m.
               key \<noteq> [] \<and> \<not> startsWith key ''default-''
               \<and> getAssetFile (snd (saveProject env0 world0)) key \<noteq> None}"
    using asset_entries_are_resolved_reachable_keys [of env0 world0] by blast
  from manifest have keys: "reachableKeys m = {''uuid.png'', ''uuidx.png'', ''u1.png'', []}"
    unfolding m by (simp only: option.map option.inject)
  have "fst ` set (assetEntries (fst (saveProject env0 world0)))
          = {''uuidx.png'', ''uuid.png'', ''u1.png''}"
    unfolding names keys by (rule resolved)
  with resolved old show ?thesis
    by (simp only: simp_thms)
qed

section \<open>Materialising the default placeholders\<close>

text \<open>One call of \<open>processAndMapAsset\<close>, by cases.\<close>

lemma processAndMapAsset_other:
  "\<not> startsWith key ''default-'' \<Longrightarrow>
   processAndMapAsset e key defaultPath (cache, w) = (key, cache, w)"
  by (simp add: processAndMapAsset_def)

lemma processAndMapAsset_hit:
  "startsWith key ''default-'' \<Longrightarrow> map_of cache key = Some cached \<Longrightarrow>
   processAndMapAsset e key defaultPath (cache, w) = (cached, cache, w)"
  by (simp add: processAndMapAsset_def)

lemma processAndMapAsset_failure:
  "startsWith key ''default-'' \<Longrightarrow> map_of cache key = None \<Longrightarrow>
   fetchBlob e (length (fetchLog w)) (getFetchableUrl e defaultPath) = None \<Longrightarrow>
   processAndMapAsset e key defaultPath (cache, w)
     = ([], cache, w \<lparr> fetchLog := fetchLog w @ [getFetchableUrl e defaultPath] \<rparr>)"
  by (simp add: processAndMapAsset_def Let_def)

text \<open>The file that a fetched default becomes (lines 408-409).\<close>

definition defaultFile :: "string \<Rightarrow> string \<Rightarrow> Blob \<Rightarrow> File" where
  "defaultFile key defaultPath blob =
     \<lparr> fileName = (if last (split_on (CHR ''/'') defaultPath) = [] then key
                    else last (split_on (CHR ''/'') defaultPath)),
       fileType = blobType blob, fileBytes = blobBytes blob \<rparr>"

lemma processAndMapAsset_success:
  assumes "startsWith key ''default-''" "map_of cache key = None"
    "fetchBlob e (length (fetchLog w)) (getFetchableUrl e defaultPath) = Some blob"
  shows "processAndMapAsset e key defaultPath (cache, w)
     = (uuidv4 e (uuidCount w) @ getFileExtension (fileName (defaultFile key defaultPath blob)),
        map_set key
          (uuidv4 e (uuidCount w) @ getFileExtension (fileName (defaultFile key defaultPath blob)))
          cache,
        w \<lparr> fetchLog := fetchLog w @ [getFetchableUrl e defaultPath],
            assetMap := map_set
              (uuidv4 e (uuidCount w) @ getFileExtension (fileName (defaultFile key defaultPath blob)))
              (defaultFile key defaultPath blob) (assetMap w),
            uuidCount := Suc (uuidCount w) \<rparr>)"
  using assms
  by (simp add: processAndMapAsset_def Let_def addAsset_def defaultFile_def)

text \<open>
  The calls that \<open>saveProject\<close> makes (lines 423-430), as the list of their arguments, and
  the cache and world after a list of calls.
\<close>

definition placeholderRequests :: "ProjectState \<Rightarrow> (string \<times> string) list" where
  "placeholderRequests s =
     [(backgroundImageAssetKey (titlePage s), content_assets_defaultBackgroundPath)]
     @ (case logo (titlePage s) of
          Some l \<Rightarrow> [(assetKey l, content_assets_defaultLogoPath)] | None \<Rightarrow> [])
     @ [(backgroundImageAssetKey (endPage s), content_assets_defaultBackgroundPath)]
     @ (case logo (endPage s) of
          Some l \<Rightarrow> [(assetKey l, content_assets_defaultLogoPath)] | None \<Rightarrow> [])"

definition processAll ::
  "env \<Rightarrow> (string \<times> string) list \<Rightarrow> (string \<times> string) list \<times> world
    \<Rightarrow> (string \<times> string) list \<times> world" where
  "processAll e reqs cw = fold (\<lambda>req cw. snd (processAndMapAsset e (fst req) (snd req) cw)) reqs cw"

lemma processAll_Nil: "processAll e [] cw = cw"
  by (simp add: processAll_def)

lemma processAll_Cons:
  "processAll e ((key, defaultPath) # reqs) cw
     = processAll e reqs (snd (processAndMapAsset e key defaultPath cw))"
  by (simp add: processAll_def)

lemma replaceDefaultPlaceholders_processAll:
  "snd (replaceDefaultPlaceholders e w) = processAll e (placeholderRequests (project w)) ([], w)"
  by (cases "logo (titlePage (project w))"; cases "logo (endPage (project w))")
     (simp_all add: replaceDefaultPlaceholders_def placeholderRequests_def processAll_def
        mapLogoAsset_def Let_def case_prod_beta)

lemma map_of_None_keys: "map_of m k = None \<longleftrightarrow> k \<notin> fst ` set m"
  by (simp add: map_of_eq_None_iff)

lemma new_kind_card:
  assumes "finite S" "k \<notin> C" "P k"
  shows "card ({x \<in> insert k S. P x} - C) = Suc (card ({x \<in> S. P x} - insert k C))"
proof -
  have "{x \<in> insert k S. P x} - C = insert k ({x \<in> S. P x} - insert k C)"
    using assms by auto
  moreover have "k \<notin> {x \<in> S. P x} - insert k C" by simp
  moreover have "finite ({x \<in> S. P x} - insert k C)" using assms by simp
  ultimately show ?thesis by simp
qed

lemma processAll_count:
  assumes ok: "\<forall>n url. fetchBlob e n url \<noteq> None"
  shows "length (fetchLog (snd (processAll e reqs (cache, w))))
           = length (fetchLog w)
             + card ({key \<in> fst ` set reqs. startsWith key ''default-''} - fst ` set cache)
       \<and> uuidCount (snd (processAll e reqs (cache, w)))
           = uuidCount w
             + card ({key \<in> fst ` set reqs. startsWith key ''default-''} - fst ` set cache)"
proof (induction reqs arbitrary: cache w)
  case Nil
  show ?case by (simp add: processAll_Nil)
next
  case (Cons req reqs)
  obtain key defaultPath where req: "req = (key, defaultPath)" by (cases req)
  show ?case
  proof (cases "startsWith key ''default-''")
    case False
    then have same: "{k \<in> fst ` set (req # reqs). startsWith k ''default-''}
        = {k \<in> fst ` set reqs. startsWith k ''default-''}"
      by (auto simp add: req)
    show ?thesis
      unfolding same
      by (simp add: req processAll_Cons processAndMapAsset_other [OF False] Cons.IH)
  next
    case True
    show ?thesis
    proof (cases "map_of cache key")
      case (Some cached)
      then have "key \<in> fst ` set cache"
        using map_of_None_keys [of cache key] by simp
      then have same: "{k \<in> fst ` set (req # reqs). startsWith k ''default-''} - fst ` set cache
          = {k \<in> fst ` set reqs. startsWith k ''default-''} - fst ` set cache"
        by (auto simp add: req)
      show ?thesis
        unfolding same
        by (simp add: req processAll_Cons processAndMapAsset_hit [OF True Some] Cons.IH)
    next
      case None
      then have new: "key \<notin> fst ` set cache"
        by (simp add: map_of_None_keys)
      from ok have "fetchBlob e (length (fetchLog w)) (getFetchableUrl e defaultPath) \<noteq> None"
        by blast
      then obtain blob where
        blob: "fetchBlob e (length (fetchLog w)) (getFetchableUrl e defaultPath) = Some blob"
        by auto
      have count: "card ({k \<in> fst ` set (req # reqs). startsWith k ''default-''} - fst ` set cache)
          = Suc (card ({k \<in> fst ` set reqs. startsWith k ''default-''}
                        - insert key (fst ` set cache)))"
        using new_kind_card [of "fst ` set reqs" key "fst ` set cache"
            "\<lambda>k. startsWith k ''default-''"] new True
        by (simp add: req)
      show ?thesis
        unfolding count
        by (simp add: req processAll_Cons processAndMapAsset_success [OF True None blob]
            Cons.IH keys_map_set)
    qed
  qed
qed


lemma placeholderRequests_setLoading:
  "placeholderRequests (project (setLoading b w)) = placeholderRequests (project w)"
  by (simp add: placeholderRequests_def setLoading_def temporal_set_def Let_def)

lemma saveProject_world:
  "snd (saveProject e w)
     = setLoading False (snd (processAll e (placeholderRequests (project w))
                                ([], setLoading True w)))"
  by (simp add: saveProject_def Let_def case_prod_beta
      replaceDefaultPlaceholders_processAll placeholderRequests_setLoading)

lemma saveProject_count:
  assumes "\<forall>n url. fetchBlob e n url \<noteq> None"
  shows "length (fetchLog (snd (saveProject e w)))
           = length (fetchLog w)
             + card {key \<in> fst ` set (placeholderRequests (project w)).
                       startsWith key ''default-''}
       \<and> uuidCount (snd (saveProject e w))
           = uuidCount w
             + card {key \<in> fst ` set (placeholderRequests (project w)).
                       startsWith key ''default-''}"
  using processAll_count [OF assms, of "placeholderRequests (project w)" "[]" "setLoading True w"]
  by (simp add: saveProject_world setLoading_def temporal_set_def Let_def)

text \<open>
  What one call of \<open>processAndMapAsset\<close>, or one rewriting of a logo, leaves in place:
  every file of the asset store still resolves, and every cache entry still holds.
\<close>

definition cacheExtends ::
  "(string \<times> string) list \<times> world \<Rightarrow> (string \<times> string) list \<times> world \<Rightarrow> bool" where
  "cacheExtends cw cw' \<longleftrightarrow>
     (\<forall>v. getAssetFile (snd cw) v \<noteq> None \<longrightarrow> getAssetFile (snd cw') v \<noteq> None)
     \<and> (\<forall>k v. map_of (fst cw) k = Some v \<longrightarrow> map_of (fst cw') k = Some v)"

lemma cacheExtends_refl: "cacheExtends cw cw"
  by (simp add: cacheExtends_def)

lemma cacheExtends_trans:
  "cacheExtends cw cw' \<Longrightarrow> cacheExtends cw' cw'' \<Longrightarrow> cacheExtends cw cw''"
  by (simp add: cacheExtends_def)

lemma cacheExtends_processAndMapAsset:
  "cacheExtends cw (snd (processAndMapAsset e key defaultPath cw))"
proof -
  obtain cache w where cw: "cw = (cache, w)" by (cases cw)
  show ?thesis
  proof (cases "startsWith key ''default-''")
    case False
    then show ?thesis
      by (simp add: cw processAndMapAsset_other cacheExtends_refl)
  next
    case True
    show ?thesis
    proof (cases "map_of cache key")
      case (Some cached)
      with True show ?thesis
        by (simp add: cw processAndMapAsset_hit cacheExtends_refl)
    next
      case None
      show ?thesis
      proof (cases "fetchBlob e (length (fetchLog w)) (getFetchableUrl e defaultPath)")
        case none: None
        show ?thesis
          by (simp add: cw processAndMapAsset_failure [OF True None none] cacheExtends_def
              getAssetFile_def)
      next
        case (Some blob)
        show ?thesis
          using None
          by (simp add: cw processAndMapAsset_success [OF True None Some] cacheExtends_def
              getAssetFile_def map_of_map_set)
      qed
    qed
  qed
qed

lemma cacheExtends_mapLogoAsset: "cacheExtends cw (snd (mapLogoAsset e l cw))"
  by (cases l)
     (simp_all add: mapLogoAsset_def case_prod_beta cacheExtends_refl
        cacheExtends_processAndMapAsset)

text \<open>A reference that is not a placeholder is kept.\<close>

lemma processAndMapAsset_keeps:
  "\<not> startsWith key ''default-'' \<Longrightarrow> fst (processAndMapAsset e key defaultPath cw) = key"
  by (cases cw) (simp add: processAndMapAsset_other)

text \<open>
  When its fetch is not rejected, a placeholder is rewritten to the key that the cache
  holds for it afterwards.
\<close>

lemma processAndMapAsset_cached:
  assumes "startsWith key ''default-''" "\<forall>n url. fetchBlob e n url \<noteq> None"
  shows "map_of (fst (snd (processAndMapAsset e key defaultPath cw))) key
           = Some (fst (processAndMapAsset e key defaultPath cw))"
proof -
  obtain cache w where cw: "cw = (cache, w)" by (cases cw)
  show ?thesis
  proof (cases "map_of cache key")
    case (Some cached)
    then show ?thesis
      by (simp add: cw processAndMapAsset_hit [OF assms(1) Some])
  next
    case None
    from assms(2)
    have "fetchBlob e (length (fetchLog w)) (getFetchableUrl e defaultPath) \<noteq> None"
      by blast
    then obtain blob where
      blob: "fetchBlob e (length (fetchLog w)) (getFetchableUrl e defaultPath) = Some blob"
      by auto
    show ?thesis
      by (simp add: cw processAndMapAsset_success [OF assms(1) None blob] map_of_map_set)
  qed
qed

text \<open>Every key in the cache resolves in the asset store.\<close>

definition cacheRegistered :: "(string \<times> string) list \<times> world \<Rightarrow> bool" where
  "cacheRegistered cw \<longleftrightarrow>
     (\<forall>k v. map_of (fst cw) k = Some v \<longrightarrow> getAssetFile (snd cw) v \<noteq> None)"

lemma cacheRegistered_processAndMapAsset:
  assumes "cacheRegistered cw"
  shows "cacheRegistered (snd (processAndMapAsset e key defaultPath cw))"
proof -
  obtain cache w where cw: "cw = (cache, w)" by (cases cw)
  show ?thesis
  proof (cases "startsWith key ''default-''")
    case False
    then show ?thesis
      using assms by (simp add: cw processAndMapAsset_other)
  next
    case True
    show ?thesis
    proof (cases "map_of cache key")
      case (Some cached)
      with True show ?thesis
        using assms by (simp add: cw processAndMapAsset_hit)
    next
      case None
      show ?thesis
      proof (cases "fetchBlob e (length (fetchLog w)) (getFetchableUrl e defaultPath)")
        case none: None
        show ?thesis
          using assms
          by (simp add: cw processAndMapAsset_failure [OF True None none] cacheRegistered_def
              getAssetFile_def)
      next
        case (Some blob)
        show ?thesis
          using assms
          by (simp add: cw processAndMapAsset_success [OF True None Some] cacheRegistered_def
              getAssetFile_def map_of_map_set)
      qed
    qed
  qed
qed

lemma cacheRegistered_mapLogoAsset:
  "cacheRegistered cw \<Longrightarrow> cacheRegistered (snd (mapLogoAsset e l cw))"
  by (cases l)
     (simp_all add: mapLogoAsset_def case_prod_beta cacheRegistered_processAndMapAsset)


text \<open>The key that \<open>saveProject\<close> writes into a logo (lines 424-426, 428-430).\<close>

definition rewrittenLogoKey ::
  "env \<Rightarrow> Logo option \<Rightarrow> (string \<times> string) list \<times> world \<Rightarrow> string" where
  "rewrittenLogoKey e l cw =
     (case l of
        Some lg \<Rightarrow> fst (processAndMapAsset e (assetKey lg) content_assets_defaultLogoPath cw)
      | None \<Rightarrow> [])"

lemma fst_mapLogoAsset:
  "fst (mapLogoAsset e l cw) = map_option (\<lambda>lg. lg \<lparr> assetKey := rewrittenLogoKey e l cw \<rparr>) l"
  by (cases l) (simp_all add: mapLogoAsset_def rewrittenLogoKey_def case_prod_beta)

lemma snd_mapLogoAsset:
  "snd (mapLogoAsset e (Some lg) cw)
     = snd (processAndMapAsset e (assetKey lg) content_assets_defaultLogoPath cw)"
  by (simp add: mapLogoAsset_def case_prod_beta)


text \<open>With every fetch rejected the cache stays empty and a placeholder becomes empty.\<close>

lemma processAndMapAsset_rejected:
  assumes "\<forall>n url. fetchBlob e n url = None"
  shows "fst (snd (processAndMapAsset e key defaultPath ([], w))) = []
    \<and> (startsWith key ''default-'' \<longrightarrow> fst (processAndMapAsset e key defaultPath ([], w)) = [])"
proof (cases "startsWith key ''default-''")
  case False
  then show ?thesis
    by (simp add: processAndMapAsset_other)
next
  case True
  have miss: "map_of ([] :: (string \<times> string) list) key = None"
    by simp
  from assms
  have none: "fetchBlob e (length (fetchLog w)) (getFetchableUrl e defaultPath) = None"
    by blast
  show ?thesis
    by (simp add: processAndMapAsset_failure [OF True miss none] True)
qed

lemma mapLogoAsset_rejected:
  assumes "\<forall>n url. fetchBlob e n url = None"
  shows "fst (snd (mapLogoAsset e l ([], w))) = []
    \<and> (\<forall>lg. l = Some lg \<and> startsWith (assetKey lg) ''default-''
          \<longrightarrow> rewrittenLogoKey e l ([], w) = [])"
  using processAndMapAsset_rejected [OF assms]
  by (cases l) (simp_all add: mapLogoAsset_def rewrittenLogoKey_def case_prod_beta)

lemma project_setLoading: "project (setLoading b w) = (project w) \<lparr> isLoading := b \<rparr>"
  by (simp add: setLoading_def temporal_set_def Let_def)

lemma getAssetFile_setLoading: "getAssetFile (setLoading b w) = getAssetFile w"
  by (simp add: setLoading_def temporal_set_def Let_def getAssetFile_def fun_eq_iff)

text \<open>
  One save, call by call: the four calls of \<open>processAndMapAsset\<close> in their order, through
  one cache; the manifest has the keys they return; the world after the save is the world
  after the last call, with the loading flag reset. A reference that is not a placeholder
  is kept; when no fetch is rejected, a placeholder is rewritten to a key that resolves in
  the asset store, and equal placeholders of the two pages to the same key; when every
  fetch is rejected, every placeholder is rewritten to the empty key.
\<close>

lemma saveProject_rewrites:
  fixes e :: env and w :: world
  defines "S \<equiv> project w"
    and "saved \<equiv> saveProject e w"
  shows "\<exists>titleBg titleLogo endBg endLogo cw1 cw2 cw3 cw4.
      processAndMapAsset e (backgroundImageAssetKey (titlePage S)) content_assets_defaultBackgroundPath
          ([], setLoading True w) = (titleBg, cw1)
      \<and> (case logo (titlePage S) of
         Some lg \<Rightarrow>
           processAndMapAsset e (assetKey lg) content_assets_defaultLogoPath cw1 = (titleLogo, cw2)
       | None \<Rightarrow> cw2 = cw1)
      \<and> processAndMapAsset e (backgroundImageAssetKey (endPage S)) content_assets_defaultBackgroundPath
          cw2 = (endBg, cw3)
      \<and> (case logo (endPage S) of
         Some lg \<Rightarrow>
           processAndMapAsset e (assetKey lg) content_assets_defaultLogoPath cw3 = (endLogo, cw4)
       | None \<Rightarrow> cw4 = cw3)
      \<and> projectJson (fst saved)
        = Some (stripTransient
            (S \<lparr> titlePage := (titlePage S)
                  \<lparr> backgroundImageAssetKey := titleBg,
                    logo := map_option (\<lambda>lg. lg \<lparr> assetKey := titleLogo \<rparr>) (logo (titlePage S)) \<rparr>,
                endPage := (endPage S)
                  \<lparr> backgroundImageAssetKey := endBg,
                    logo := map_option (\<lambda>lg. lg \<lparr> assetKey := endLogo \<rparr>) (logo (endPage S)) \<rparr> \<rparr>))
      \<and> snd saved = setLoading False (snd cw4)
      \<and> (\<not> startsWith (backgroundImageAssetKey (titlePage S)) ''default-''
           \<longrightarrow> titleBg = backgroundImageAssetKey (titlePage S))
      \<and> (\<not> startsWith (backgroundImageAssetKey (endPage S)) ''default-''
           \<longrightarrow> endBg = backgroundImageAssetKey (endPage S))
      \<and> (\<forall>lg. logo (titlePage S) = Some lg \<and> \<not> startsWith (assetKey lg) ''default-''
           \<longrightarrow> titleLogo = assetKey lg)
      \<and> (\<forall>lg. logo (endPage S) = Some lg \<and> \<not> startsWith (assetKey lg) ''default-''
           \<longrightarrow> endLogo = assetKey lg)
      \<and> ((\<forall>n url. fetchBlob e n url \<noteq> None) \<longrightarrow>
            (startsWith (backgroundImageAssetKey (titlePage S)) ''default-''
               \<longrightarrow> getAssetFile (snd saved) titleBg \<noteq> None)
          \<and> (startsWith (backgroundImageAssetKey (endPage S)) ''default-''
               \<longrightarrow> getAssetFile (snd saved) endBg \<noteq> None)
          \<and> (\<forall>lg. logo (titlePage S) = Some lg \<and> startsWith (assetKey lg) ''default-''
               \<longrightarrow> getAssetFile (snd saved) titleLogo \<noteq> None)
          \<and> (\<forall>lg. logo (endPage S) = Some lg \<and> startsWith (assetKey lg) ''default-''
               \<longrightarrow> getAssetFile (snd saved) endLogo \<noteq> None)
          \<and> (backgroundImageAssetKey (titlePage S) = backgroundImageAssetKey (endPage S)
               \<longrightarrow> titleBg = endBg)
          \<and> (\<forall>lg lg'. logo (titlePage S) = Some lg \<and> logo (endPage S) = Some lg'
                 \<and> assetKey lg = assetKey lg'
               \<longrightarrow> titleLogo = endLogo))
      \<and> ((\<forall>n url. fetchBlob e n url = None) \<longrightarrow>
            (startsWith (backgroundImageAssetKey (titlePage S)) ''default-'' \<longrightarrow> titleBg = [])
          \<and> (startsWith (backgroundImageAssetKey (endPage S)) ''default-'' \<longrightarrow> endBg = [])
          \<and> (\<forall>lg. logo (titlePage S) = Some lg \<and> startsWith (assetKey lg) ''default-''
               \<longrightarrow> titleLogo = [])
          \<and> (\<forall>lg. logo (endPage S) = Some lg \<and> startsWith (assetKey lg) ''default-''
               \<longrightarrow> endLogo = []))"
proof -
  let ?bgPath = content_assets_defaultBackgroundPath
  let ?logoPath = content_assets_defaultLogoPath
  let ?bgT = "backgroundImageAssetKey (titlePage S)"
  let ?bgE = "backgroundImageAssetKey (endPage S)"
  let ?cw0 = "([] :: (string \<times> string) list, setLoading True w)"
  define titleBg where "titleBg = fst (processAndMapAsset e ?bgT ?bgPath ?cw0)"
  define cw1 where "cw1 = snd (processAndMapAsset e ?bgT ?bgPath ?cw0)"
  define titleLogo where "titleLogo = rewrittenLogoKey e (logo (titlePage S)) cw1"
  define cw2 where "cw2 = snd (mapLogoAsset e (logo (titlePage S)) cw1)"
  define endBg where "endBg = fst (processAndMapAsset e ?bgE ?bgPath cw2)"
  define cw3 where "cw3 = snd (processAndMapAsset e ?bgE ?bgPath cw2)"
  define endLogo where "endLogo = rewrittenLogoKey e (logo (endPage S)) cw3"
  define cw4 where "cw4 = snd (mapLogoAsset e (logo (endPage S)) cw3)"
  have S0: "project (setLoading True w) = S \<lparr> isLoading := True \<rparr>"
    by (simp add: S_def project_setLoading)
  have c1: "processAndMapAsset e (backgroundImageAssetKey (titlePage S)) content_assets_defaultBackgroundPath
          ([], setLoading True w) = (titleBg, cw1)"
    by (simp add: titleBg_def cw1_def)
  have c2: "(case logo (titlePage S) of
         Some lg \<Rightarrow>
           processAndMapAsset e (assetKey lg) content_assets_defaultLogoPath cw1 = (titleLogo, cw2)
       | None \<Rightarrow> cw2 = cw1)"
    by (cases "logo (titlePage S)")
       (simp_all add: titleLogo_def cw2_def rewrittenLogoKey_def mapLogoAsset_def case_prod_beta)
  have c3: "processAndMapAsset e (backgroundImageAssetKey (endPage S)) content_assets_defaultBackgroundPath
          cw2 = (endBg, cw3)"
    by (simp add: endBg_def cw3_def)
  have c4: "(case logo (endPage S) of
         Some lg \<Rightarrow>
           processAndMapAsset e (assetKey lg) content_assets_defaultLogoPath cw3 = (endLogo, cw4)
       | None \<Rightarrow> cw4 = cw3)"
    by (cases "logo (endPage S)")
       (simp_all add: endLogo_def cw4_def rewrittenLogoKey_def mapLogoAsset_def case_prod_beta)
  have replaced: "replaceDefaultPlaceholders e (setLoading True w)
        = ((S \<lparr> isLoading := True \<rparr>)
             \<lparr> titlePage := (titlePage S)
                 \<lparr> backgroundImageAssetKey := titleBg,
                   logo := map_option (\<lambda>lg. lg \<lparr> assetKey := titleLogo \<rparr>) (logo (titlePage S)) \<rparr>,
               endPage := (endPage S)
                 \<lparr> backgroundImageAssetKey := endBg,
                   logo := map_option (\<lambda>lg. lg \<lparr> assetKey := endLogo \<rparr>) (logo (endPage S)) \<rparr> \<rparr>,
           cw4)"
    by (simp add: replaceDefaultPlaceholders_def Let_def case_prod_beta fst_mapLogoAsset
        S0 titleBg_def cw1_def titleLogo_def cw2_def endBg_def cw3_def endLogo_def cw4_def)
  have manifest: "projectJson (fst saved)
        = Some (stripTransient
            (S \<lparr> titlePage := (titlePage S)
                  \<lparr> backgroundImageAssetKey := titleBg,
                    logo := map_option (\<lambda>lg. lg \<lparr> assetKey := titleLogo \<rparr>) (logo (titlePage S)) \<rparr>,
                endPage := (endPage S)
                  \<lparr> backgroundImageAssetKey := endBg,
                    logo := map_option (\<lambda>lg. lg \<lparr> assetKey := endLogo \<rparr>) (logo (endPage S)) \<rparr> \<rparr>))"
    by (simp add: saved_def saveProject_def Let_def case_prod_beta replaced stripTransient_def)
  have after: "snd saved = setLoading False (snd cw4)"
    by (simp add: saved_def saveProject_def Let_def case_prod_beta replaced)
  have store: "getAssetFile (snd saved) = getAssetFile (snd cw4)"
    by (simp add: after getAssetFile_setLoading)
  have e01: "cacheExtends ?cw0 cw1"
    unfolding cw1_def by (rule cacheExtends_processAndMapAsset)
  have e12: "cacheExtends cw1 cw2"
    unfolding cw2_def by (rule cacheExtends_mapLogoAsset)
  have e23: "cacheExtends cw2 cw3"
    unfolding cw3_def by (rule cacheExtends_processAndMapAsset)
  have e34: "cacheExtends cw3 cw4"
    unfolding cw4_def by (rule cacheExtends_mapLogoAsset)
  have e14: "cacheExtends cw1 cw4"
    using e12 e23 e34 by (blast intro: cacheExtends_trans)
  have e24: "cacheExtends cw2 cw4"
    using e23 e34 by (blast intro: cacheExtends_trans)
  have r0: "cacheRegistered ?cw0"
    by (simp add: cacheRegistered_def)
  have r1: "cacheRegistered cw1"
    unfolding cw1_def using r0 by (rule cacheRegistered_processAndMapAsset)
  have r2: "cacheRegistered cw2"
    unfolding cw2_def using r1 by (rule cacheRegistered_mapLogoAsset)
  have r3: "cacheRegistered cw3"
    unfolding cw3_def using r2 by (rule cacheRegistered_processAndMapAsset)
  have r4: "cacheRegistered cw4"
    unfolding cw4_def using r3 by (rule cacheRegistered_mapLogoAsset)
  have resolves: "getAssetFile (snd saved) v \<noteq> None"
    if "map_of (fst cw) k = Some v" "cacheExtends cw cw4" for cw k v
    unfolding store using that r4 by (simp add: cacheExtends_def cacheRegistered_def) blast
  have keepTitleBg: "\<not> startsWith (backgroundImageAssetKey (titlePage S)) ''default-''
           \<longrightarrow> titleBg = backgroundImageAssetKey (titlePage S)"
    by (simp add: titleBg_def processAndMapAsset_keeps)
  have keepEndBg: "\<not> startsWith (backgroundImageAssetKey (endPage S)) ''default-''
           \<longrightarrow> endBg = backgroundImageAssetKey (endPage S)"
    by (simp add: endBg_def processAndMapAsset_keeps)
  have keepTitleLogo: "\<forall>lg. logo (titlePage S) = Some lg \<and> \<not> startsWith (assetKey lg) ''default-''
           \<longrightarrow> titleLogo = assetKey lg"
    by (simp add: titleLogo_def rewrittenLogoKey_def processAndMapAsset_keeps)
  have keepEndLogo: "\<forall>lg. logo (endPage S) = Some lg \<and> \<not> startsWith (assetKey lg) ''default-''
           \<longrightarrow> endLogo = assetKey lg"
    by (simp add: endLogo_def rewrittenLogoKey_def processAndMapAsset_keeps)
  have materialised: "(\<forall>n url. fetchBlob e n url \<noteq> None) \<longrightarrow>
            (startsWith (backgroundImageAssetKey (titlePage S)) ''default-''
               \<longrightarrow> getAssetFile (snd saved) titleBg \<noteq> None)
          \<and> (startsWith (backgroundImageAssetKey (endPage S)) ''default-''
               \<longrightarrow> getAssetFile (snd saved) endBg \<noteq> None)
          \<and> (\<forall>lg. logo (titlePage S) = Some lg \<and> startsWith (assetKey lg) ''default-''
               \<longrightarrow> getAssetFile (snd saved) titleLogo \<noteq> None)
          \<and> (\<forall>lg. logo (endPage S) = Some lg \<and> startsWith (assetKey lg) ''default-''
               \<longrightarrow> getAssetFile (snd saved) endLogo \<noteq> None)
          \<and> (backgroundImageAssetKey (titlePage S) = backgroundImageAssetKey (endPage S)
               \<longrightarrow> titleBg = endBg)
          \<and> (\<forall>lg lg'. logo (titlePage S) = Some lg \<and> logo (endPage S) = Some lg'
                 \<and> assetKey lg = assetKey lg'
               \<longrightarrow> titleLogo = endLogo)"
  proof (rule impI)
    assume ok: "\<forall>n url. fetchBlob e n url \<noteq> None"
    have k1: "map_of (fst cw1) ?bgT = Some titleBg" if "startsWith ?bgT ''default-''"
      unfolding cw1_def titleBg_def using that ok by (rule processAndMapAsset_cached)
    have k3: "map_of (fst cw3) ?bgE = Some endBg" if "startsWith ?bgE ''default-''"
      unfolding cw3_def endBg_def using that ok by (rule processAndMapAsset_cached)
    have k2: "map_of (fst cw2) (assetKey lg) = Some titleLogo"
      if "logo (titlePage S) = Some lg" "startsWith (assetKey lg) ''default-''" for lg
      using processAndMapAsset_cached [OF that(2) ok, of ?logoPath cw1]
      by (simp add: cw2_def titleLogo_def that(1) snd_mapLogoAsset rewrittenLogoKey_def)
    have k4: "map_of (fst cw4) (assetKey lg) = Some endLogo"
      if "logo (endPage S) = Some lg" "startsWith (assetKey lg) ''default-''" for lg
      using processAndMapAsset_cached [OF that(2) ok, of ?logoPath cw3]
      by (simp add: cw4_def endLogo_def that(1) snd_mapLogoAsset rewrittenLogoKey_def)
    have m1: "startsWith (backgroundImageAssetKey (titlePage S)) ''default-''
               \<longrightarrow> getAssetFile (snd saved) titleBg \<noteq> None"
      using k1 e14 resolves by blast
    have m3: "startsWith (backgroundImageAssetKey (endPage S)) ''default-''
               \<longrightarrow> getAssetFile (snd saved) endBg \<noteq> None"
      using k3 e34 resolves by blast
    have m2: "\<forall>lg. logo (titlePage S) = Some lg \<and> startsWith (assetKey lg) ''default-''
               \<longrightarrow> getAssetFile (snd saved) titleLogo \<noteq> None"
      using k2 e24 resolves by blast
    have m4: "\<forall>lg. logo (endPage S) = Some lg \<and> startsWith (assetKey lg) ''default-''
               \<longrightarrow> getAssetFile (snd saved) endLogo \<noteq> None"
      using k4 resolves cacheExtends_refl by blast
    have sameBg: "backgroundImageAssetKey (titlePage S) = backgroundImageAssetKey (endPage S)
               \<longrightarrow> titleBg = endBg"
    proof (rule impI)
      assume same: "?bgT = ?bgE"
      show "titleBg = endBg"
      proof (cases "startsWith ?bgT ''default-''")
        case False
        then show ?thesis
          using keepTitleBg keepEndBg same by simp
      next
        case True
        obtain cache2 w2 where cw2: "cw2 = (cache2, w2)" by (cases cw2)
        from k1 [OF True] e12 have "map_of cache2 ?bgE = Some titleBg"
          by (simp add: cacheExtends_def cw2 same)
        then show ?thesis
          using True same by (simp add: endBg_def cw2 processAndMapAsset_hit)
      qed
    qed
    have sameLogo: "\<forall>lg lg'. logo (titlePage S) = Some lg \<and> logo (endPage S) = Some lg'
                 \<and> assetKey lg = assetKey lg'
               \<longrightarrow> titleLogo = endLogo"
    proof (intro allI impI)
      fix lg lg'
      assume both: "logo (titlePage S) = Some lg \<and> logo (endPage S) = Some lg'
                 \<and> assetKey lg = assetKey lg'"
      show "titleLogo = endLogo"
      proof (cases "startsWith (assetKey lg) ''default-''")
        case False
        then show ?thesis
          using keepTitleLogo keepEndLogo both by simp
      next
        case True
        obtain cache3 w3 where cw3: "cw3 = (cache3, w3)" by (cases cw3)
        from both have titleLg: "logo (titlePage S) = Some lg" by simp
        from k2 [OF titleLg True] e23 both
        have "map_of cache3 (assetKey lg') = Some titleLogo"
          by (simp add: cacheExtends_def cw3)
        then show ?thesis
          using True both
          by (simp add: endLogo_def rewrittenLogoKey_def cw3 processAndMapAsset_hit)
      qed
    qed
    show "(startsWith (backgroundImageAssetKey (titlePage S)) ''default-''
               \<longrightarrow> getAssetFile (snd saved) titleBg \<noteq> None)
          \<and> (startsWith (backgroundImageAssetKey (endPage S)) ''default-''
               \<longrightarrow> getAssetFile (snd saved) endBg \<noteq> None)
          \<and> (\<forall>lg. logo (titlePage S) = Some lg \<and> startsWith (assetKey lg) ''default-''
               \<longrightarrow> getAssetFile (snd saved) titleLogo \<noteq> None)
          \<and> (\<forall>lg. logo (endPage S) = Some lg \<and> startsWith (assetKey lg) ''default-''
               \<longrightarrow> getAssetFile (snd saved) endLogo \<noteq> None)
          \<and> (backgroundImageAssetKey (titlePage S) = backgroundImageAssetKey (endPage S)
               \<longrightarrow> titleBg = endBg)
          \<and> (\<forall>lg lg'. logo (titlePage S) = Some lg \<and> logo (endPage S) = Some lg'
                 \<and> assetKey lg = assetKey lg'
               \<longrightarrow> titleLogo = endLogo)"
      by (rule conjI [OF m1 conjI [OF m3 conjI [OF m2 conjI [OF m4 conjI [OF sameBg sameLogo]]]]])
  qed
  have emptied: "(\<forall>n url. fetchBlob e n url = None) \<longrightarrow>
            (startsWith (backgroundImageAssetKey (titlePage S)) ''default-'' \<longrightarrow> titleBg = [])
          \<and> (startsWith (backgroundImageAssetKey (endPage S)) ''default-'' \<longrightarrow> endBg = [])
          \<and> (\<forall>lg. logo (titlePage S) = Some lg \<and> startsWith (assetKey lg) ''default-''
               \<longrightarrow> titleLogo = [])
          \<and> (\<forall>lg. logo (endPage S) = Some lg \<and> startsWith (assetKey lg) ''default-''
               \<longrightarrow> endLogo = [])"
  proof (rule impI)
    assume off: "\<forall>n url. fetchBlob e n url = None"
    note call = processAndMapAsset_rejected [OF off]
    note logoCall = mapLogoAsset_rejected [OF off]
    have n1: "fst cw1 = []"
      unfolding cw1_def using call by blast
    then obtain w1 where cw1: "cw1 = ([], w1)" by (cases cw1) simp
    have n2: "fst cw2 = []"
      unfolding cw2_def cw1 using logoCall by blast
    then obtain w2 where cw2: "cw2 = ([], w2)" by (cases cw2) simp
    have n3: "fst cw3 = []"
      unfolding cw3_def cw2 using call by blast
    then obtain w3 where cw3: "cw3 = ([], w3)" by (cases cw3) simp
    have f1: "startsWith (backgroundImageAssetKey (titlePage S)) ''default-'' \<longrightarrow> titleBg = []"
      unfolding titleBg_def using call by blast
    have f2: "startsWith (backgroundImageAssetKey (endPage S)) ''default-'' \<longrightarrow> endBg = []"
      unfolding endBg_def cw2 using call by blast
    have f3: "\<forall>lg. logo (titlePage S) = Some lg \<and> startsWith (assetKey lg) ''default-''
               \<longrightarrow> titleLogo = []"
      unfolding titleLogo_def cw1 using logoCall by blast
    have f4: "\<forall>lg. logo (endPage S) = Some lg \<and> startsWith (assetKey lg) ''default-''
               \<longrightarrow> endLogo = []"
      unfolding endLogo_def cw3 using logoCall by blast
    show "(startsWith (backgroundImageAssetKey (titlePage S)) ''default-'' \<longrightarrow> titleBg = [])
          \<and> (startsWith (backgroundImageAssetKey (endPage S)) ''default-'' \<longrightarrow> endBg = [])
          \<and> (\<forall>lg. logo (titlePage S) = Some lg \<and> startsWith (assetKey lg) ''default-''
               \<longrightarrow> titleLogo = [])
          \<and> (\<forall>lg. logo (endPage S) = Some lg \<and> startsWith (assetKey lg) ''default-''
               \<longrightarrow> endLogo = [])"
      by (rule conjI [OF f1 conjI [OF f2 conjI [OF f3 f4]]])
  qed
  note allFacts = conjI [OF c1 conjI [OF c2 conjI [OF c3 conjI [OF c4 conjI [OF manifest conjI [OF after conjI [OF keepTitleBg conjI [OF keepEndBg conjI [OF keepTitleLogo conjI [OF keepEndLogo conjI [OF materialised emptied]]]]]]]]]]]
  show ?thesis
    by (intro exI) (rule allFacts)
qed

lemma saveProject_manifest:
  "projectJson (fst (saveProject e w))
     = Some (stripTransient (fst (replaceDefaultPlaceholders e (setLoading True w))))"
  by (simp add: saveProject_def Let_def case_prod_beta)

lemma getAssetFile_saveProject:
  "getAssetFile (snd (saveProject e w))
     = getAssetFile (snd (snd (replaceDefaultPlaceholders e (setLoading True w))))"
  by (simp add: saveProject_def Let_def case_prod_beta getAssetFile_def setLoading_def temporal_set_def Let_def
      fun_eq_iff)

lemma stripTransient_idem: "stripTransient (stripTransient s) = stripTransient s"
proof -
  have "map_option ((\<lambda>l. l \<lparr> src := [] \<rparr>) \<circ> (\<lambda>l. l \<lparr> src := [] \<rparr>)) l
      = map_option (\<lambda>l. l \<lparr> src := [] \<rparr>) l" for l :: "Logo option"
    by (cases l) simp_all
  then show ?thesis
    by (simp add: stripTransient_def option.map_comp comp_def)
qed


lemma projectTitle_stripTransient: "projectTitle (stripTransient s) = projectTitle s"
  by (simp add: stripTransient_def)

lemma header_stripTransient: "header (titlePage (stripTransient s)) = header (titlePage s)"
  by (simp add: stripTransient_def)



text \<open>With every fetch rejected, one fetch for each placeholder reference, in order.\<close>

lemma processAll_rejected:
  assumes "\<forall>n url. fetchBlob e n url = None"
  shows "processAll e reqs ([], w)
     = ([], w \<lparr> fetchLog := fetchLog w
                   @ map (\<lambda>req. getFetchableUrl e (snd req))
                       (filter (\<lambda>req. startsWith (fst req) ''default-'') reqs) \<rparr>)"
proof (induction reqs arbitrary: w)
  case Nil
  show ?case by (simp add: processAll_Nil)
next
  case (Cons req reqs)
  obtain key defaultPath where req: "req = (key, defaultPath)" by (cases req)
  show ?case
  proof (cases "startsWith key ''default-''")
    case False
    then show ?thesis
      by (simp add: req processAll_Cons processAndMapAsset_other Cons.IH)
  next
    case True
    have miss: "map_of ([] :: (string \<times> string) list) key = None"
      by simp
    from assms
    have none: "fetchBlob e (length (fetchLog w)) (getFetchableUrl e defaultPath) = None"
      by blast
    show ?thesis
      by (simp add: req processAll_Cons processAndMapAsset_failure [OF True miss none]
          Cons.IH True)
  qed
qed

lemma saveProject_rejected:
  assumes "\<forall>n url. fetchBlob e n url = None"
  shows "fetchLog (snd (saveProject e w))
      = fetchLog w
        @ map (\<lambda>req. getFetchableUrl e (snd req))
            (filter (\<lambda>req. startsWith (fst req) ''default-'')
               (placeholderRequests (project w)))
    \<and> assetMap (snd (saveProject e w)) = assetMap w
    \<and> uuidCount (snd (saveProject e w)) = uuidCount w"
  by (simp add: saveProject_world processAll_rejected [OF assms] setLoading_def
      temporal_set_def Let_def)

text \<open>An environment in which every fetch is rejected.\<close>

definition offlineEnv :: env where
  "offlineEnv = env0 \<lparr> fetchBlob := (\<lambda>n url. None) \<rparr>"

text \<open>
  Claim C4, as stated, fails: a rejected fetch is not cached, so the same placeholder is
  fetched again at its next reference. With every fetch rejected, one save of the example
  project (default background and default logo on both pages) fetches each of the two
  defaults twice, and all four references become empty.
\<close>

theorem failed_fetch_is_repeated:
  "map fst (placeholderRequests (project world0))
     = [''default-background'', ''default-logo'', ''default-background'', ''default-logo'']
   \<and> fetchLog world0 = []
   \<and> fetchLog (snd (saveProject offlineEnv world0))
       = [''/images/default_BG.png'', ''/images/default_logo.png'',
          ''/images/default_BG.png'', ''/images/default_logo.png'']
   \<and> map_option (\<lambda>manifest.
          [backgroundImageAssetKey (titlePage manifest),
           backgroundImageAssetKey (endPage manifest)])
        (projectJson (fst (saveProject offlineEnv world0))) = Some [[], []]
   \<and> map_option (\<lambda>manifest.
          [map_option assetKey (logo (titlePage manifest)),
           map_option assetKey (logo (endPage manifest))])
        (projectJson (fst (saveProject offlineEnv world0))) = Some [Some [], Some []]"
  by code_simp


text \<open>
  Claim C4, amended. One save makes the four calls of \<open>processAndMapAsset\<close> in the order
  title background, title logo, end background, end logo (a logo call only when the page
  has a logo), threading one cache keyed by the placeholder through them, and writes the
  key that each call returns into the manifest at that reference. A call for a reference
  that is not a placeholder returns it, with no effect; a call for a placeholder found in
  the cache returns the cached key, with no fetch and no registration; a call for a
  placeholder not in the cache fetches once, and when the fetch succeeds its bytes are
  registered in the asset store under a new key, the new key is cached and returned; when
  the fetch fails the call returns the empty key, nothing is cached or registered, and the
  save goes on with the next call and produces its package. So a rejected fetch leaves the
  placeholder out of the cache, and its next reference fetches again: when every fetch
  fails, one save makes one fetch for each placeholder reference and every placeholder
  reference of the manifest is empty. When no fetch fails, one save makes exactly one fetch
  and one registration per distinct placeholder among these references, every placeholder
  reference of the manifest is a key that resolves in the asset store, and equal
  placeholders get the same key.
\<close>

theorem default_placeholders_materialised:
  fixes e :: env and w w' :: world
  defines "S \<equiv> project w"
    and "saved \<equiv> saveProject e w"
  shows "(\<not> startsWith key ''default-'' \<longrightarrow>
      processAndMapAsset e key defaultPath (cache, w') = (key, cache, w'))
   \<and> (startsWith key ''default-'' \<and> map_of cache key = Some cached \<longrightarrow>
      processAndMapAsset e key defaultPath (cache, w') = (cached, cache, w'))
   \<and> (startsWith key ''default-'' \<and> map_of cache key = None
       \<and> fetchBlob e (length (fetchLog w')) (getFetchableUrl e defaultPath) = Some blob \<longrightarrow>
      (let newAssetKey = fst (processAndMapAsset e key defaultPath (cache, w'));
           cache' = fst (snd (processAndMapAsset e key defaultPath (cache, w')));
           world' = snd (snd (processAndMapAsset e key defaultPath (cache, w')))
       in newAssetKey
            = uuidv4 e (uuidCount w')
              @ getFileExtension (fileName (defaultFile key defaultPath blob))
          \<and> getAssetFile world' newAssetKey = Some (defaultFile key defaultPath blob)
          \<and> map_of cache' key = Some newAssetKey
          \<and> fetchLog world' = fetchLog w' @ [getFetchableUrl e defaultPath]
          \<and> uuidCount world' = Suc (uuidCount w')))
   \<and> (startsWith key ''default-'' \<and> map_of cache key = None
       \<and> fetchBlob e (length (fetchLog w')) (getFetchableUrl e defaultPath) = None \<longrightarrow>
      processAndMapAsset e key defaultPath (cache, w')
        = ([], cache, w' \<lparr> fetchLog := fetchLog w' @ [getFetchableUrl e defaultPath] \<rparr>))
   \<and> (\<exists>titleBg titleLogo endBg endLogo cw1 cw2 cw3 cw4.
      processAndMapAsset e (backgroundImageAssetKey (titlePage S)) content_assets_defaultBackgroundPath
          ([], setLoading True w) = (titleBg, cw1)
      \<and> (case logo (titlePage S) of
         Some lg \<Rightarrow>
           processAndMapAsset e (assetKey lg) content_assets_defaultLogoPath cw1 = (titleLogo, cw2)
       | None \<Rightarrow> cw2 = cw1)
      \<and> processAndMapAsset e (backgroundImageAssetKey (endPage S)) content_assets_defaultBackgroundPath
          cw2 = (endBg, cw3)
      \<and> (case logo (endPage S) of
         Some lg \<Rightarrow>
           processAndMapAsset e (assetKey lg) content_assets_defaultLogoPath cw3 = (endLogo, cw4)
       | None \<Rightarrow> cw4 = cw3)
      \<and> projectJson (fst saved)
        = Some (stripTransient
            (S \<lparr> titlePage := (titlePage S)
                  \<lparr> backgroundImageAssetKey := titleBg,
                    logo := map_option (\<lambda>lg. lg \<lparr> assetKey := titleLogo \<rparr>) (logo (titlePage S)) \<rparr>,
                endPage := (endPage S)
                  \<lparr> backgroundImageAssetKey := endBg,
                    logo := map_option (\<lambda>lg. lg \<lparr> assetKey := endLogo \<rparr>) (logo (endPage S)) \<rparr> \<rparr>))
      \<and> snd saved = setLoading False (snd cw4)
      \<and> (\<not> startsWith (backgroundImageAssetKey (titlePage S)) ''default-''
           \<longrightarrow> titleBg = backgroundImageAssetKey (titlePage S))
      \<and> (\<not> startsWith (backgroundImageAssetKey (endPage S)) ''default-''
           \<longrightarrow> endBg = backgroundImageAssetKey (endPage S))
      \<and> (\<forall>lg. logo (titlePage S) = Some lg \<and> \<not> startsWith (assetKey lg) ''default-''
           \<longrightarrow> titleLogo = assetKey lg)
      \<and> (\<forall>lg. logo (endPage S) = Some lg \<and> \<not> startsWith (assetKey lg) ''default-''
           \<longrightarrow> endLogo = assetKey lg)
      \<and> ((\<forall>n url. fetchBlob e n url \<noteq> None) \<longrightarrow>
            (startsWith (backgroundImageAssetKey (titlePage S)) ''default-''
               \<longrightarrow> getAssetFile (snd saved) titleBg \<noteq> None)
          \<and> (startsWith (backgroundImageAssetKey (endPage S)) ''default-''
               \<longrightarrow> getAssetFile (snd saved) endBg \<noteq> None)
          \<and> (\<forall>lg. logo (titlePage S) = Some lg \<and> startsWith (assetKey lg) ''default-''
               \<longrightarrow> getAssetFile (snd saved) titleLogo \<noteq> None)
          \<and> (\<forall>lg. logo (endPage S) = Some lg \<and> startsWith (assetKey lg) ''default-''
               \<longrightarrow> getAssetFile (snd saved) endLogo \<noteq> None)
          \<and> (backgroundImageAssetKey (titlePage S) = backgroundImageAssetKey (endPage S)
               \<longrightarrow> titleBg = endBg)
          \<and> (\<forall>lg lg'. logo (titlePage S) = Some lg \<and> logo (endPage S) = Some lg'
                 \<and> assetKey lg = assetKey lg'
               \<longrightarrow> titleLogo = endLogo))
      \<and> ((\<forall>n url. fetchBlob e n url = None) \<longrightarrow>
            (startsWith (backgroundImageAssetKey (titlePage S)) ''default-'' \<longrightarrow> titleBg = [])
          \<and> (startsWith (backgroundImageAssetKey (endPage S)) ''default-'' \<longrightarrow> endBg = [])
          \<and> (\<forall>lg. logo (titlePage S) = Some lg \<and> startsWith (assetKey lg) ''default-''
               \<longrightarrow> titleLogo = [])
          \<and> (\<forall>lg. logo (endPage S) = Some lg \<and> startsWith (assetKey lg) ''default-''
               \<longrightarrow> endLogo = [])))
   \<and> ((\<forall>n url. fetchBlob e n url \<noteq> None) \<longrightarrow>
        length (fetchLog (snd saved))
          = length (fetchLog w)
            + card {k \<in> fst ` set (placeholderRequests S). startsWith k ''default-''}
        \<and> uuidCount (snd saved)
          = uuidCount w
            + card {k \<in> fst ` set (placeholderRequests S). startsWith k ''default-''})
   \<and> ((\<forall>n url. fetchBlob e n url = None) \<longrightarrow>
        fetchLog (snd saved)
          = fetchLog w
            @ map (\<lambda>req. getFetchableUrl e (snd req))
                (filter (\<lambda>req. startsWith (fst req) ''default-'')
                   (placeholderRequests S))
        \<and> assetMap (snd saved) = assetMap w
        \<and> uuidCount (snd saved) = uuidCount w)"
proof -
  have other: "\<not> startsWith key ''default-'' \<longrightarrow>
      processAndMapAsset e key defaultPath (cache, w') = (key, cache, w')"
    by (simp add: processAndMapAsset_other)
  have hit: "startsWith key ''default-'' \<and> map_of cache key = Some cached \<longrightarrow>
      processAndMapAsset e key defaultPath (cache, w') = (cached, cache, w')"
    by (simp add: processAndMapAsset_hit)
  have success: "startsWith key ''default-'' \<and> map_of cache key = None
       \<and> fetchBlob e (length (fetchLog w')) (getFetchableUrl e defaultPath) = Some blob \<longrightarrow>
      (let newAssetKey = fst (processAndMapAsset e key defaultPath (cache, w'));
           cache' = fst (snd (processAndMapAsset e key defaultPath (cache, w')));
           world' = snd (snd (processAndMapAsset e key defaultPath (cache, w')))
       in newAssetKey
            = uuidv4 e (uuidCount w')
              @ getFileExtension (fileName (defaultFile key defaultPath blob))
          \<and> getAssetFile world' newAssetKey = Some (defaultFile key defaultPath blob)
          \<and> map_of cache' key = Some newAssetKey
          \<and> fetchLog world' = fetchLog w' @ [getFetchableUrl e defaultPath]
          \<and> uuidCount world' = Suc (uuidCount w'))"
    by (simp add: processAndMapAsset_success Let_def getAssetFile_def map_of_map_set)
  have failure: "startsWith key ''default-'' \<and> map_of cache key = None
       \<and> fetchBlob e (length (fetchLog w')) (getFetchableUrl e defaultPath) = None \<longrightarrow>
      processAndMapAsset e key defaultPath (cache, w')
        = ([], cache, w' \<lparr> fetchLog := fetchLog w' @ [getFetchableUrl e defaultPath] \<rparr>)"
    by (simp add: processAndMapAsset_failure)
  have calls: "\<exists>titleBg titleLogo endBg endLogo cw1 cw2 cw3 cw4.
      processAndMapAsset e (backgroundImageAssetKey (titlePage S)) content_assets_defaultBackgroundPath
          ([], setLoading True w) = (titleBg, cw1)
      \<and> (case logo (titlePage S) of
         Some lg \<Rightarrow>
           processAndMapAsset e (assetKey lg) content_assets_defaultLogoPath cw1 = (titleLogo, cw2)
       | None \<Rightarrow> cw2 = cw1)
      \<and> processAndMapAsset e (backgroundImageAssetKey (endPage S)) content_assets_defaultBackgroundPath
          cw2 = (endBg, cw3)
      \<and> (case logo (endPage S) of
         Some lg \<Rightarrow>
           processAndMapAsset e (assetKey lg) content_assets_defaultLogoPath cw3 = (endLogo, cw4)
       | None \<Rightarrow> cw4 = cw3)
      \<and> projectJson (fst saved)
        = Some (stripTransient
            (S \<lparr> titlePage := (titlePage S)
                  \<lparr> backgroundImageAssetKey := titleBg,
                    logo := map_option (\<lambda>lg. lg \<lparr> assetKey := titleLogo \<rparr>) (logo (titlePage S)) \<rparr>,
                endPage := (endPage S)
                  \<lparr> backgroundImageAssetKey := endBg,
                    logo := map_option (\<lambda>lg. lg \<lparr> assetKey := endLogo \<rparr>) (logo (endPage S)) \<rparr> \<rparr>))
      \<and> snd saved = setLoading False (snd cw4)
      \<and> (\<not> startsWith (backgroundImageAssetKey (titlePage S)) ''default-''
           \<longrightarrow> titleBg = backgroundImageAssetKey (titlePage S))
      \<and> (\<not> startsWith (backgroundImageAssetKey (endPage S)) ''default-''
           \<longrightarrow> endBg = backgroundImageAssetKey (endPage S))
      \<and> (\<forall>lg. logo (titlePage S) = Some lg \<and> \<not> startsWith (assetKey lg) ''default-''
           \<longrightarrow> titleLogo = assetKey lg)
      \<and> (\<forall>lg. logo (endPage S) = Some lg \<and> \<not> startsWith (assetKey lg) ''default-''
           \<longrightarrow> endLogo = assetKey lg)
      \<and> ((\<forall>n url. fetchBlob e n url \<noteq> None) \<longrightarrow>
            (startsWith (backgroundImageAssetKey (titlePage S)) ''default-''
               \<longrightarrow> getAssetFile (snd saved) titleBg \<noteq> None)
          \<and> (startsWith (backgroundImageAssetKey (endPage S)) ''default-''
               \<longrightarrow> getAssetFile (snd saved) endBg \<noteq> None)
          \<and> (\<forall>lg. logo (titlePage S) = Some lg \<and> startsWith (assetKey lg) ''default-''
               \<longrightarrow> getAssetFile (snd saved) titleLogo \<noteq> None)
          \<and> (\<forall>lg. logo (endPage S) = Some lg \<and> startsWith (assetKey lg) ''default-''
               \<longrightarrow> getAssetFile (snd saved) endLogo \<noteq> None)
          \<and> (backgroundImageAssetKey (titlePage S) = backgroundImageAssetKey (endPage S)
               \<longrightarrow> titleBg = endBg)
          \<and> (\<forall>lg lg'. logo (titlePage S) = Some lg \<and> logo (endPage S) = Some lg'
                 \<and> assetKey lg = assetKey lg'
               \<longrightarrow> titleLogo = endLogo))
      \<and> ((\<forall>n url. fetchBlob e n url = None) \<longrightarrow>
            (startsWith (backgroundImageAssetKey (titlePage S)) ''default-'' \<longrightarrow> titleBg = [])
          \<and> (startsWith (backgroundImageAssetKey (endPage S)) ''default-'' \<longrightarrow> endBg = [])
          \<and> (\<forall>lg. logo (titlePage S) = Some lg \<and> startsWith (assetKey lg) ''default-''
               \<longrightarrow> titleLogo = [])
          \<and> (\<forall>lg. logo (endPage S) = Some lg \<and> startsWith (assetKey lg) ''default-''
               \<longrightarrow> endLogo = []))"
    unfolding S_def saved_def by (rule saveProject_rewrites)
  have once: "(\<forall>n url. fetchBlob e n url \<noteq> None) \<longrightarrow>
        length (fetchLog (snd saved))
          = length (fetchLog w)
            + card {k \<in> fst ` set (placeholderRequests S). startsWith k ''default-''}
        \<and> uuidCount (snd saved)
          = uuidCount w
            + card {k \<in> fst ` set (placeholderRequests S). startsWith k ''default-''}"
    unfolding S_def saved_def using saveProject_count [of e w] by blast
  have repeated: "(\<forall>n url. fetchBlob e n url = None) \<longrightarrow>
        fetchLog (snd saved)
          = fetchLog w
            @ map (\<lambda>req. getFetchableUrl e (snd req))
                (filter (\<lambda>req. startsWith (fst req) ''default-'')
                   (placeholderRequests S))
        \<and> assetMap (snd saved) = assetMap w
        \<and> uuidCount (snd saved) = uuidCount w"
    unfolding S_def saved_def using saveProject_rejected [of e w] by blast
  show ?thesis
    by (rule conjI [OF other conjI [OF hit conjI [OF success conjI [OF failure conjI [OF calls conjI [OF once repeated]]]]]])
qed

theorem default_placeholders_materialised_witness:
  "processAndMapAsset env0 ''default-background'' content_assets_defaultBackgroundPath
       ([(''default-background'', ''uuid.png'')], world0)
     = (''uuid.png'', [(''default-background'', ''uuid.png'')], world0)
   \<and> length (fetchLog (snd (saveProject env0 world0))) = 2
   \<and> uuidCount (snd (saveProject env0 world0)) = 2
   \<and> map_option (\<lambda>manifest. backgroundImageAssetKey (titlePage manifest))
        (projectJson (fst (saveProject env0 world0)))
       = map_option (\<lambda>manifest. backgroundImageAssetKey (endPage manifest))
           (projectJson (fst (saveProject env0 world0)))"
proof -
  have placeholder: "startsWith ''default-background'' ''default-''"
    by code_simp
  have cached: "map_of [(''default-background'', ''uuid.png'')] ''default-background''
      = Some ''uuid.png''"
    by simp
  have ok: "\<forall>n url. fetchBlob env0 n url \<noteq> None"
    by (simp add: env0_def)
  have kinds: "card {k \<in> fst ` set (placeholderRequests (project world0)).
                      startsWith k ''default-''} = 2"
    by code_simp
  have start: "fetchLog world0 = [] \<and> uuidCount world0 = 0"
    by (simp add: world0_def)
  have sameKey: "backgroundImageAssetKey (titlePage (project world0))
      = backgroundImageAssetKey (endPage (project world0))"
    by (simp add: world0_def exampleProject_def)
  note materialised = default_placeholders_materialised
    [where key = "''default-background''" and e = env0
       and defaultPath = content_assets_defaultBackgroundPath
       and cache = "[(''default-background'', ''uuid.png'')]" and w' = world0
       and cached = "''uuid.png''" and w = world0]
  from conjunct1 [OF conjunct2 [OF materialised]] placeholder cached
  have again: "processAndMapAsset env0 ''default-background'' content_assets_defaultBackgroundPath
       ([(''default-background'', ''uuid.png'')], world0)
     = (''uuid.png'', [(''default-background'', ''uuid.png'')], world0)"
    by (simp only: simp_thms)
  from conjunct1 [OF conjunct2 [OF conjunct2 [OF conjunct2 [OF conjunct2 [OF conjunct2 [OF materialised]]]]]] ok kinds start
  have count: "length (fetchLog (snd (saveProject env0 world0))) = 2
      \<and> uuidCount (snd (saveProject env0 world0)) = 2"
    by (simp only: simp_thms list.size add_0)
  from conjunct1 [OF conjunct2 [OF conjunct2 [OF conjunct2 [OF conjunct2 [OF materialised]]]]]
  obtain titleBg titleLogo endBg endLogo cw1 cw2 cw3 cw4 where
    calls: "processAndMapAsset env0 (backgroundImageAssetKey (titlePage (project world0))) content_assets_defaultBackgroundPath
          ([], setLoading True world0) = (titleBg, cw1)
      \<and> (case logo (titlePage (project world0)) of
         Some lg \<Rightarrow>
           processAndMapAsset env0 (assetKey lg) content_assets_defaultLogoPath cw1 = (titleLogo, cw2)
       | None \<Rightarrow> cw2 = cw1)
      \<and> processAndMapAsset env0 (backgroundImageAssetKey (endPage (project world0))) content_assets_defaultBackgroundPath
          cw2 = (endBg, cw3)
      \<and> (case logo (endPage (project world0)) of
         Some lg \<Rightarrow>
           processAndMapAsset env0 (assetKey lg) content_assets_defaultLogoPath cw3 = (endLogo, cw4)
       | None \<Rightarrow> cw4 = cw3)
      \<and> projectJson (fst (saveProject env0 world0))
        = Some (stripTransient
            ((project world0) \<lparr> titlePage := (titlePage (project world0))
                  \<lparr> backgroundImageAssetKey := titleBg,
                    logo := map_option (\<lambda>lg. lg \<lparr> assetKey := titleLogo \<rparr>) (logo (titlePage (project world0))) \<rparr>,
                endPage := (endPage (project world0))
                  \<lparr> backgroundImageAssetKey := endBg,
                    logo := map_option (\<lambda>lg. lg \<lparr> assetKey := endLogo \<rparr>) (logo (endPage (project world0))) \<rparr> \<rparr>))
      \<and> snd (saveProject env0 world0) = setLoading False (snd cw4)
      \<and> (\<not> startsWith (backgroundImageAssetKey (titlePage (project world0))) ''default-''
           \<longrightarrow> titleBg = backgroundImageAssetKey (titlePage (project world0)))
      \<and> (\<not> startsWith (backgroundImageAssetKey (endPage (project world0))) ''default-''
           \<longrightarrow> endBg = backgroundImageAssetKey (endPage (project world0)))
      \<and> (\<forall>lg. logo (titlePage (project world0)) = Some lg \<and> \<not> startsWith (assetKey lg) ''default-''
           \<longrightarrow> titleLogo = assetKey lg)
      \<and> (\<forall>lg. logo (endPage (project world0)) = Some lg \<and> \<not> startsWith (assetKey lg) ''default-''
           \<longrightarrow> endLogo = assetKey lg)
      \<and> ((\<forall>n url. fetchBlob env0 n url \<noteq> None) \<longrightarrow>
            (startsWith (backgroundImageAssetKey (titlePage (project world0))) ''default-''
               \<longrightarrow> getAssetFile (snd (saveProject env0 world0)) titleBg \<noteq> None)
          \<and> (startsWith (backgroundImageAssetKey (endPage (project world0))) ''default-''
               \<longrightarrow> getAssetFile (snd (saveProject env0 world0)) endBg \<noteq> None)
          \<and> (\<forall>lg. logo (titlePage (project world0)) = Some lg \<and> startsWith (assetKey lg) ''default-''
               \<longrightarrow> getAssetFile (snd (saveProject env0 world0)) titleLogo \<noteq> None)
          \<and> (\<forall>lg. logo (endPage (project world0)) = Some lg \<and> startsWith (assetKey lg) ''default-''
               \<longrightarrow> getAssetFile (snd (saveProject env0 world0)) endLogo \<noteq> None)
          \<and> (backgroundImageAssetKey (titlePage (project world0)) = backgroundImageAssetKey (endPage (project world0))
               \<longrightarrow> titleBg = endBg)
          \<and> (\<forall>lg lg'. logo (titlePage (project world0)) = Some lg \<and> logo (endPage (project world0)) = Some lg'
                 \<and> assetKey lg = assetKey lg'
               \<longrightarrow> titleLogo = endLogo))
      \<and> ((\<forall>n url. fetchBlob env0 n url = None) \<longrightarrow>
            (startsWith (backgroundImageAssetKey (titlePage (project world0))) ''default-'' \<longrightarrow> titleBg = [])
          \<and> (startsWith (backgroundImageAssetKey (endPage (project world0))) ''default-'' \<longrightarrow> endBg = [])
          \<and> (\<forall>lg. logo (titlePage (project world0)) = Some lg \<and> startsWith (assetKey lg) ''default-''
               \<longrightarrow> titleLogo = [])
          \<and> (\<forall>lg. logo (endPage (project world0)) = Some lg \<and> startsWith (assetKey lg) ''default-''
               \<longrightarrow> endLogo = []))"
    by (elim exE)
  note manifest = conjunct1 [OF conjunct2 [OF conjunct2 [OF conjunct2 [OF conjunct2 [OF calls]]]]]
  note resolved = mp [OF conjunct1 [OF conjunct2 [OF conjunct2 [OF conjunct2 [OF conjunct2 [OF conjunct2 [OF conjunct2 [OF conjunct2 [OF conjunct2 [OF conjunct2 [OF conjunct2 [OF calls]]]]]]]]]]] ok]
  have "titleBg = endBg"
    by (rule mp [OF conjunct1 [OF conjunct2 [OF conjunct2 [OF conjunct2 [OF conjunct2 [OF resolved]]]]] sameKey])
  with manifest
  have "map_option (\<lambda>manifest. backgroundImageAssetKey (titlePage manifest))
        (projectJson (fst (saveProject env0 world0)))
       = map_option (\<lambda>manifest. backgroundImageAssetKey (endPage manifest))
           (projectJson (fst (saveProject env0 world0)))"
    by (simp add: stripTransient_def)
  with again count show ?thesis
    by (simp only: simp_thms)
qed

section \<open>Saving a project and loading it again\<close>

lemma project_revokeIfBlob: "project (revokeIfBlob url w) = project w"
  by (simp add: revokeIfBlob_def revokeObjectURL_def)

lemma project_fold_revokeIfBlob:
  "project (fold (\<lambda>panel. revokeIfBlob (image panel)) ps w) = project w"
  by (induction ps arbitrary: w) (simp_all add: project_revokeIfBlob)

lemma project_cleanupBlobUrls: "project (cleanupBlobUrls s w) = project w"
  by (cases "logo (titlePage s)"; cases "logo (endPage s)")
     (simp_all add: cleanupBlobUrls_def Let_def project_fold_revokeIfBlob project_revokeIfBlob)

lemma stripTransient_hydrateState:
  "stripTransient (fst (hydrateState e s w)) = stripTransient s"
  by (simp add: hydrateState_fst Let_def stripTransient_def hydrateLogo_strip
      hydratePanels_strip)

lemma projectTitle_hydrateState: "projectTitle (fst (hydrateState e s w)) = projectTitle s"
  by (simp add: hydrateState_fst Let_def)

lemma header_hydrateState:
  "header (titlePage (fst (hydrateState e s w))) = header (titlePage s)"
  by (simp add: hydrateState_fst Let_def)

lemma stripTransient_projectTitle:
  "stripTransient (s \<lparr> projectTitle := t \<rparr>) = (stripTransient s) \<lparr> projectTitle := t \<rparr>"
  by (simp add: stripTransient_def)

lemma stripTransient_isLoading:
  "stripTransient (s \<lparr> isLoading := b \<rparr>) = stripTransient s"
  by (simp add: stripTransient_def)

text \<open>The project in the store after \<open>loadProject\<close>, without its display fields.\<close>

lemma stripTransient_store_loadProject:
  "stripTransient (project (store_loadProject loaded w))
     = (stripTransient loaded)
         \<lparr> projectTitle :=
             (if projectTitle loaded = []
              then (if header (titlePage loaded) = [] then ''Untitled Project''
                    else header (titlePage loaded))
              else projectTitle loaded) \<rparr>"
proof (cases "projectTitle loaded = []")
  case True
  then show ?thesis
    by (simp add: store_loadProject_def temporal_set_def Let_def stripTransient_isLoading
        stripTransient_projectTitle project_cleanupBlobUrls)
next
  case False
  have "(stripTransient loaded) \<lparr> projectTitle := projectTitle loaded \<rparr> = stripTransient loaded"
    by (simp add: stripTransient_def)
  with False show ?thesis
    by (simp add: store_loadProject_def temporal_set_def Let_def stripTransient_isLoading
        project_cleanupBlobUrls)
qed

lemma processProjectFile_manifest:
  assumes "projectJson z = Some manifest"
  shows "fst (processProjectFile e (Zip z) w) = Loaded
    \<and> stripTransient (project (snd (processProjectFile e (Zip z) w)))
        = (stripTransient manifest)
            \<lparr> projectTitle :=
                (if projectTitle manifest = []
                 then (if header (titlePage manifest) = [] then ''Untitled Project''
                       else header (titlePage manifest))
                 else projectTitle manifest) \<rparr>"
  using assms
  by (simp add: processProjectFile_def Let_def case_prod_beta stripTransient_store_loadProject
      stripTransient_hydrateState projectTitle_hydrateState header_hydrateState)


text \<open>Processing a placeholder that is materialised again: the same key, and no effect.\<close>

lemma processAndMapAsset_again:
  assumes "startsWith key ''default-''"
    "map_of cache key \<noteq> None
     \<or> fetchBlob e (length (fetchLog w)) (getFetchableUrl e defaultPath) \<noteq> None"
  shows "processAndMapAsset e key defaultPath' (snd (processAndMapAsset e key defaultPath (cache, w)))
     = processAndMapAsset e key defaultPath (cache, w)"
proof (cases "map_of cache key")
  case (Some cached)
  then show ?thesis
    by (simp add: processAndMapAsset_hit [OF assms(1) Some])
next
  case None
  with assms(2) obtain blob where
    blob: "fetchBlob e (length (fetchLog w)) (getFetchableUrl e defaultPath) = Some blob"
    by auto
  show ?thesis
    by (simp add: processAndMapAsset_success [OF assms(1) None blob]
        processAndMapAsset_hit [OF assms(1)] map_of_map_set)
qed

text \<open>The example project with its title deleted.\<close>

definition untitledWorld :: world where
  "untitledWorld = world0 \<lparr> project := exampleProject \<lparr> projectTitle := [] \<rparr> \<rparr>"

text \<open>
  Claim C1, as stated, fails: a project whose title is empty does not come back. Loading
  the package saved from it gives the project the header of its title page as its title.
\<close>

theorem empty_title_not_restored:
  "projectTitle (project untitledWorld) = []
   \<and> fst (processProjectFile env0 (Zip (fst (saveProject env0 untitledWorld)))
            (snd (saveProject env0 untitledWorld))) = Loaded
   \<and> projectTitle (project (snd (processProjectFile env0
                                    (Zip (fst (saveProject env0 untitledWorld)))
                                    (snd (saveProject env0 untitledWorld)))))
       = ''Client Name''"
  by code_simp


text \<open>
  Claim C1, amended. Saving the project \<open>S\<close> of the store and loading the package (into
  any state of the program) succeeds, and the loaded project is structurally equal to \<open>S\<close>,
  that is equal apart from the display fields, except that: an empty project title is
  replaced by the header of the title page, or by \<open>Untitled Project\<close> when the header is
  empty too; and the four page references (title background, title logo, end background,
  end logo) are the keys that the four calls of \<open>processAndMapAsset\<close> of the save return,
  made in this order through one cache. A reference that is not a default placeholder is
  kept. When no fetch is rejected, a placeholder is rewritten to a key under which the asset
  store holds a file after the save, and equal placeholders of the title and the end page
  are rewritten to the same key. A placeholder whose fetch is rejected is rewritten to the
  empty key (so every placeholder, when every fetch is rejected). Within one save,
  processing again a placeholder that is materialised (found in the cache, or fetched with
  success) gives the same key and changes nothing: no second fetch, no second
  registration.
\<close>

theorem save_then_load_round_trip:
  fixes e :: env and w w2 w' :: world
  defines "S \<equiv> project w"
    and "saved \<equiv> saveProject e w"
    and "loaded \<equiv> processProjectFile e (Zip (fst (saveProject e w))) w2"
  shows "fst loaded = Loaded
   \<and> (\<exists>titleBg titleLogo endBg endLogo cw1 cw2 cw3 cw4.
        stripTransient (project (snd loaded))
          = stripTransient
              (S \<lparr> projectTitle :=
                     (if projectTitle S = []
                      then (if header (titlePage S) = [] then ''Untitled Project''
                            else header (titlePage S))
                      else projectTitle S),
                  titlePage := (titlePage S)
                    \<lparr> backgroundImageAssetKey := titleBg,
                      logo := map_option (\<lambda>lg. lg \<lparr> assetKey := titleLogo \<rparr>) (logo (titlePage S)) \<rparr>,
                  endPage := (endPage S)
                    \<lparr> backgroundImageAssetKey := endBg,
                      logo := map_option (\<lambda>lg. lg \<lparr> assetKey := endLogo \<rparr>) (logo (endPage S)) \<rparr> \<rparr>)
      \<and> processAndMapAsset e (backgroundImageAssetKey (titlePage S)) content_assets_defaultBackgroundPath
          ([], setLoading True w) = (titleBg, cw1)
      \<and> (case logo (titlePage S) of
         Some lg \<Rightarrow>
           processAndMapAsset e (assetKey lg) content_assets_defaultLogoPath cw1 = (titleLogo, cw2)
       | None \<Rightarrow> cw2 = cw1)
      \<and> processAndMapAsset e (backgroundImageAssetKey (endPage S)) content_assets_defaultBackgroundPath
          cw2 = (endBg, cw3)
      \<and> (case logo (endPage S) of
         Some lg \<Rightarrow>
           processAndMapAsset e (assetKey lg) content_assets_defaultLogoPath cw3 = (endLogo, cw4)
       | None \<Rightarrow> cw4 = cw3)
      \<and> projectJson (fst saved)
        = Some (stripTransient
            (S \<lparr> titlePage := (titlePage S)
                  \<lparr> backgroundImageAssetKey := titleBg,
                    logo := map_option (\<lambda>lg. lg \<lparr> assetKey := titleLogo \<rparr>) (logo (titlePage S)) \<rparr>,
                endPage := (endPage S)
                  \<lparr> backgroundImageAssetKey := endBg,
                    logo := map_option (\<lambda>lg. lg \<lparr> assetKey := endLogo \<rparr>) (logo (endPage S)) \<rparr> \<rparr>))
      \<and> snd saved = setLoading False (snd cw4)
      \<and> (\<not> startsWith (backgroundImageAssetKey (titlePage S)) ''default-''
           \<longrightarrow> titleBg = backgroundImageAssetKey (titlePage S))
      \<and> (\<not> startsWith (backgroundImageAssetKey (endPage S)) ''default-''
           \<longrightarrow> endBg = backgroundImageAssetKey (endPage S))
      \<and> (\<forall>lg. logo (titlePage S) = Some lg \<and> \<not> startsWith (assetKey lg) ''default-''
           \<longrightarrow> titleLogo = assetKey lg)
      \<and> (\<forall>lg. logo (endPage S) = Some lg \<and> \<not> startsWith (assetKey lg) ''default-''
           \<longrightarrow> endLogo = assetKey lg)
      \<and> ((\<forall>n url. fetchBlob e n url \<noteq> None) \<longrightarrow>
            (startsWith (backgroundImageAssetKey (titlePage S)) ''default-''
               \<longrightarrow> getAssetFile (snd saved) titleBg \<noteq> None)
          \<and> (startsWith (backgroundImageAssetKey (endPage S)) ''default-''
               \<longrightarrow> getAssetFile (snd saved) endBg \<noteq> None)
          \<and> (\<forall>lg. logo (titlePage S) = Some lg \<and> startsWith (assetKey lg) ''default-''
               \<longrightarrow> getAssetFile (snd saved) titleLogo \<noteq> None)
          \<and> (\<forall>lg. logo (endPage S) = Some lg \<and> startsWith (assetKey lg) ''default-''
               \<longrightarrow> getAssetFile (snd saved) endLogo \<noteq> None)
          \<and> (backgroundImageAssetKey (titlePage S) = backgroundImageAssetKey (endPage S)
               \<longrightarrow> titleBg = endBg)
          \<and> (\<forall>lg lg'. logo (titlePage S) = Some lg \<and> logo (endPage S) = Some lg'
                 \<and> assetKey lg = assetKey lg'
               \<longrightarrow> titleLogo = endLogo))
      \<and> ((\<forall>n url. fetchBlob e n url = None) \<longrightarrow>
            (startsWith (backgroundImageAssetKey (titlePage S)) ''default-'' \<longrightarrow> titleBg = [])
          \<and> (startsWith (backgroundImageAssetKey (endPage S)) ''default-'' \<longrightarrow> endBg = [])
          \<and> (\<forall>lg. logo (titlePage S) = Some lg \<and> startsWith (assetKey lg) ''default-''
               \<longrightarrow> titleLogo = [])
          \<and> (\<forall>lg. logo (endPage S) = Some lg \<and> startsWith (assetKey lg) ''default-''
               \<longrightarrow> endLogo = [])))
   \<and> (startsWith key ''default-''
       \<and> (map_of cache key \<noteq> None
          \<or> fetchBlob e (length (fetchLog w')) (getFetchableUrl e defaultPath) \<noteq> None)
       \<longrightarrow> processAndMapAsset e key defaultPath'
             (snd (processAndMapAsset e key defaultPath (cache, w')))
           = processAndMapAsset e key defaultPath (cache, w'))
   \<and> (startsWith key ''default-'' \<and> map_of cache key = None
       \<and> fetchBlob e (length (fetchLog w')) (getFetchableUrl e defaultPath) = None \<longrightarrow>
      processAndMapAsset e key defaultPath (cache, w')
        = ([], cache, w' \<lparr> fetchLog := fetchLog w' @ [getFetchableUrl e defaultPath] \<rparr>))"
proof -
  from saveProject_rewrites [of e w, folded S_def saved_def]
  obtain titleBg titleLogo endBg endLogo cw1 cw2 cw3 cw4 where
    calls: "processAndMapAsset e (backgroundImageAssetKey (titlePage S)) content_assets_defaultBackgroundPath
          ([], setLoading True w) = (titleBg, cw1)
      \<and> (case logo (titlePage S) of
         Some lg \<Rightarrow>
           processAndMapAsset e (assetKey lg) content_assets_defaultLogoPath cw1 = (titleLogo, cw2)
       | None \<Rightarrow> cw2 = cw1)
      \<and> processAndMapAsset e (backgroundImageAssetKey (endPage S)) content_assets_defaultBackgroundPath
          cw2 = (endBg, cw3)
      \<and> (case logo (endPage S) of
         Some lg \<Rightarrow>
           processAndMapAsset e (assetKey lg) content_assets_defaultLogoPath cw3 = (endLogo, cw4)
       | None \<Rightarrow> cw4 = cw3)
      \<and> projectJson (fst saved)
        = Some (stripTransient
            (S \<lparr> titlePage := (titlePage S)
                  \<lparr> backgroundImageAssetKey := titleBg,
                    logo := map_option (\<lambda>lg. lg \<lparr> assetKey := titleLogo \<rparr>) (logo (titlePage S)) \<rparr>,
                endPage := (endPage S)
                  \<lparr> backgroundImageAssetKey := endBg,
                    logo := map_option (\<lambda>lg. lg \<lparr> assetKey := endLogo \<rparr>) (logo (endPage S)) \<rparr> \<rparr>))
      \<and> snd saved = setLoading False (snd cw4)
      \<and> (\<not> startsWith (backgroundImageAssetKey (titlePage S)) ''default-''
           \<longrightarrow> titleBg = backgroundImageAssetKey (titlePage S))
      \<and> (\<not> startsWith (backgroundImageAssetKey (endPage S)) ''default-''
           \<longrightarrow> endBg = backgroundImageAssetKey (endPage S))
      \<and> (\<forall>lg. logo (titlePage S) = Some lg \<and> \<not> startsWith (assetKey lg) ''default-''
           \<longrightarrow> titleLogo = assetKey lg)
      \<and> (\<forall>lg. logo (endPage S) = Some lg \<and> \<not> startsWith (assetKey lg) ''default-''
           \<longrightarrow> endLogo = assetKey lg)
      \<and> ((\<forall>n url. fetchBlob e n url \<noteq> None) \<longrightarrow>
            (startsWith (backgroundImageAssetKey (titlePage S)) ''default-''
               \<longrightarrow> getAssetFile (snd saved) titleBg \<noteq> None)
          \<and> (startsWith (backgroundImageAssetKey (endPage S)) ''default-''
               \<longrightarrow> getAssetFile (snd saved) endBg \<noteq> None)
          \<and> (\<forall>lg. logo (titlePage S) = Some lg \<and> startsWith (assetKey lg) ''default-''
               \<longrightarrow> getAssetFile (snd saved) titleLogo \<noteq> None)
          \<and> (\<forall>lg. logo (endPage S) = Some lg \<and> startsWith (assetKey lg) ''default-''
               \<longrightarrow> getAssetFile (snd saved) endLogo \<noteq> None)
          \<and> (backgroundImageAssetKey (titlePage S) = backgroundImageAssetKey (endPage S)
               \<longrightarrow> titleBg = endBg)
          \<and> (\<forall>lg lg'. logo (titlePage S) = Some lg \<and> logo (endPage S) = Some lg'
                 \<and> assetKey lg = assetKey lg'
               \<longrightarrow> titleLogo = endLogo))
      \<and> ((\<forall>n url. fetchBlob e n url = None) \<longrightarrow>
            (startsWith (backgroundImageAssetKey (titlePage S)) ''default-'' \<longrightarrow> titleBg = [])
          \<and> (startsWith (backgroundImageAssetKey (endPage S)) ''default-'' \<longrightarrow> endBg = [])
          \<and> (\<forall>lg. logo (titlePage S) = Some lg \<and> startsWith (assetKey lg) ''default-''
               \<longrightarrow> titleLogo = [])
          \<and> (\<forall>lg. logo (endPage S) = Some lg \<and> startsWith (assetKey lg) ''default-''
               \<longrightarrow> endLogo = []))"
    by (elim exE)
  define R where "R = S \<lparr> titlePage := (titlePage S)
              \<lparr> backgroundImageAssetKey := titleBg,
                logo := map_option (\<lambda>lg. lg \<lparr> assetKey := titleLogo \<rparr>) (logo (titlePage S)) \<rparr>,
            endPage := (endPage S)
              \<lparr> backgroundImageAssetKey := endBg,
                logo := map_option (\<lambda>lg. lg \<lparr> assetKey := endLogo \<rparr>) (logo (endPage S)) \<rparr> \<rparr>"
  have manifest: "projectJson (fst (saveProject e w)) = Some (stripTransient R)"
    unfolding R_def using conjunct1 [OF conjunct2 [OF conjunct2 [OF conjunct2 [OF conjunct2 [OF calls]]]]] by (simp only: saved_def)
  have isLoaded: "fst loaded = Loaded"
    using processProjectFile_manifest [OF manifest, of e w2] by (simp add: loaded_def)
  have loadedEq: "stripTransient (project (snd loaded))
        = (stripTransient R)
            \<lparr> projectTitle :=
                (if projectTitle R = []
                 then (if header (titlePage R) = [] then ''Untitled Project''
                       else header (titlePage R))
                 else projectTitle R) \<rparr>"
    using processProjectFile_manifest [OF manifest, of e w2]
    by (simp add: loaded_def stripTransient_idem projectTitle_stripTransient
        header_stripTransient)
  have structEq: "stripTransient (project (snd loaded))
          = stripTransient
              (S \<lparr> projectTitle :=
                     (if projectTitle S = []
                      then (if header (titlePage S) = [] then ''Untitled Project''
                            else header (titlePage S))
                      else projectTitle S),
                  titlePage := (titlePage S)
                    \<lparr> backgroundImageAssetKey := titleBg,
                      logo := map_option (\<lambda>lg. lg \<lparr> assetKey := titleLogo \<rparr>) (logo (titlePage S)) \<rparr>,
                  endPage := (endPage S)
                    \<lparr> backgroundImageAssetKey := endBg,
                      logo := map_option (\<lambda>lg. lg \<lparr> assetKey := endLogo \<rparr>) (logo (endPage S)) \<rparr> \<rparr>)"
    unfolding loadedEq by (simp add: R_def stripTransient_def)
  have idem: "startsWith key ''default-''
       \<and> (map_of cache key \<noteq> None
          \<or> fetchBlob e (length (fetchLog w')) (getFetchableUrl e defaultPath) \<noteq> None)
       \<longrightarrow> processAndMapAsset e key defaultPath'
             (snd (processAndMapAsset e key defaultPath (cache, w')))
           = processAndMapAsset e key defaultPath (cache, w')"
    using processAndMapAsset_again [of key cache e w' defaultPath defaultPath'] by blast
  have failure: "startsWith key ''default-'' \<and> map_of cache key = None
       \<and> fetchBlob e (length (fetchLog w')) (getFetchableUrl e defaultPath) = None \<longrightarrow>
      processAndMapAsset e key defaultPath (cache, w')
        = ([], cache, w' \<lparr> fetchLog := fetchLog w' @ [getFetchableUrl e defaultPath] \<rparr>)"
    by (simp add: processAndMapAsset_failure)
  note structured = conjI [OF structEq calls]
  have roundTrip: "\<exists>titleBg titleLogo endBg endLogo cw1 cw2 cw3 cw4.
        stripTransient (project (snd loaded))
          = stripTransient
              (S \<lparr> projectTitle :=
                     (if projectTitle S = []
                      then (if header (titlePage S) = [] then ''Untitled Project''
                            else header (titlePage S))
                      else projectTitle S),
                  titlePage := (titlePage S)
                    \<lparr> backgroundImageAssetKey := titleBg,
                      logo := map_option (\<lambda>lg. lg \<lparr> assetKey := titleLogo \<rparr>) (logo (titlePage S)) \<rparr>,
                  endPage := (endPage S)
                    \<lparr> backgroundImageAssetKey := endBg,
                      logo := map_option (\<lambda>lg. lg \<lparr> assetKey := endLogo \<rparr>) (logo (endPage S)) \<rparr> \<rparr>)
      \<and> processAndMapAsset e (backgroundImageAssetKey (titlePage S)) content_assets_defaultBackgroundPath
          ([], setLoading True w) = (titleBg, cw1)
      \<and> (case logo (titlePage S) of
         Some lg \<Rightarrow>
           processAndMapAsset e (assetKey lg) content_assets_defaultLogoPath cw1 = (titleLogo, cw2)
       | None \<Rightarrow> cw2 = cw1)
      \<and> processAndMapAsset e (backgroundImageAssetKey (endPage S)) content_assets_defaultBackgroundPath
          cw2 = (endBg, cw3)
      \<and> (case logo (endPage S) of
         Some lg \<Rightarrow>
           processAndMapAsset e (assetKey lg) content_assets_defaultLogoPath cw3 = (endLogo, cw4)
       | None \<Rightarrow> cw4 = cw3)
      \<and> projectJson (fst saved)
        = Some (stripTransient
            (S \<lparr> titlePage := (titlePage S)
                  \<lparr> backgroundImageAssetKey := titleBg,
                    logo := map_option (\<lambda>lg. lg \<lparr> assetKey := titleLogo \<rparr>) (logo (titlePage S)) \<rparr>,
                endPage := (endPage S)
                  \<lparr> backgroundImageAssetKey := endBg,
                    logo := map_option (\<lambda>lg. lg \<lparr> assetKey := endLogo \<rparr>) (logo (endPage S)) \<rparr> \<rparr>))
      \<and> snd saved = setLoading False (snd cw4)
      \<and> (\<not> startsWith (backgroundImageAssetKey (titlePage S)) ''default-''
           \<longrightarrow> titleBg = backgroundImageAssetKey (titlePage S))
      \<and> (\<not> startsWith (backgroundImageAssetKey (endPage S)) ''default-''
           \<longrightarrow> endBg = backgroundImageAssetKey (endPage S))
      \<and> (\<forall>lg. logo (titlePage S) = Some lg \<and> \<not> startsWith (assetKey lg) ''default-''
           \<longrightarrow> titleLogo = assetKey lg)
      \<and> (\<forall>lg. logo (endPage S) = Some lg \<and> \<not> startsWith (assetKey lg) ''default-''
           \<longrightarrow> endLogo = assetKey lg)
      \<and> ((\<forall>n url. fetchBlob e n url \<noteq> None) \<longrightarrow>
            (startsWith (backgroundImageAssetKey (titlePage S)) ''default-''
               \<longrightarrow> getAssetFile (snd saved) titleBg \<noteq> None)
          \<and> (startsWith (backgroundImageAssetKey (endPage S)) ''default-''
               \<longrightarrow> getAssetFile (snd saved) endBg \<noteq> None)
          \<and> (\<forall>lg. logo (titlePage S) = Some lg \<and> startsWith (assetKey lg) ''default-''
               \<longrightarrow> getAssetFile (snd saved) titleLogo \<noteq> None)
          \<and> (\<forall>lg. logo (endPage S) = Some lg \<and> startsWith (assetKey lg) ''default-''
               \<longrightarrow> getAssetFile (snd saved) endLogo \<noteq> None)
          \<and> (backgroundImageAssetKey (titlePage S) = backgroundImageAssetKey (endPage S)
               \<longrightarrow> titleBg = endBg)
          \<and> (\<forall>lg lg'. logo (titlePage S) = Some lg \<and> logo (endPage S) = Some lg'
                 \<and> assetKey lg = assetKey lg'
               \<longrightarrow> titleLogo = endLogo))
      \<and> ((\<forall>n url. fetchBlob e n url = None) \<longrightarrow>
            (startsWith (backgroundImageAssetKey (titlePage S)) ''default-'' \<longrightarrow> titleBg = [])
          \<and> (startsWith (backgroundImageAssetKey (endPage S)) ''default-'' \<longrightarrow> endBg = [])
          \<and> (\<forall>lg. logo (titlePage S) = Some lg \<and> startsWith (assetKey lg) ''default-''
               \<longrightarrow> titleLogo = [])
          \<and> (\<forall>lg. logo (endPage S) = Some lg \<and> startsWith (assetKey lg) ''default-''
               \<longrightarrow> endLogo = []))"
    by (intro exI) (rule structured)
  show ?thesis
    by (rule conjI [OF isLoaded conjI [OF roundTrip conjI [OF idem failure]]])
qed

theorem save_then_load_round_trip_witness:
  "fst (processProjectFile env0 (Zip (fst (saveProject env0 world0)))
          (snd (saveProject env0 world0))) = Loaded
   \<and> backgroundImageAssetKey (titlePage (project world0)) = ''default-background''
   \<and> backgroundImageAssetKey
        (titlePage (project (snd (processProjectFile env0 (Zip (fst (saveProject env0 world0)))
                                    (snd (saveProject env0 world0)))))) = ''uuid.png''
   \<and> backgroundImageAssetKey
        (endPage (project (snd (processProjectFile env0 (Zip (fst (saveProject env0 world0)))
                                  (snd (saveProject env0 world0)))))) = ''uuid.png''
   \<and> getAssetFile (snd (saveProject env0 world0)) ''uuid.png'' \<noteq> None"
proof -
  let ?L = "project (snd (processProjectFile env0 (Zip (fst (saveProject env0 world0)))
                            (snd (saveProject env0 world0))))"
  have titleSel: "backgroundImageAssetKey (titlePage (stripTransient s))
      = backgroundImageAssetKey (titlePage s)" for s
    by (simp add: stripTransient_def)
  have endSel: "backgroundImageAssetKey (endPage (stripTransient s))
      = backgroundImageAssetKey (endPage s)" for s
    by (simp add: stripTransient_def)
  have ok: "\<forall>n url. fetchBlob env0 n url \<noteq> None"
    by (simp add: env0_def)
  have titleKey: "backgroundImageAssetKey (titlePage (project world0)) = ''default-background''"
    by code_simp
  have sameKey: "backgroundImageAssetKey (titlePage (project world0))
      = backgroundImageAssetKey (endPage (project world0))"
    by (simp add: world0_def exampleProject_def)
  have placeholder: "startsWith (backgroundImageAssetKey (titlePage (project world0))) ''default-''"
    by code_simp
  have loadedKey: "backgroundImageAssetKey (titlePage ?L) = ''uuid.png''"
    by code_simp
  note roundTrip = save_then_load_round_trip
    [where e = env0 and w = world0 and ?w2.0 = "snd (saveProject env0 world0)"]
  note isLoaded = conjunct1 [OF roundTrip]
  from conjunct1 [OF conjunct2 [OF roundTrip]]
  obtain titleBg titleLogo endBg endLogo cw1 cw2 cw3 cw4 where
    structured: "stripTransient (project (snd (processProjectFile env0 (Zip (fst (saveProject env0 world0)))
                            (snd (saveProject env0 world0)))))
          = stripTransient
              ((project world0) \<lparr> projectTitle :=
                     (if projectTitle (project world0) = []
                      then (if header (titlePage (project world0)) = [] then ''Untitled Project''
                            else header (titlePage (project world0)))
                      else projectTitle (project world0)),
                  titlePage := (titlePage (project world0))
                    \<lparr> backgroundImageAssetKey := titleBg,
                      logo := map_option (\<lambda>lg. lg \<lparr> assetKey := titleLogo \<rparr>) (logo (titlePage (project world0))) \<rparr>,
                  endPage := (endPage (project world0))
                    \<lparr> backgroundImageAssetKey := endBg,
                      logo := map_option (\<lambda>lg. lg \<lparr> assetKey := endLogo \<rparr>) (logo (endPage (project world0))) \<rparr> \<rparr>)
      \<and> processAndMapAsset env0 (backgroundImageAssetKey (titlePage (project world0))) content_assets_defaultBackgroundPath
          ([], setLoading True world0) = (titleBg, cw1)
      \<and> (case logo (titlePage (project world0)) of
         Some lg \<Rightarrow>
           processAndMapAsset env0 (assetKey lg) content_assets_defaultLogoPath cw1 = (titleLogo, cw2)
       | None \<Rightarrow> cw2 = cw1)
      \<and> processAndMapAsset env0 (backgroundImageAssetKey (endPage (project world0))) content_assets_defaultBackgroundPath
          cw2 = (endBg, cw3)
      \<and> (case logo (endPage (project world0)) of
         Some lg \<Rightarrow>
           processAndMapAsset env0 (assetKey lg) content_assets_defaultLogoPath cw3 = (endLogo, cw4)
       | None \<Rightarrow> cw4 = cw3)
      \<and> projectJson (fst (saveProject env0 world0))
        = Some (stripTransient
            ((project world0) \<lparr> titlePage := (titlePage (project world0))
                  \<lparr> backgroundImageAssetKey := titleBg,
                    logo := map_option (\<lambda>lg. lg \<lparr> assetKey := titleLogo \<rparr>) (logo (titlePage (project world0))) \<rparr>,
                endPage := (endPage (project world0))
                  \<lparr> backgroundImageAssetKey := endBg,
                    logo := map_option (\<lambda>lg. lg \<lparr> assetKey := endLogo \<rparr>) (logo (endPage (project world0))) \<rparr> \<rparr>))
      \<and> snd (saveProject env0 world0) = setLoading False (snd cw4)
      \<and> (\<not> startsWith (backgroundImageAssetKey (titlePage (project world0))) ''default-''
           \<longrightarrow> titleBg = backgroundImageAssetKey (titlePage (project world0)))
      \<and> (\<not> startsWith (backgroundImageAssetKey (endPage (project world0))) ''default-''
           \<longrightarrow> endBg = backgroundImageAssetKey (endPage (project world0)))
      \<and> (\<forall>lg. logo (titlePage (project world0)) = Some lg \<and> \<not> startsWith (assetKey lg) ''default-''
           \<longrightarrow> titleLogo = assetKey lg)
      \<and> (\<forall>lg. logo (endPage (project world0)) = Some lg \<and> \<not> startsWith (assetKey lg) ''default-''
           \<longrightarrow> endLogo = assetKey lg)
      \<and> ((\<forall>n url. fetchBlob env0 n url \<noteq> None) \<longrightarrow>
            (startsWith (backgroundImageAssetKey (titlePage (project world0))) ''default-''
               \<longrightarrow> getAssetFile (snd (saveProject env0 world0)) titleBg \<noteq> None)
          \<and> (startsWith (backgroundImageAssetKey (endPage (project world0))) ''default-''
               \<longrightarrow> getAssetFile (snd (saveProject env0 world0)) endBg \<noteq> None)
          \<and> (\<forall>lg. logo (titlePage (project world0)) = Some lg \<and> startsWith (assetKey lg) ''default-''
               \<longrightarrow> getAssetFile (snd (saveProject env0 world0)) titleLogo \<noteq> None)
          \<and> (\<forall>lg. logo (endPage (project world0)) = Some lg \<and> startsWith (assetKey lg) ''default-''
               \<longrightarrow> getAssetFile (snd (saveProject env0 world0)) endLogo \<noteq> None)
          \<and> (backgroundImageAssetKey (titlePage (project world0)) = backgroundImageAssetKey (endPage (project world0))
               \<longrightarrow> titleBg = endBg)
          \<and> (\<forall>lg lg'. logo (titlePage (project world0)) = Some lg \<and> logo (endPage (project world0)) = Some lg'
                 \<and> assetKey lg = assetKey lg'
               \<longrightarrow> titleLogo = endLogo))
      \<and> ((\<forall>n url. fetchBlob env0 n url = None) \<longrightarrow>
            (startsWith (backgroundImageAssetKey (titlePage (project world0))) ''default-'' \<longrightarrow> titleBg = [])
          \<and> (startsWith (backgroundImageAssetKey (endPage (project world0))) ''default-'' \<longrightarrow> endBg = [])
          \<and> (\<forall>lg. logo (titlePage (project world0)) = Some lg \<and> startsWith (assetKey lg) ''default-''
               \<longrightarrow> titleLogo = [])
          \<and> (\<forall>lg. logo (endPage (project world0)) = Some lg \<and> startsWith (assetKey lg) ''default-''
               \<longrightarrow> endLogo = []))"
    by (elim exE)
  note structEq = conjunct1 [OF structured]
  note calls = conjunct2 [OF structured]
  note resolved = mp [OF conjunct1 [OF conjunct2 [OF conjunct2 [OF conjunct2 [OF conjunct2 [OF conjunct2 [OF conjunct2 [OF conjunct2 [OF conjunct2 [OF conjunct2 [OF conjunct2 [OF calls]]]]]]]]]]] ok]
  have same: "titleBg = endBg"
    by (rule mp [OF conjunct1 [OF conjunct2 [OF conjunct2 [OF conjunct2 [OF conjunct2 [OF resolved]]]]] sameKey])
  have inStore: "getAssetFile (snd (saveProject env0 world0)) titleBg \<noteq> None"
    by (rule mp [OF conjunct1 [OF resolved] placeholder])
  from arg_cong [OF structEq, of "\<lambda>s. backgroundImageAssetKey (titlePage s)"]
  have t: "backgroundImageAssetKey (titlePage ?L) = titleBg"
    by (simp add: titleSel)
  from arg_cong [OF structEq, of "\<lambda>s. backgroundImageAssetKey (endPage s)"]
  have n: "backgroundImageAssetKey (endPage ?L) = endBg"
    by (simp add: endSel)
  have "titleBg = ''uuid.png''"
    using t loadedKey by (simp only:)
  with same inStore show ?thesis
    using isLoaded titleKey t n by (simp only: simp_thms)
qed

end
